(* ===== verification/Prelude.thy ===== *)
theory Prelude
  imports Main
begin

text \<open>
  Shared vocabulary of the snelm development: the names of header keys and values, the
  errors that the modelled JavaScript code can throw, a bind on results, the outcome of a
  sequence of in-place mutations (which keeps the mutated state when a later step throws),
  and the byte-wise ASCII lower-casing that Deno's Fetch \<open>Headers\<close> uses to compare
  header names. The collections \<open>header_simps\<close> and \<open>adapter_simps\<close> gather the
  characteristic equations of the header containers and of the adapters.
\<close>

named_theorems header_simps "characteristic equations of native header containers"
named_theorems adapter_simps "characteristic equations of the framework adapters"
named_theorems eval_simps "definitions unfolded to evaluate the model on concrete inputs"

type_synonym header_name = string
type_synonym header_value = string

section \<open>Errors and results\<close>

text \<open>
  Every exception the code can raise, named by the error kinds of the specification:
  \<^item> \<open>UnknownFramework n\<close>: the dynamic \<^verbatim>\<open>import(`./frameworks/${n}.ts`)\<close> of
    \<^verbatim>\<open>Snelm.init\<close> rejects because no such module exists;
  \<^item> \<open>NotInitialized\<close>: \<^verbatim>\<open>new this._fameworkLib(...)\<close> throws a TypeError because the
    field is still \<^verbatim>\<open>undefined\<close>;
  \<^item> \<open>MalformedNativeObject\<close>: an adapter reads \<^verbatim>\<open>headers\<close> of a native object that has
    none, or calls a method (\<^verbatim>\<open>get\<close>, \<^verbatim>\<open>set\<close>, \<^verbatim>\<open>delete\<close>, \<^verbatim>\<open>header\<close>)
    that the object lacks (a TypeError in JavaScript);
  \<^item> \<open>InvalidOptions\<close>: \<^verbatim>\<open>this._options.x\<close> is read while \<^verbatim>\<open>_options\<close> is
    \<^verbatim>\<open>null\<close> (a TypeError);
  \<^item> \<open>InvalidHeader\<close>: the Fetch \<open>Headers\<close> object rejects a header name or value
    (a TypeError).
\<close>

datatype error =
    UnknownFramework string
  | NotInitialized
  | MalformedNativeObject
  | InvalidOptions
  | InvalidHeader

type_synonym 'a result = "error + 'a"

definition rbind :: "'a result \<Rightarrow> ('a \<Rightarrow> 'b result) \<Rightarrow> 'b result" where
  "rbind r f = (case r of Inl e \<Rightarrow> Inl e | Inr x \<Rightarrow> f x)"

text \<open>
  The native objects are mutated in place, so when a step throws, the mutations of the
  earlier steps stay visible to the caller. \<open>Done s\<close> is normal completion with state
  \<open>s\<close>; \<open>Threw e s\<close> is an exception \<open>e\<close> raised in state \<open>s\<close>.
\<close>

datatype 's outcome = Done 's | Threw error 's

primrec out_state :: "'s outcome \<Rightarrow> 's" where
  "out_state (Done s) = s"
| "out_state (Threw e s) = s"

text \<open>One atomic operation that either throws before mutating anything or succeeds.\<close>

definition atomic :: "'s \<Rightarrow> 's result \<Rightarrow> 's outcome" where
  "atomic s r = (case r of Inl e \<Rightarrow> Threw e s | Inr s' \<Rightarrow> Done s')"

text \<open>Sequencing of two statements: the second runs only if the first completed.\<close>

definition then_do :: "'s outcome \<Rightarrow> ('s \<Rightarrow> 's outcome) \<Rightarrow> 's outcome" where
  "then_do r f = (case r of Done s \<Rightarrow> f s | Threw e s \<Rightarrow> Threw e s)"

section \<open>ASCII lower case\<close>

text \<open>
  Deno's \<open>byteLowerCase\<close>: the bytes \<open>A\<close>..\<open>Z\<close> (65..90) become \<open>a\<close>..\<open>z\<close>,
  i.e. bit 5 is set; every other byte is kept.
\<close>

definition is_upper :: "char \<Rightarrow> bool" where
  "is_upper c = (let n = (of_char c :: nat) in 65 \<le> n \<and> n \<le> 90)"

definition lower_char :: "char \<Rightarrow> char" where
  "lower_char c =
     (if is_upper c
      then (case c of Char b0 b1 b2 b3 b4 b5 b6 b7 \<Rightarrow> Char b0 b1 b2 b3 b4 True b6 b7)
      else c)"

abbreviation lower :: "string \<Rightarrow> string" where
  "lower \<equiv> map lower_char"

declare is_upper_def [eval_simps] lower_char_def [eval_simps]

section \<open>Association lists\<close>

text \<open>Removal of every entry with a key, as \<^verbatim>\<open>delete obj[k]\<close> does on own properties.\<close>

definition del_key :: "'k \<Rightarrow> ('k \<times> 'v) list \<Rightarrow> ('k \<times> 'v) list" where
  "del_key k ps = filter (\<lambda>(n, _). n \<noteq> k) ps"

text \<open>Assignment \<^verbatim>\<open>obj[k] = v\<close>: an existing property keeps its position.\<close>

fun put_key :: "'k \<Rightarrow> 'v \<Rightarrow> ('k \<times> 'v) list \<Rightarrow> ('k \<times> 'v) list" where
  "put_key k v [] = [(k, v)]"
| "put_key k v ((n, x) # ps) = (if n = k then (k, v) # ps else (n, x) # put_key k v ps)"

declare del_key_def [eval_simps]

lemma rbind_Inl [simp]: "rbind (Inl e) f = Inl e"
  by (simp add: rbind_def)

lemma rbind_Inr [simp]: "rbind (Inr x) f = f x"
  by (simp add: rbind_def)

lemma rbind_eq_Inr: "rbind r f = Inr y \<longleftrightarrow> (\<exists>x. r = Inr x \<and> f x = Inr y)"
  by (cases r) auto

lemma rbind_eq_Inl: "rbind r f = Inl e \<longleftrightarrow> r = Inl e \<or> (\<exists>x. r = Inr x \<and> f x = Inl e)"
  by (cases r) auto

lemma atomic_simps [simp]:
  "atomic s (Inl e) = Threw e s"
  "atomic s (Inr s') = Done s'"
  by (simp_all add: atomic_def)

lemma then_do_simps [simp]:
  "then_do (Done s) f = f s"
  "then_do (Threw e s) f = Threw e s"
  by (simp_all add: then_do_def)

lemma then_do_assoc: "then_do (then_do r f) g = then_do r (\<lambda>s. then_do (f s) g)"
  by (cases r) simp_all

lemma of_char_lower_char:
  "of_char (lower_char c) = (if is_upper c then of_char c + 32 else (of_char c :: nat))"
  by (cases c) (auto simp: lower_char_def is_upper_def)

lemma lower_char_not_upper: "\<not> is_upper (lower_char c)"
proof (cases "is_upper c")
  case True
  then have "of_char (lower_char c) = (of_char c + 32 :: nat)"
    by (simp add: of_char_lower_char)
  with True show ?thesis by (simp add: is_upper_def Let_def)
next
  case False
  then show ?thesis by (simp add: lower_char_def)
qed

lemma lower_char_idem [simp]: "lower_char (lower_char c) = lower_char c"
  using lower_char_not_upper [of c] by (simp add: lower_char_def [of "lower_char c"])

lemma lower_idem [simp]: "lower (lower s) = lower s"
  by (induction s) simp_all

lemma map_of_del_key [simp]: "map_of (del_key k ps) = (map_of ps)(k := None)"
  by (induction ps) (auto simp: del_key_def fun_eq_iff)

lemma map_of_put_key [simp]: "map_of (put_key k v ps) = (map_of ps)(k \<mapsto> v)"
  by (induction ps) (auto simp: fun_eq_iff)

lemma del_key_absent: "map_of ps k = None \<Longrightarrow> del_key k ps = ps"
  by (induction ps) (auto simp: del_key_def split: if_splits)

lemma del_key_idem [simp]: "del_key k (del_key k ps) = del_key k ps"
  by (simp add: del_key_def)

end
