(* ===== verification/NativeObjects.thy ===== *)
theory NativeObjects
  imports Prelude
begin

text \<open>
  The native request and response objects that the adapters of src/frameworks wrap. They
  are not code of this repository but of the host frameworks and of Deno; the adapters
  reach them in exactly two ways, and this theory models both:
  \<^item> the methods \<^verbatim>\<open>get\<close>, \<^verbatim>\<open>set\<close>, \<^verbatim>\<open>delete\<close> of a Fetch \<open>Headers\<close>
    object (the Oak adapter, and Pogo's \<^verbatim>\<open>response.header\<close>), following Deno's
    implementation: names are compared after ASCII lower-casing, \<^verbatim>\<open>get\<close> joins all
    matching values with \<^verbatim>\<open>", "\<close>, \<^verbatim>\<open>set\<close> normalises the value (strips
    HTTP whitespace), replaces the first matching entry and drops the others or appends,
    \<^verbatim>\<open>delete\<close> drops every matching entry, and all three throw a TypeError on an
    invalid name (and \<^verbatim>\<open>set\<close> on a value holding NUL, CR or LF);
  \<^item> bracket access \<^verbatim>\<open>headers[k]\<close> and \<^verbatim>\<open>delete headers[k]\<close> on the own properties of
    the \<^verbatim>\<open>headers\<close> object (the Pogo adapter): case-sensitive, and blind to the entry
    list of a \<open>Headers\<close> object.
  A \<open>hobj\<close> is the value of a native object's \<^verbatim>\<open>headers\<close> field: its own properties,
  and its entry list when it is a \<open>Headers\<close> instance (\<open>None\<close>: a plain object, whose
  \<^verbatim>\<open>get\<close>/\<^verbatim>\<open>set\<close>/\<^verbatim>\<open>delete\<close> are not functions). The guard of an immutable
  \<open>Headers\<close> object and the special treatment of \<open>set-cookie\<close> are not modelled.
\<close>

section \<open>Fetch Headers entry lists\<close>

definition is_tchar :: "char \<Rightarrow> bool" where
  "is_tchar c =
     (c \<in> set ''!#$%&*+-.^_`|~'' \<or> c = CHR 0x27 \<or>
      (let n = (of_char c :: nat) in 48 \<le> n \<and> n \<le> 57 \<or> 97 \<le> n \<and> n \<le> 122 \<or> 65 \<le> n \<and> n \<le> 90))"

definition valid_name :: "header_name \<Rightarrow> bool" where
  "valid_name k = (k \<noteq> [] \<and> list_all is_tchar k)"

definition http_ws :: "char \<Rightarrow> bool" where
  "http_ws c = ((of_char c :: nat) \<in> {9, 10, 13, 32})"

definition normalize_value :: "header_value \<Rightarrow> header_value" where
  "normalize_value v = rev (dropWhile http_ws (rev (dropWhile http_ws v)))"

definition valid_value :: "header_value \<Rightarrow> bool" where
  "valid_value v = list_all (\<lambda>c. (of_char c :: nat) \<notin> {0, 10, 13}) v"

definition same_name :: "header_name \<Rightarrow> header_name \<times> header_value \<Rightarrow> bool" where
  "same_name k e = (lower (fst e) = lower k)"

fun comma_join :: "string list \<Rightarrow> string" where
  "comma_join [] = []"
| "comma_join [v] = v"
| "comma_join (v # vs) = v @ '', '' @ comma_join vs"

text \<open>What \<^verbatim>\<open>headers.get(k)\<close> returns for a valid name: \<open>None\<close> is \<^verbatim>\<open>null\<close>.\<close>

definition hl_view :: "(header_name \<times> header_value) list \<Rightarrow> header_name \<Rightarrow> header_value option" where
  "hl_view hl k = (case map snd (filter (same_name k) hl) of [] \<Rightarrow> None | vs \<Rightarrow> Some (comma_join vs))"

definition hl_drop :: "header_name \<Rightarrow> (header_name \<times> header_value) list \<Rightarrow> (header_name \<times> header_value) list" where
  "hl_drop k hl = filter (\<lambda>e. \<not> same_name k e) hl"

fun hl_replace :: "header_name \<Rightarrow> header_value \<Rightarrow> (header_name \<times> header_value) list \<Rightarrow> (header_name \<times> header_value) list" where
  "hl_replace k v [] = []"
| "hl_replace k v (e # hl) =
     (if same_name k e then (fst e, v) # hl_drop k hl else e # hl_replace k v hl)"

definition hl_set :: "header_name \<Rightarrow> header_value \<Rightarrow> (header_name \<times> header_value) list \<Rightarrow> (header_name \<times> header_value) list" where
  "hl_set k v hl = (if list_ex (same_name k) hl then hl_replace k v hl else hl @ [(k, v)])"

definition fetch_get :: "header_name \<Rightarrow> (header_name \<times> header_value) list \<Rightarrow> header_value option result" where
  "fetch_get k hl = (if valid_name k then Inr (hl_view hl k) else Inl InvalidHeader)"

definition fetch_set :: "header_name \<Rightarrow> header_value \<Rightarrow> (header_name \<times> header_value) list \<Rightarrow> (header_name \<times> header_value) list result" where
  "fetch_set k v hl =
     (let v' = normalize_value v in
      if valid_name k \<and> valid_value v' then Inr (hl_set k v' hl) else Inl InvalidHeader)"

definition fetch_delete :: "header_name \<Rightarrow> (header_name \<times> header_value) list \<Rightarrow> (header_name \<times> header_value) list result" where
  "fetch_delete k hl = (if valid_name k then Inr (hl_drop k hl) else Inl InvalidHeader)"


declare is_tchar_def [eval_simps] valid_name_def [eval_simps] http_ws_def [eval_simps]
  normalize_value_def [eval_simps] valid_value_def [eval_simps] hl_view_def [eval_simps]
  hl_drop_def [eval_simps] hl_set_def [eval_simps] fetch_get_def [eval_simps]
  fetch_set_def [eval_simps] fetch_delete_def [eval_simps]

section \<open>Native objects\<close>

record hobj =
  own_props :: "(string \<times> string) list"
  header_list :: "(header_name \<times> header_value) list option"

text \<open>
  The \<^verbatim>\<open>header(name, value)\<close> method of a native response, which the Pogo adapter
  calls: absent, writing the \<open>Headers\<close> entry list (Pogo's own \<open>Response\<close> class,
  whose \<^verbatim>\<open>headers\<close> is a \<open>Headers\<close> object), or assigning an own property of a
  plain \<^verbatim>\<open>headers\<close> object.
\<close>

datatype hmethod = NoHeaderMethod | HeaderSetsList | HeaderAssignsProp

record native =
  headers :: "hobj option"
  header_method :: hmethod

definition native_fetch_get :: "native \<Rightarrow> header_name \<Rightarrow> header_value option result" where
  "native_fetch_get n k =
     (case headers n of
        None \<Rightarrow> Inl MalformedNativeObject
      | Some h \<Rightarrow> (case header_list h of None \<Rightarrow> Inl MalformedNativeObject | Some hl \<Rightarrow> fetch_get k hl))"

definition native_fetch_update ::
  "native \<Rightarrow> ((header_name \<times> header_value) list \<Rightarrow> (header_name \<times> header_value) list result) \<Rightarrow> native result" where
  "native_fetch_update n f =
     (case headers n of
        None \<Rightarrow> Inl MalformedNativeObject
      | Some h \<Rightarrow>
          (case header_list h of
             None \<Rightarrow> Inl MalformedNativeObject
           | Some hl \<Rightarrow> rbind (f hl) (\<lambda>hl'. Inr (n\<lparr>headers := Some (h\<lparr>header_list := Some hl'\<rparr>)\<rparr>))))"

definition native_prop_get :: "native \<Rightarrow> string \<Rightarrow> string option result" where
  "native_prop_get n k = (case headers n of None \<Rightarrow> Inl MalformedNativeObject | Some h \<Rightarrow> Inr (map_of (own_props h) k))"

definition native_prop_update :: "native \<Rightarrow> ((string \<times> string) list \<Rightarrow> (string \<times> string) list) \<Rightarrow> native result" where
  "native_prop_update n f =
     (case headers n of
        None \<Rightarrow> Inl MalformedNativeObject
      | Some h \<Rightarrow> Inr (n\<lparr>headers := Some (h\<lparr>own_props := f (own_props h)\<rparr>)\<rparr>))"

definition native_header :: "native \<Rightarrow> header_name \<Rightarrow> header_value \<Rightarrow> native result" where
  "native_header n k v =
     (case header_method n of
        NoHeaderMethod \<Rightarrow> Inl MalformedNativeObject
      | HeaderSetsList \<Rightarrow> native_fetch_update n (fetch_set k v)
      | HeaderAssignsProp \<Rightarrow> native_prop_update n (put_key k v))"

text \<open>
  Example native objects used by the witnesses: a response whose \<^verbatim>\<open>headers\<close> is a
  Fetch \<open>Headers\<close> object holding \<^verbatim>\<open>X-Powered-By: Express\<close> (what an Oak or a Pogo
  response looks like), the same header as an own property of a plain object written
  by an assigning \<^verbatim>\<open>header\<close> method, a request with an empty \<open>Headers\<close> object,
  and an object without \<^verbatim>\<open>headers\<close>.
\<close>

definition express_response :: native where
  "express_response =
     \<lparr>headers = Some \<lparr>own_props = [], header_list = Some [(''X-Powered-By'', ''Express'')]\<rparr>,
      header_method = HeaderSetsList\<rparr>"

definition plain_response :: native where
  "plain_response =
     \<lparr>headers = Some \<lparr>own_props = [(''X-Powered-By'', ''Express'')], header_list = None\<rparr>,
      header_method = HeaderAssignsProp\<rparr>"

definition empty_request :: native where
  "empty_request = \<lparr>headers = Some \<lparr>own_props = [], header_list = Some []\<rparr>, header_method = NoHeaderMethod\<rparr>"

definition bare_object :: native where
  "bare_object = \<lparr>headers = None, header_method = NoHeaderMethod\<rparr>"

declare express_response_def [eval_simps] plain_response_def [eval_simps]
  empty_request_def [eval_simps] bare_object_def [eval_simps]

text \<open>The entry list of the native object's \<open>Headers\<close> object, when there is one.\<close>

definition header_entries :: "native \<Rightarrow> (header_name \<times> header_value) list option" where
  "header_entries n = Option.bind (headers n) header_list"

declare native_fetch_get_def [eval_simps] native_fetch_update_def [eval_simps]
  native_prop_get_def [eval_simps] native_prop_update_def [eval_simps] native_header_def [eval_simps]

text \<open>
  The well-formedness of an entry list that Deno's \<open>Headers\<close> methods establish and
  keep: every name is a valid header name, every value is valid and normalised.
\<close>

definition hl_wf :: "(header_name \<times> header_value) list \<Rightarrow> bool" where
  "hl_wf hl = list_all (\<lambda>(k, v). valid_name k \<and> valid_value v \<and> normalize_value v = v) hl"

declare hl_wf_def [eval_simps]

section \<open>Lookup after set and delete\<close>

lemma same_name_cong: "lower k' = lower k \<Longrightarrow> same_name k' = same_name k"
  by (simp add: same_name_def fun_eq_iff)

lemma same_name_fst [simp]: "same_name k (n, v) = (lower n = lower k)"
  by (simp add: same_name_def)

lemma filter_hl_drop_same:
  assumes "lower k' = lower k"
  shows "filter (same_name k') (hl_drop k hl) = []"
proof -
  from assms have "same_name k' = same_name k" by (rule same_name_cong)
  then show ?thesis by (simp add: hl_drop_def filter_filter)
qed

lemma filter_hl_drop_other:
  "lower k' \<noteq> lower k \<Longrightarrow> filter (same_name k') (hl_drop k hl) = filter (same_name k') hl"
  by (induction hl) (auto simp: hl_drop_def same_name_def)

lemma filter_hl_replace_same:
  "list_ex (same_name k) hl \<Longrightarrow> map snd (filter (same_name k) (hl_replace k v hl)) = [v]"
  by (induction hl) (auto simp: filter_hl_drop_same same_name_def)

lemma filter_hl_replace_other:
  "lower k' \<noteq> lower k \<Longrightarrow> filter (same_name k') (hl_replace k v hl) = filter (same_name k') hl"
  by (induction hl) (auto simp: filter_hl_drop_other same_name_def)

lemma filter_same_name_absent: "\<not> list_ex (same_name k) hl \<Longrightarrow> filter (same_name k) hl = []"
  by (induction hl) auto

lemma hl_view_set [header_simps]:
  "hl_view (hl_set k v hl) k' = (if lower k' = lower k then Some v else hl_view hl k')"
proof (cases "lower k' = lower k")
  case True
  then have eq: "same_name k' = same_name k" by (rule same_name_cong)
  show ?thesis
  proof (cases "list_ex (same_name k) hl")
    case True
    then show ?thesis
      using eq \<open>lower k' = lower k\<close> by (simp add: hl_set_def hl_view_def filter_hl_replace_same)
  next
    case False
    then show ?thesis
      using eq \<open>lower k' = lower k\<close> by (simp add: hl_set_def hl_view_def filter_same_name_absent)
  qed
next
  case False
  then show ?thesis
    by (auto simp: hl_set_def hl_view_def filter_hl_replace_other same_name_def)
qed

lemma hl_view_drop [header_simps]:
  "hl_view (hl_drop k hl) k' = (if lower k' = lower k then None else hl_view hl k')"
  by (simp add: hl_view_def filter_hl_drop_same filter_hl_drop_other)

lemma hl_view_None_iff: "hl_view hl k = None \<longleftrightarrow> \<not> list_ex (same_name k) hl"
  by (induction hl) (auto simp: hl_view_def split: list.splits)

lemma hl_drop_absent: "hl_view hl k = None \<Longrightarrow> hl_drop k hl = hl"
  by (simp add: hl_view_None_iff hl_drop_def list_ex_iff filter_id_conv)

lemma hl_view_cong:
  assumes "lower k' = lower k"
  shows "hl_view hl k' = hl_view hl k"
proof -
  from assms have "same_name k' = same_name k" by (rule same_name_cong)
  then show ?thesis by (simp add: hl_view_def)
qed

lemma fetch_get_ok [header_simps]: "valid_name k \<Longrightarrow> fetch_get k hl = Inr (hl_view hl k)"
  by (simp add: fetch_get_def)

lemma fetch_delete_ok [header_simps]: "valid_name k \<Longrightarrow> fetch_delete k hl = Inr (hl_drop k hl)"
  by (simp add: fetch_delete_def)

lemma fetch_set_ok [header_simps]:
  "valid_name k \<Longrightarrow> valid_value (normalize_value v) \<Longrightarrow>
   fetch_set k v hl = Inr (hl_set k (normalize_value v) hl)"
  by (simp add: fetch_set_def)

lemma fetch_set_Inr:
  "fetch_set k v hl = Inr hl' \<longleftrightarrow>
   valid_name k \<and> valid_value (normalize_value v) \<and> hl' = hl_set k (normalize_value v) hl"
  by (auto simp: fetch_set_def Let_def)

lemma fetch_set_Inl: "fetch_set k v hl = Inl e \<Longrightarrow> e = InvalidHeader"
  by (auto simp: fetch_set_def Let_def split: if_splits)

lemma fetch_delete_Inl: "fetch_delete k hl = Inl e \<Longrightarrow> e = InvalidHeader"
  by (auto simp: fetch_delete_def split: if_splits)

lemma header_entries_Some:
  "header_entries n = Some hl \<longleftrightarrow> (\<exists>h. headers n = Some h \<and> header_list h = Some hl)"
  by (simp add: header_entries_def bind_eq_Some_conv)

lemma native_fetch_update_Inr:
  "native_fetch_update n f = Inr n' \<longleftrightarrow>
   (\<exists>h hl hl'. headers n = Some h \<and> header_list h = Some hl \<and> f hl = Inr hl' \<and>
      n' = n\<lparr>headers := Some (h\<lparr>header_list := Some hl'\<rparr>)\<rparr>)"
  by (auto simp: native_fetch_update_def rbind_eq_Inr split: option.splits)

lemma native_fetch_get_update [header_simps]:
  "headers n = Some h \<Longrightarrow> header_list h = Some hl \<Longrightarrow> f hl = Inr hl' \<Longrightarrow>
   native_fetch_update n f = Inr (n\<lparr>headers := Some (h\<lparr>header_list := Some hl'\<rparr>)\<rparr>)"
  by (simp add: native_fetch_update_def)

lemma native_fetch_update_Inl:
  "native_fetch_update n f = Inl e \<Longrightarrow>
   e = MalformedNativeObject \<or> (\<exists>h hl. headers n = Some h \<and> header_list h = Some hl \<and> f hl = Inl e)"
  by (auto simp: native_fetch_update_def rbind_eq_Inl split: option.splits)

lemma native_prop_update_Inr:
  "native_prop_update n f = Inr n' \<longleftrightarrow>
   (\<exists>h. headers n = Some h \<and> n' = n\<lparr>headers := Some (h\<lparr>own_props := f (own_props h)\<rparr>)\<rparr>)"
  by (auto simp: native_prop_update_def split: option.splits)

section \<open>Well-formed entry lists\<close>

lemma dropWhile_idem: "dropWhile P (dropWhile P xs) = dropWhile P xs"
  by (induction xs) auto

lemma dropWhile_rev_hd:
  "xs = [] \<or> \<not> P (hd xs) \<Longrightarrow> dropWhile P (rev (dropWhile P (rev xs))) = rev (dropWhile P (rev xs))"
proof (induction xs rule: rev_induct)
  case Nil
  then show ?case by simp
next
  case (snoc x xs)
  then show ?case by (cases xs) auto
qed

lemma normalize_value_idem: "normalize_value (normalize_value v) = normalize_value v"
proof -
  let ?a = "dropWhile http_ws v"
  have "?a = [] \<or> \<not> http_ws (hd ?a)"
    by (metis dropWhile_eq_Nil_conv hd_dropWhile)
  then have "dropWhile http_ws (rev (dropWhile http_ws (rev ?a))) = rev (dropWhile http_ws (rev ?a))"
    by (rule dropWhile_rev_hd)
  then show ?thesis by (simp add: normalize_value_def dropWhile_idem)
qed

lemma hl_wf_drop: "hl_wf hl \<Longrightarrow> hl_wf (hl_drop k hl)"
  by (auto simp: hl_wf_def hl_drop_def list_all_iff)

lemma hl_wf_replace:
  "hl_wf hl \<Longrightarrow> valid_value v \<Longrightarrow> normalize_value v = v \<Longrightarrow> hl_wf (hl_replace k v hl)"
proof (induction hl)
  case Nil
  then show ?case by simp
next
  case (Cons e hl)
  then have "hl_wf hl" by (simp add: hl_wf_def)
  with Cons show ?case
    by (auto simp: hl_wf_drop [unfolded hl_wf_def] hl_wf_def)
qed

lemma hl_wf_set:
  "hl_wf hl \<Longrightarrow> valid_name k \<Longrightarrow> valid_value v \<Longrightarrow> normalize_value v = v \<Longrightarrow> hl_wf (hl_set k v hl)"
  by (auto simp: hl_set_def hl_wf_replace, auto simp: hl_wf_def)

lemma length_hl_drop: "length (hl_drop k hl) \<le> length hl"
  by (simp add: hl_drop_def)

lemma length_hl_replace: "length (hl_replace k v hl) \<le> length hl"
  by (induction hl) (auto simp: le_trans [OF length_hl_drop])

lemma length_hl_set: "length (hl_set k v hl) \<le> Suc (length hl)"
  by (auto simp: hl_set_def le_SucI [OF length_hl_replace])

text \<open>A successful \<^verbatim>\<open>set\<close> or \<^verbatim>\<open>delete\<close> keeps an entry list well formed.\<close>

lemma fetch_ops_keep_wf:
  assumes "hl_wf hl"
  shows "(fetch_set k v hl = Inr hl' \<longrightarrow> hl_wf hl') \<and> (fetch_delete k hl = Inr hl'' \<longrightarrow> hl_wf hl'')"
  using assms
  by (auto simp: fetch_set_Inr fetch_delete_def normalize_value_idem intro: hl_wf_set hl_wf_drop)

end
