(* ===== verification/Contract.thy ===== *)
theory Contract
  imports NativeObjects
begin

text \<open>
  The capability contract of src/frameworks/interface.ts: the four operations that every
  adapted request/response pair offers, as a record of functions over the adapter's state
  \<open>'s\<close> (state passing replaces the in-place mutation of the wrapped response). Reads
  return \<open>None\<close> for an absent header (JavaScript's \<^verbatim>\<open>null\<close>/\<^verbatim>\<open>undefined\<close>); every
  operation may throw, which is the \<open>Inl\<close> of its result.

  Both adapters keep the same state, the pair of wrapped native objects
  (\<open>req_resp\<close>: the fields \<^verbatim>\<open>_request\<close>, \<^verbatim>\<open>_response\<close> and their getters).

  The directives only ever call \<^verbatim>\<open>setResponseHeader\<close> and
  \<^verbatim>\<open>removeResponseHeader\<close>. The datatype \<open>hop\<close> names these calls, and
  \<open>run_hops\<close> performs a list of them in order on any implementation of the contract,
  stopping at the first that throws with the mutations made so far. This is what makes
  the pipeline framework-independent: it decides a list of calls, and each adapter only
  interprets them.
\<close>

record 's rr_iface =
  getRequestHeader :: "header_name \<Rightarrow> 's \<Rightarrow> header_value option result"
  getResponseHeader :: "header_name \<Rightarrow> 's \<Rightarrow> header_value option result"
  setResponseHeader :: "header_name \<Rightarrow> header_value \<Rightarrow> 's \<Rightarrow> 's result"
  removeResponseHeader :: "header_name \<Rightarrow> 's \<Rightarrow> 's result"

record req_resp =
  request :: native
  response :: native

datatype hop = SetHeader header_name header_value | RemoveHeader header_name

primrec hop_key :: "hop \<Rightarrow> header_name" where
  "hop_key (SetHeader k v) = k"
| "hop_key (RemoveHeader k) = k"

text \<open>
  The last call of a list whose name satisfies \<open>P\<close>: \<open>last_on k\<close> compares names as
  the Fetch \<open>Headers\<close> object does (letter case ignored), \<open>last_key k\<close> as a plain
  object's properties do (exactly).
\<close>

fun last_where :: "(header_name \<Rightarrow> bool) \<Rightarrow> hop list \<Rightarrow> hop option" where
  "last_where P [] = None"
| "last_where P (h # hs) =
     (case last_where P hs of
        None \<Rightarrow> (if P (hop_key h) then Some h else None)
      | Some h' \<Rightarrow> Some h')"

abbreviation last_on :: "header_name \<Rightarrow> hop list \<Rightarrow> hop option" where
  "last_on k \<equiv> last_where (\<lambda>n. lower n = lower k)"

abbreviation last_key :: "header_name \<Rightarrow> hop list \<Rightarrow> hop option" where
  "last_key k \<equiv> last_where (\<lambda>n. n = k)"

primrec is_set_hop :: "hop \<Rightarrow> bool" where
  "is_set_hop (SetHeader k v) = True"
| "is_set_hop (RemoveHeader k) = False"

primrec run_hop :: "'s rr_iface \<Rightarrow> hop \<Rightarrow> 's \<Rightarrow> 's result" where
  "run_hop rr (SetHeader k v) s = setResponseHeader rr k v s"
| "run_hop rr (RemoveHeader k) s = removeResponseHeader rr k s"

fun run_hops :: "'s rr_iface \<Rightarrow> hop list \<Rightarrow> 's \<Rightarrow> 's outcome" where
  "run_hops rr [] s = Done s"
| "run_hops rr (h # hs) s = then_do (atomic s (run_hop rr h s)) (run_hops rr hs)"

lemma last_where_None: "last_where P hs = None \<longleftrightarrow> (\<forall>h\<in>set hs. \<not> P (hop_key h))"
  by (induction hs) (auto split: option.splits)

lemma run_hops_append:
  "run_hops rr (xs @ ys) s = then_do (run_hops rr xs s) (run_hops rr ys)"
proof (induction xs arbitrary: s)
  case Nil
  then show ?case by simp
next
  case (Cons h hs)
  then show ?case
    by (cases "run_hop rr h s") simp_all
qed

lemma run_hops_inv:
  assumes "\<And>h s s'. h \<in> set hs \<Longrightarrow> I s \<Longrightarrow> run_hop rr h s = Inr s' \<Longrightarrow> I s'" and "I s"
  shows "I (out_state (run_hops rr hs s))"
  using assms
proof (induction hs arbitrary: s)
  case Nil
  then show ?case by simp
next
  case (Cons h hs)
  then show ?case
    by (cases "run_hop rr h s") auto
qed

text \<open>
  A run changes only what its calls touch: if every call of the list keeps a
  view of the state (a header the calls do not name, say), the whole run keeps it,
  also when it stops with an exception.
\<close>

lemma run_hops_keeps:
  assumes "\<And>h s s'. h \<in> set hs \<Longrightarrow> run_hop rr h s = Inr s' \<Longrightarrow> P s' = P s"
  shows "P (out_state (run_hops rr hs s)) = P s"
  using assms
proof (induction hs arbitrary: s)
  case Nil
  then show ?case by simp
next
  case (Cons h hs)
  show ?case
  proof (cases "run_hop rr h s")
    case (Inl e)
    then show ?thesis by simp
  next
    case (Inr s')
    with Cons.prems have "P s' = P s" by (meson list.set_intros(1))
    moreover have "P (out_state (run_hops rr hs s')) = P s'"
      using Cons.prems by (intro Cons.IH) auto
    ultimately show ?thesis using Inr by simp
  qed
qed

lemma last_where_append:
  "last_where P (xs @ ys) = (case last_where P ys of None \<Rightarrow> last_where P xs | Some h \<Rightarrow> Some h)"
  by (induction xs) (auto split: option.splits)

lemma last_where_mono_None:
  "last_where Q hs = None \<Longrightarrow> (\<And>n. P n \<Longrightarrow> Q n) \<Longrightarrow> last_where P hs = None"
  by (auto simp: last_where_None)

lemma last_where_Some:
  "last_where P hs = Some h \<Longrightarrow> h \<in> set hs \<and> P (hop_key h)"
  by (induction hs) (auto split: option.splits if_splits)

lemma last_key_from_last_on: "last_on k hs = None \<Longrightarrow> last_key k hs = None"
  by (erule last_where_mono_None) simp

lemma last_where_filter:
  "last_where P hs = Some h \<Longrightarrow> Q h \<Longrightarrow> last_where P (filter Q hs) = Some h"
proof (induction hs)
  case Nil
  then show ?case by simp
next
  case (Cons x xs)
  show ?case
  proof (cases "last_where P xs")
    case None
    then have "last_where P (filter Q xs) = None" by (auto simp: last_where_None)
    with None Cons.prems show ?thesis by (auto split: if_splits)
  next
    case (Some h')
    with Cons show ?thesis by auto
  qed
qed

end
