(* ===== verification/Oak.thy ===== *)
theory Oak
  imports Contract
begin

text \<open>
  The Oak adapter, src/frameworks/oak.ts: class \<^verbatim>\<open>OakRequestResponse\<close> wraps the
  native pair and forwards each contract operation to the Fetch \<open>Headers\<close> object in
  the \<^verbatim>\<open>headers\<close> field of the request or the response. Its lemmas show that it meets
  the contract of specification section 4.1: set then get gives back the value that was
  set (the normalised value, since \<open>Headers\<close> strips surrounding whitespace), for the
  same name in any letter case; set and remove leave every other header and the request
  unchanged; remove of an absent header changes nothing; and a native object without a
  \<open>Headers\<close> object makes every operation throw without mutating anything. A run of
  operations throws exactly when a call fails the \<open>Headers\<close> validation, keeps the
  entry list well formed, and adds at most one entry per set call.
\<close>

definition OakRequestResponse :: "native \<Rightarrow> native \<Rightarrow> req_resp" where
  "OakRequestResponse req resp = \<lparr>request = req, response = resp\<rparr>"

definition oak_getRequestHeader :: "header_name \<Rightarrow> req_resp \<Rightarrow> header_value option result" where
  "oak_getRequestHeader k rr = native_fetch_get (request rr) k"

definition oak_getResponseHeader :: "header_name \<Rightarrow> req_resp \<Rightarrow> header_value option result" where
  "oak_getResponseHeader k rr = native_fetch_get (response rr) k"

definition oak_setResponseHeader :: "header_name \<Rightarrow> header_value \<Rightarrow> req_resp \<Rightarrow> req_resp result" where
  "oak_setResponseHeader k v rr =
     rbind (native_fetch_update (response rr) (fetch_set k v)) (\<lambda>n. Inr (rr\<lparr>response := n\<rparr>))"

definition oak_removeResponseHeader :: "header_name \<Rightarrow> req_resp \<Rightarrow> req_resp result" where
  "oak_removeResponseHeader k rr =
     rbind (native_fetch_update (response rr) (fetch_delete k)) (\<lambda>n. Inr (rr\<lparr>response := n\<rparr>))"

definition oak_rr :: "req_resp rr_iface" where
  "oak_rr = \<lparr>getRequestHeader = oak_getRequestHeader, getResponseHeader = oak_getResponseHeader,
             setResponseHeader = oak_setResponseHeader, removeResponseHeader = oak_removeResponseHeader\<rparr>"

declare OakRequestResponse_def [eval_simps] oak_getRequestHeader_def [eval_simps]
  oak_getResponseHeader_def [eval_simps] oak_setResponseHeader_def [eval_simps]
  oak_removeResponseHeader_def [eval_simps]


text \<open>Oak's header operations and their validity: what the Fetch \<open>Headers\<close> object accepts.\<close>

definition oak_hop_ok :: "hop \<Rightarrow> bool" where
  "oak_hop_ok h =
     (valid_name (hop_key h) \<and> (case h of SetHeader k v \<Rightarrow> valid_value (normalize_value v) | RemoveHeader k \<Rightarrow> True))"

primrec oak_hop_value :: "hop \<Rightarrow> header_value option" where
  "oak_hop_value (SetHeader k v) = Some (normalize_value v)"
| "oak_hop_value (RemoveHeader k) = None"

declare oak_hop_ok_def [eval_simps]

lemma oak_rr_ops [adapter_simps, eval_simps]:
  "getRequestHeader oak_rr = oak_getRequestHeader"
  "getResponseHeader oak_rr = oak_getResponseHeader"
  "setResponseHeader oak_rr = oak_setResponseHeader"
  "removeResponseHeader oak_rr = oak_removeResponseHeader"
  by (simp_all add: oak_rr_def)


lemma header_entries_fetch_update:
  "native_fetch_update n f = Inr n' \<Longrightarrow>
   \<exists>hl hl'. header_entries n = Some hl \<and> f hl = Inr hl' \<and> header_entries n' = Some hl' \<and> header_method n' = header_method n"
  by (auto simp: native_fetch_update_Inr header_entries_def)

lemma native_fetch_get_entries:
  "header_entries n = Some hl \<Longrightarrow> native_fetch_get n k = fetch_get k hl"
  by (auto simp: header_entries_def native_fetch_get_def split: option.splits)

lemma oak_set_Inr:
  "oak_setResponseHeader k v rr = Inr rr' \<Longrightarrow>
   \<exists>hl. header_entries (response rr) = Some hl \<and> valid_name k \<and> valid_value (normalize_value v) \<and>
        header_entries (response rr') = Some (hl_set k (normalize_value v) hl) \<and> request rr' = request rr"
  by (auto simp: oak_setResponseHeader_def rbind_eq_Inr fetch_set_Inr dest!: header_entries_fetch_update)

lemma oak_remove_Inr:
  "oak_removeResponseHeader k rr = Inr rr' \<Longrightarrow>
   \<exists>hl. header_entries (response rr) = Some hl \<and> valid_name k \<and>
        header_entries (response rr') = Some (hl_drop k hl) \<and> request rr' = request rr"
  by (auto simp: oak_removeResponseHeader_def rbind_eq_Inr fetch_delete_def split: if_splits
           dest!: header_entries_fetch_update)

lemma oak_getResponseHeader_entries [adapter_simps]:
  "header_entries (response rr) = Some hl \<Longrightarrow> valid_name k \<Longrightarrow>
   oak_getResponseHeader k rr = Inr (hl_view hl k)"
  by (simp add: oak_getResponseHeader_def native_fetch_get_entries fetch_get_ok)

lemma oak_set_view:
  assumes set: "setResponseHeader oak_rr k v rr = Inr rr'" and k': "valid_name k'"
  shows "getResponseHeader oak_rr k' rr' =
           (if lower k' = lower k then Inr (Some (normalize_value v)) else getResponseHeader oak_rr k' rr)"
proof -
  from set obtain hl where hl: "header_entries (response rr) = Some hl"
    and new: "header_entries (response rr') = Some (hl_set k (normalize_value v) hl)"
    by (auto simp: adapter_simps dest: oak_set_Inr)
  show ?thesis
    using hl new k' by (simp add: adapter_simps header_simps)
qed

lemma oak_remove_view:
  assumes rem: "removeResponseHeader oak_rr k rr = Inr rr'" and k': "valid_name k'"
  shows "getResponseHeader oak_rr k' rr' =
           (if lower k' = lower k then Inr None else getResponseHeader oak_rr k' rr)"
proof -
  from rem obtain hl where hl: "header_entries (response rr) = Some hl"
    and new: "header_entries (response rr') = Some (hl_drop k hl)"
    by (auto simp: adapter_simps dest: oak_remove_Inr)
  show ?thesis
    using hl new k' by (simp add: adapter_simps header_simps)
qed

text \<open>C9. Remove of an absent header on the Oak adapter is a no-op, not an error: when
  \<^verbatim>\<open>getResponseHeader(k)\<close> returns null, \<^verbatim>\<open>removeResponseHeader(k)\<close> succeeds and
  leaves the pair unchanged.\<close>

theorem oak_remove_absent:
  assumes "getResponseHeader oak_rr k rr = Inr None"
  shows "removeResponseHeader oak_rr k rr = Inr rr"
proof -
  from assms obtain h hl where h: "headers (response rr) = Some h" and hl: "header_list h = Some hl"
    and ok: "valid_name k" and none: "hl_view hl k = None"
    by (auto simp: adapter_simps oak_getResponseHeader_def native_fetch_get_def fetch_get_def
             split: option.splits if_splits)
  from none have "hl_drop k hl = hl" by (rule hl_drop_absent)
  with h hl ok show ?thesis
    by (simp add: adapter_simps oak_removeResponseHeader_def native_fetch_update_def fetch_delete_ok)
qed

text \<open>C10. A native response without a Fetch \<open>Headers\<close> object makes every response
  operation of the Oak adapter throw (the TypeError of reading \<^verbatim>\<open>headers.get\<close> or
  \<^verbatim>\<open>headers.set\<close>), so a directive can never silently skip its header.\<close>

theorem oak_malformed:
  assumes "header_entries (response rr) = None"
  shows "setResponseHeader oak_rr k v rr = Inl MalformedNativeObject \<and>
         removeResponseHeader oak_rr k rr = Inl MalformedNativeObject \<and>
         getResponseHeader oak_rr k rr = Inl MalformedNativeObject"
  using assms
  by (auto simp: adapter_simps header_entries_def oak_setResponseHeader_def oak_removeResponseHeader_def
                 oak_getResponseHeader_def native_fetch_update_def native_fetch_get_def
           split: option.splits)

lemma oak_set_succeeds:
  assumes "header_entries (response rr) = Some hl" and "valid_name k" and "valid_value (normalize_value v)"
  shows "\<exists>rr'. setResponseHeader oak_rr k v rr = Inr rr' \<and> request rr' = request rr"
  using assms
  by (auto simp: adapter_simps header_entries_Some oak_setResponseHeader_def native_fetch_update_def
                 fetch_set_ok)

lemma oak_run_hop_view:
  assumes "run_hop oak_rr h rr = Inr rr'" and "valid_name k"
  shows "getResponseHeader oak_rr k rr' =
           (if lower (hop_key h) = lower k then Inr (oak_hop_value h) else getResponseHeader oak_rr k rr)"
  using assms by (cases h) (auto simp: oak_set_view oak_remove_view)

lemma oak_run_hop_entries:
  "run_hop oak_rr h rr = Inr rr' \<Longrightarrow> header_entries (response rr') \<noteq> None \<and> request rr' = request rr"
  by (cases h) (auto simp: adapter_simps dest: oak_set_Inr oak_remove_Inr)

lemma oak_run_hop_ok:
  assumes "header_entries (response rr) \<noteq> None" and "oak_hop_ok h"
  shows "\<exists>rr'. run_hop oak_rr h rr = Inr rr'"
  using assms
  by (cases h)
     (auto simp: adapter_simps oak_hop_ok_def header_entries_Some oak_setResponseHeader_def
                 oak_removeResponseHeader_def native_fetch_update_def fetch_set_ok fetch_delete_ok)

text \<open>A run of valid operations on a response with a \<open>Headers\<close> object completes.\<close>

lemma oak_run_hops_Done:
  "header_entries (response rr) \<noteq> None \<Longrightarrow> list_all oak_hop_ok hs \<Longrightarrow>
   \<exists>rr'. run_hops oak_rr hs rr = Done rr' \<and> request rr' = request rr"
proof (induction hs arbitrary: rr)
  case Nil
  then show ?case by simp
next
  case (Cons h hs)
  from Cons.prems have "header_entries (response rr) \<noteq> None" and "oak_hop_ok h" by simp_all
  then obtain rr1 where step: "run_hop oak_rr h rr = Inr rr1" using oak_run_hop_ok by blast
  with Cons.prems obtain rr' where "run_hops oak_rr hs rr1 = Done rr'" "request rr' = request rr1"
    using Cons.IH [of rr1] oak_run_hop_entries [OF step] by auto
  with step show ?case using oak_run_hop_entries [OF step] by auto
qed

text \<open>After a completed run, a header reads as the last operation on its name left it.\<close>

lemma oak_run_hops_view:
  "run_hops oak_rr hs rr = Done rr' \<Longrightarrow> valid_name k \<Longrightarrow>
   getResponseHeader oak_rr k rr' =
     (case last_on k hs of None \<Rightarrow> getResponseHeader oak_rr k rr | Some h \<Rightarrow> Inr (oak_hop_value h))"
proof (induction hs arbitrary: rr)
  case Nil
  then show ?case by simp
next
  case (Cons h hs)
  from Cons.prems obtain rr1 where step: "run_hop oak_rr h rr = Inr rr1"
    and rest: "run_hops oak_rr hs rr1 = Done rr'"
    by (cases "run_hop oak_rr h rr") auto
  from rest Cons.prems(2) have IH: "getResponseHeader oak_rr k rr' =
     (case last_on k hs of None \<Rightarrow> getResponseHeader oak_rr k rr1 | Some h \<Rightarrow> Inr (oak_hop_value h))"
    by (rule Cons.IH)
  show ?case
    using IH oak_run_hop_view [OF step Cons.prems(2)] by (auto split: option.splits)
qed

text \<open>C8. Set then get on the Oak adapter: after \<^verbatim>\<open>setResponseHeader(k, v)\<close>
  succeeded, \<^verbatim>\<open>getResponseHeader\<close> of \<open>k\<close>, in any letter case, returns \<open>v\<close>
  (with surrounding HTTP whitespace stripped, as \<open>Headers\<close> stores it), even when the
  list held several entries of that name before.\<close>

theorem oak_set_get_roundtrip:
  assumes "setResponseHeader oak_rr k v rr = Inr rr'"
    and "lower k' = lower k" and "valid_name k'"
  shows "getResponseHeader oak_rr k' rr' = Inr (Some (normalize_value v))"
  using oak_set_view [OF assms(1,3)] assms(2) by simp

theorem oak_set_get_roundtrip_witness:
  "setResponseHeader oak_rr ''x-powered-by'' '' PHP 4.2.0'' (OakRequestResponse empty_request express_response) =
     Inr (OakRequestResponse empty_request
            (express_response\<lparr>headers := Some \<lparr>own_props = [],
               header_list = Some [(''X-Powered-By'', ''PHP 4.2.0'')]\<rparr>\<rparr>)) \<and>
   lower ''X-POWERED-BY'' = lower ''x-powered-by'' \<and> valid_name ''X-POWERED-BY'' \<and>
   getResponseHeader oak_rr ''X-POWERED-BY''
     (OakRequestResponse empty_request
        (express_response\<lparr>headers := Some \<lparr>own_props = [],
           header_list = Some [(''X-Powered-By'', ''PHP 4.2.0'')]\<rparr>\<rparr>)) = Inr (Some ''PHP 4.2.0'')"
proof -
  have set: "setResponseHeader oak_rr ''x-powered-by'' '' PHP 4.2.0'' (OakRequestResponse empty_request express_response) =
     Inr (OakRequestResponse empty_request
            (express_response\<lparr>headers := Some \<lparr>own_props = [],
               header_list = Some [(''X-Powered-By'', ''PHP 4.2.0'')]\<rparr>\<rparr>))"
    by (simp add: eval_simps)
  have low: "lower ''X-POWERED-BY'' = lower ''x-powered-by''" and ok: "valid_name ''X-POWERED-BY''"
    by (simp_all add: eval_simps)
  have "normalize_value '' PHP 4.2.0'' = ''PHP 4.2.0''" by (simp add: eval_simps)
  with oak_set_get_roundtrip [OF set low ok] set low ok show ?thesis by simp
qed

theorem oak_remove_absent_witness:
  "getResponseHeader oak_rr ''X-DNS-Prefetch-Control'' (OakRequestResponse empty_request express_response) = Inr None \<and>
   removeResponseHeader oak_rr ''X-DNS-Prefetch-Control'' (OakRequestResponse empty_request express_response) =
     Inr (OakRequestResponse empty_request express_response)"
proof -
  have absent: "getResponseHeader oak_rr ''X-DNS-Prefetch-Control'' (OakRequestResponse empty_request express_response) = Inr None"
    by (simp add: eval_simps)
  show ?thesis using oak_remove_absent [OF absent] absent by simp
qed

theorem oak_malformed_witness:
  "header_entries (response (OakRequestResponse empty_request bare_object)) = None \<and>
   setResponseHeader oak_rr ''X-Content-Type-Options'' ''nosniff'' (OakRequestResponse empty_request bare_object) =
     Inl MalformedNativeObject"
proof -
  have none: "header_entries (response (OakRequestResponse empty_request bare_object)) = None"
    by (simp add: eval_simps header_entries_def)
  show ?thesis using oak_malformed [OF none] none by simp
qed

text \<open>C21. Remove then get on the Oak adapter: after \<^verbatim>\<open>removeResponseHeader(k)\<close>
  succeeded, \<^verbatim>\<open>getResponseHeader\<close> of \<open>k\<close> in any letter case returns absent (null),
  even when the list held several entries of that name.\<close>

theorem oak_remove_then_get:
  assumes "removeResponseHeader oak_rr k rr = Inr rr'"
    and "lower k' = lower k" and "valid_name k'"
  shows "getResponseHeader oak_rr k' rr' = Inr None"
  using oak_remove_view [OF assms(1,3)] assms(2) by simp

theorem oak_remove_then_get_witness:
  "removeResponseHeader oak_rr ''X-Powered-By''
     (OakRequestResponse empty_request
        (express_response\<lparr>headers := Some \<lparr>own_props = [],
           header_list = Some [(''X-Powered-By'', ''Express''), (''x-powered-by'', ''PHP'')]\<rparr>\<rparr>)) =
     Inr (OakRequestResponse empty_request
        (express_response\<lparr>headers := Some \<lparr>own_props = [], header_list = Some []\<rparr>\<rparr>)) \<and>
   lower ''x-POWERED-by'' = lower ''X-Powered-By'' \<and> valid_name ''x-POWERED-by'' \<and>
   getResponseHeader oak_rr ''x-POWERED-by''
     (OakRequestResponse empty_request
        (express_response\<lparr>headers := Some \<lparr>own_props = [], header_list = Some []\<rparr>\<rparr>)) = Inr None"
proof -
  have rem: "removeResponseHeader oak_rr ''X-Powered-By''
     (OakRequestResponse empty_request
        (express_response\<lparr>headers := Some \<lparr>own_props = [],
           header_list = Some [(''X-Powered-By'', ''Express''), (''x-powered-by'', ''PHP'')]\<rparr>\<rparr>)) =
     Inr (OakRequestResponse empty_request
        (express_response\<lparr>headers := Some \<lparr>own_props = [], header_list = Some []\<rparr>\<rparr>))"
    by (simp add: eval_simps)
  have low: "lower ''x-POWERED-by'' = lower ''X-Powered-By''" and ok: "valid_name ''x-POWERED-by''"
    by (simp_all add: eval_simps)
  show ?thesis using oak_remove_then_get [OF rem low ok] rem low ok by simp
qed

section \<open>Errors, well-formedness and size of a run\<close>

lemma oak_run_hop_bad:
  assumes "header_entries (response rr) \<noteq> None" and "\<not> oak_hop_ok h"
  shows "run_hop oak_rr h rr = Inl InvalidHeader"
  using assms
  by (cases h)
     (auto simp: adapter_simps oak_hop_ok_def header_entries_Some oak_setResponseHeader_def
                 oak_removeResponseHeader_def native_fetch_update_def fetch_set_def fetch_delete_def Let_def)

lemma oak_run_hops_Threw:
  "header_entries (response rr) \<noteq> None \<Longrightarrow> \<not> list_all oak_hop_ok hs \<Longrightarrow>
   \<exists>rr'. run_hops oak_rr hs rr = Threw InvalidHeader rr' \<and> request rr' = request rr"
proof (induction hs arbitrary: rr)
  case Nil
  then show ?case by simp
next
  case (Cons h hs)
  show ?case
  proof (cases "oak_hop_ok h")
    case True
    then obtain rr1 where step: "run_hop oak_rr h rr = Inr rr1"
      using oak_run_hop_ok Cons.prems(1) by blast
    with Cons.prems True obtain rr' where "run_hops oak_rr hs rr1 = Threw InvalidHeader rr'" "request rr' = request rr1"
      using Cons.IH [of rr1] oak_run_hop_entries [OF step] by auto
    with step show ?thesis using oak_run_hop_entries [OF step] by auto
  next
    case False
    then show ?thesis using oak_run_hop_bad [OF Cons.prems(1) False] by simp
  qed
qed

lemma oak_run_hops_entries:
  assumes "header_entries (response rr) \<noteq> None"
  shows "header_entries (response (out_state (run_hops oak_rr hs rr))) \<noteq> None"
  by (rule run_hops_inv [where I = "\<lambda>rr. header_entries (response rr) \<noteq> None"])
     (use assms oak_run_hop_entries in blast)+

lemma oak_run_hop_wf:
  assumes "run_hop oak_rr h rr = Inr rr'" and "header_entries (response rr) = Some hl" and "hl_wf hl"
  shows "\<exists>hl'. header_entries (response rr') = Some hl' \<and> hl_wf hl'"
  using assms
  by (cases h) (auto simp: adapter_simps dest!: oak_set_Inr oak_remove_Inr intro!: hl_wf_set hl_wf_drop normalize_value_idem)

lemma oak_run_hop_length:
  assumes "run_hop oak_rr h rr = Inr rr'" and "header_entries (response rr) = Some hl"
  shows "\<exists>hl'. header_entries (response rr') = Some hl' \<and> length hl' \<le> length hl + (if is_set_hop h then 1 else 0)"
  using assms
  by (cases h) (auto simp: adapter_simps length_hl_set length_hl_drop dest!: oak_set_Inr oak_remove_Inr)

text \<open>Runs of the adapter keep the response's entry list well formed, also runs that throw.\<close>

lemma oak_run_keeps_wf:
  assumes "header_entries (response rr) = Some hl" and "hl_wf hl"
  shows "\<exists>hl'. header_entries (response (out_state (run_hops oak_rr hs rr))) = Some hl' \<and> hl_wf hl'"
proof (rule run_hops_inv [where I = "\<lambda>rr. \<exists>hl. header_entries (response rr) = Some hl \<and> hl_wf hl"])
  show "\<exists>hl. header_entries (response rr) = Some hl \<and> hl_wf hl" using assms by blast
next
  fix h s s' assume "\<exists>hl. header_entries (response s) = Some hl \<and> hl_wf hl" and "run_hop oak_rr h s = Inr s'"
  then show "\<exists>hl. header_entries (response s') = Some hl \<and> hl_wf hl" using oak_run_hop_wf by blast
qed

text \<open>C27. A run of \<open>n\<close> header operations of which \<open>m\<close> are sets grows the
  response's entry list by at most \<open>m\<close> entries: \<^verbatim>\<open>set\<close> replaces before it appends,
  and \<^verbatim>\<open>delete\<close> never adds one.\<close>

theorem oak_run_entries_bound:
  "header_entries (response rr) = Some hl \<Longrightarrow>
   \<exists>hl'. header_entries (response (out_state (run_hops oak_rr hs rr))) = Some hl' \<and>
         length hl' \<le> length hl + length (filter is_set_hop hs)"
proof (induction hs arbitrary: rr hl)
  case Nil
  then show ?case by simp
next
  case (Cons h hs)
  show ?case
  proof (cases "run_hop oak_rr h rr")
    case (Inl e)
    then show ?thesis using Cons.prems by simp
  next
    case (Inr rr1)
    then obtain hl1 where e1: "header_entries (response rr1) = Some hl1"
      and l1: "length hl1 \<le> length hl + (if is_set_hop h then 1 else 0)"
      using oak_run_hop_length [OF _ Cons.prems] by blast
    obtain hl' where "header_entries (response (out_state (run_hops oak_rr hs rr1))) = Some hl'"
      and "length hl' \<le> length hl1 + length (filter is_set_hop hs)"
      using Cons.IH [OF e1] by blast
    with Inr l1 show ?thesis by auto
  qed
qed

theorem oak_run_entries_bound_witness:
  "header_entries (response (OakRequestResponse empty_request express_response)) = Some [(''X-Powered-By'', ''Express'')] \<and>
   (\<exists>hl'. header_entries (response (out_state (run_hops oak_rr
              [SetHeader ''X-DNS-Prefetch-Control'' ''off'', RemoveHeader ''X-Powered-By'']
              (OakRequestResponse empty_request express_response)))) = Some hl' \<and> length hl' \<le> 2)"
proof -
  have e: "header_entries (response (OakRequestResponse empty_request express_response)) = Some [(''X-Powered-By'', ''Express'')]"
    by (simp add: eval_simps header_entries_def)
  obtain hl' where a: "header_entries (response (out_state (run_hops oak_rr
              [SetHeader ''X-DNS-Prefetch-Control'' ''off'', RemoveHeader ''X-Powered-By'']
              (OakRequestResponse empty_request express_response)))) = Some hl'"
    and b: "length hl' \<le> length [(''X-Powered-By'', ''Express'')] +
              length (filter is_set_hop [SetHeader ''X-DNS-Prefetch-Control'' ''off'', RemoveHeader ''X-Powered-By''])"
    using oak_run_entries_bound [OF e, of "[SetHeader ''X-DNS-Prefetch-Control'' ''off'', RemoveHeader ''X-Powered-By'']"]
    by blast
  have "length hl' \<le> 2" using b by simp
  with a e show ?thesis by blast
qed

end
