(* ===== verification/Pogo.thy ===== *)
theory Pogo
  imports Contract
begin

text \<open>
  The Pogo adapter, src/frameworks/pogo.ts: class \<^verbatim>\<open>PogoRequestResponse\<close> reads and
  deletes headers with bracket access on the \<^verbatim>\<open>headers\<close> object of the native
  request or response (\<^verbatim>\<open>headers[k]\<close>, \<^verbatim>\<open>delete headers[k]\<close>), but writes them
  through the response's own \<^verbatim>\<open>header(k, v)\<close> method. The contract holds, case-sensitively,
  when that method assigns an own property of a plain \<^verbatim>\<open>headers\<close> object. When the
  method writes a Fetch \<open>Headers\<close> entry list, as Pogo's \<open>Response\<close> class does, a
  header that was set is never seen by \<^verbatim>\<open>getResponseHeader\<close>, and
  \<^verbatim>\<open>removeResponseHeader\<close> never removes a header of the list.
\<close>

definition PogoRequestResponse :: "native \<Rightarrow> native \<Rightarrow> req_resp" where
  "PogoRequestResponse req resp = \<lparr>request = req, response = resp\<rparr>"

definition pogo_getRequestHeader :: "header_name \<Rightarrow> req_resp \<Rightarrow> header_value option result" where
  "pogo_getRequestHeader k rr = native_prop_get (request rr) k"

definition pogo_getResponseHeader :: "header_name \<Rightarrow> req_resp \<Rightarrow> header_value option result" where
  "pogo_getResponseHeader k rr = native_prop_get (response rr) k"

definition pogo_setResponseHeader :: "header_name \<Rightarrow> header_value \<Rightarrow> req_resp \<Rightarrow> req_resp result" where
  "pogo_setResponseHeader k v rr = rbind (native_header (response rr) k v) (\<lambda>n. Inr (rr\<lparr>response := n\<rparr>))"

definition pogo_removeResponseHeader :: "header_name \<Rightarrow> req_resp \<Rightarrow> req_resp result" where
  "pogo_removeResponseHeader k rr =
     rbind (native_prop_update (response rr) (del_key k)) (\<lambda>n. Inr (rr\<lparr>response := n\<rparr>))"

definition pogo_rr :: "req_resp rr_iface" where
  "pogo_rr = \<lparr>getRequestHeader = pogo_getRequestHeader, getResponseHeader = pogo_getResponseHeader,
              setResponseHeader = pogo_setResponseHeader, removeResponseHeader = pogo_removeResponseHeader\<rparr>"

text \<open>
  What a completed header operation does on the two kinds of Pogo response: on the own
  properties of a plain \<^verbatim>\<open>headers\<close> object written by an assigning \<^verbatim>\<open>header\<close>
  method, and on the entry list of a \<open>Headers\<close> object written by a \<^verbatim>\<open>header\<close>
  method that calls \<^verbatim>\<open>set\<close> (where \<^verbatim>\<open>delete headers[k]\<close> leaves the list alone).
\<close>

primrec pogo_hop_props :: "hop \<Rightarrow> (string \<times> string) list \<Rightarrow> (string \<times> string) list" where
  "pogo_hop_props (SetHeader k v) ps = put_key k v ps"
| "pogo_hop_props (RemoveHeader k) ps = del_key k ps"

primrec pogo_hop_value :: "hop \<Rightarrow> header_value option" where
  "pogo_hop_value (SetHeader k v) = Some v"
| "pogo_hop_value (RemoveHeader k) = None"

primrec pogo_hop_list :: "hop \<Rightarrow> (header_name \<times> header_value) list \<Rightarrow> (header_name \<times> header_value) list" where
  "pogo_hop_list (SetHeader k v) hl = hl_set k (normalize_value v) hl"
| "pogo_hop_list (RemoveHeader k) hl = hl"

primrec set_hop_ok :: "hop \<Rightarrow> bool" where
  "set_hop_ok (SetHeader k v) = (valid_name k \<and> valid_value (normalize_value v))"
| "set_hop_ok (RemoveHeader k) = True"

declare PogoRequestResponse_def [eval_simps] pogo_getRequestHeader_def [eval_simps]
  pogo_getResponseHeader_def [eval_simps] pogo_setResponseHeader_def [eval_simps]
  pogo_removeResponseHeader_def [eval_simps]

text \<open>The own properties of the response's \<^verbatim>\<open>headers\<close> object, as bracket access sees them.\<close>

definition pogo_props :: "native \<Rightarrow> (string \<times> string) list option" where
  "pogo_props n = map_option own_props (headers n)"

lemma pogo_rr_ops [adapter_simps, eval_simps]:
  "getRequestHeader pogo_rr = pogo_getRequestHeader"
  "getResponseHeader pogo_rr = pogo_getResponseHeader"
  "setResponseHeader pogo_rr = pogo_setResponseHeader"
  "removeResponseHeader pogo_rr = pogo_removeResponseHeader"
  by (simp_all add: pogo_rr_def)

lemma pogo_get_props [adapter_simps]:
  "pogo_props (response rr) = Some ps \<Longrightarrow> pogo_getResponseHeader k rr = Inr (map_of ps k)"
  by (auto simp: pogo_props_def pogo_getResponseHeader_def native_prop_get_def)

lemma pogo_set_assign_Inr:
  "header_method (response rr) = HeaderAssignsProp \<Longrightarrow> pogo_setResponseHeader k v rr = Inr rr' \<Longrightarrow>
   \<exists>ps. pogo_props (response rr) = Some ps \<and> pogo_props (response rr') = Some (put_key k v ps)"
  by (auto simp: pogo_setResponseHeader_def native_header_def rbind_eq_Inr native_prop_update_Inr
                 pogo_props_def)

lemma pogo_set_list_Inr:
  "header_method (response rr) = HeaderSetsList \<Longrightarrow> pogo_setResponseHeader k v rr = Inr rr' \<Longrightarrow>
   pogo_props (response rr') = pogo_props (response rr)"
  by (auto simp: pogo_setResponseHeader_def native_header_def rbind_eq_Inr native_fetch_update_Inr
                 pogo_props_def)

lemma pogo_remove_Inr:
  "pogo_removeResponseHeader k rr = Inr rr' \<Longrightarrow>
   \<exists>h. headers (response rr) = Some h \<and>
        headers (response rr') = Some (h\<lparr>own_props := del_key k (own_props h)\<rparr>)"
  by (auto simp: pogo_removeResponseHeader_def rbind_eq_Inr native_prop_update_Inr)

lemma pogo_get_unchanged_props:
  "pogo_props (response rr') = pogo_props (response rr) \<Longrightarrow>
   pogo_getResponseHeader k rr' = pogo_getResponseHeader k rr"
  by (cases "headers (response rr)"; cases "headers (response rr')")
     (simp_all add: pogo_props_def pogo_getResponseHeader_def native_prop_get_def)

text \<open>C11. Set then get, on the Pogo adapter with a plain-object \<^verbatim>\<open>headers\<close> whose
  \<^verbatim>\<open>header\<close> method assigns a property: the value set is read back under exactly the
  same name, and only that name changes. Names are case-sensitive here, unlike Oak.\<close>

theorem pogo_set_get_assign:
  assumes m: "header_method (response rr) = HeaderAssignsProp"
    and set: "setResponseHeader pogo_rr k v rr = Inr rr'"
  shows "getResponseHeader pogo_rr k' rr' =
           (if k' = k then Inr (Some v) else getResponseHeader pogo_rr k' rr)"
proof -
  from m set obtain ps where "pogo_props (response rr) = Some ps"
    and "pogo_props (response rr') = Some (put_key k v ps)"
    by (auto simp: adapter_simps dest: pogo_set_assign_Inr)
  then show ?thesis by (simp add: adapter_simps)
qed

text \<open>C12. Set is invisible to get on a Pogo response whose \<^verbatim>\<open>header\<close> method writes the
  Fetch \<open>Headers\<close> entry list (Pogo's \<open>Response\<close> class): after a successful
  \<^verbatim>\<open>setResponseHeader\<close>, every \<^verbatim>\<open>getResponseHeader\<close> returns what it returned
  before, so the set-then-get round trip of the contract fails.\<close>

theorem pogo_set_unseen:
  assumes m: "header_method (response rr) = HeaderSetsList"
    and set: "setResponseHeader pogo_rr k v rr = Inr rr'"
  shows "getResponseHeader pogo_rr k' rr' = getResponseHeader pogo_rr k' rr"
proof -
  from set have "pogo_setResponseHeader k v rr = Inr rr'" by (simp add: adapter_simps)
  with m have "pogo_props (response rr') = pogo_props (response rr)"
    by (rule pogo_set_list_Inr)
  then have "pogo_getResponseHeader k' rr' = pogo_getResponseHeader k' rr"
    by (rule pogo_get_unchanged_props)
  then show ?thesis by (simp add: adapter_simps)
qed

lemma pogo_remove_get:
  assumes "removeResponseHeader pogo_rr k rr = Inr rr'"
  shows "getResponseHeader pogo_rr k' rr' =
           (if k' = k then Inr None else getResponseHeader pogo_rr k' rr)"
  using pogo_remove_Inr [OF assms [unfolded adapter_simps]]
  by (auto simp: adapter_simps pogo_getResponseHeader_def native_prop_get_def)

text \<open>C13. Remove never touches the Fetch \<open>Headers\<close> entry list on the Pogo adapter:
  \<^verbatim>\<open>delete headers[k]\<close> removes only an own property, so a header held by a
  \<open>Headers\<close> object stays in the response.\<close>

theorem pogo_remove_keeps_list:
  assumes "removeResponseHeader pogo_rr k rr = Inr rr'"
  shows "map_option header_list (headers (response rr')) = map_option header_list (headers (response rr))"
  using pogo_remove_Inr [OF assms [unfolded adapter_simps]] by auto

theorem pogo_set_get_assign_witness:
  "header_method (response (PogoRequestResponse empty_request plain_response)) = HeaderAssignsProp \<and>
   setResponseHeader pogo_rr ''X-Powered-By'' ''PHP 4.2.0'' (PogoRequestResponse empty_request plain_response) =
     Inr (PogoRequestResponse empty_request
            (plain_response\<lparr>headers := Some \<lparr>own_props = [(''X-Powered-By'', ''PHP 4.2.0'')], header_list = None\<rparr>\<rparr>)) \<and>
   getResponseHeader pogo_rr ''X-Powered-By''
     (PogoRequestResponse empty_request
        (plain_response\<lparr>headers := Some \<lparr>own_props = [(''X-Powered-By'', ''PHP 4.2.0'')], header_list = None\<rparr>\<rparr>)) =
     Inr (Some ''PHP 4.2.0'') \<and>
   getResponseHeader pogo_rr ''x-powered-by''
     (PogoRequestResponse empty_request
        (plain_response\<lparr>headers := Some \<lparr>own_props = [(''X-Powered-By'', ''PHP 4.2.0'')], header_list = None\<rparr>\<rparr>)) =
     Inr None"
proof -
  have m: "header_method (response (PogoRequestResponse empty_request plain_response)) = HeaderAssignsProp"
    by (simp add: eval_simps)
  have set: "setResponseHeader pogo_rr ''X-Powered-By'' ''PHP 4.2.0'' (PogoRequestResponse empty_request plain_response) =
     Inr (PogoRequestResponse empty_request
            (plain_response\<lparr>headers := Some \<lparr>own_props = [(''X-Powered-By'', ''PHP 4.2.0'')], header_list = None\<rparr>\<rparr>))"
    by (simp add: eval_simps)
  have before: "getResponseHeader pogo_rr ''x-powered-by'' (PogoRequestResponse empty_request plain_response) = Inr None"
    by (simp add: eval_simps)
  show ?thesis
    using pogo_set_get_assign [OF m set, of "''X-Powered-By''"]
          pogo_set_get_assign [OF m set, of "''x-powered-by''"] m set before by simp
qed

theorem pogo_set_unseen_witness:
  "header_method (response (PogoRequestResponse empty_request express_response)) = HeaderSetsList \<and>
   setResponseHeader pogo_rr ''X-Powered-By'' ''PHP 4.2.0'' (PogoRequestResponse empty_request express_response) =
     Inr (PogoRequestResponse empty_request
            (express_response\<lparr>headers := Some \<lparr>own_props = [], header_list = Some [(''X-Powered-By'', ''PHP 4.2.0'')]\<rparr>\<rparr>)) \<and>
   getResponseHeader pogo_rr ''X-Powered-By''
     (PogoRequestResponse empty_request
        (express_response\<lparr>headers := Some \<lparr>own_props = [], header_list = Some [(''X-Powered-By'', ''PHP 4.2.0'')]\<rparr>\<rparr>)) =
     Inr None"
proof -
  have m: "header_method (response (PogoRequestResponse empty_request express_response)) = HeaderSetsList"
    by (simp add: eval_simps)
  have set: "setResponseHeader pogo_rr ''X-Powered-By'' ''PHP 4.2.0'' (PogoRequestResponse empty_request express_response) =
     Inr (PogoRequestResponse empty_request
            (express_response\<lparr>headers := Some \<lparr>own_props = [], header_list = Some [(''X-Powered-By'', ''PHP 4.2.0'')]\<rparr>\<rparr>))"
    by (simp add: eval_simps)
  have before: "getResponseHeader pogo_rr ''X-Powered-By'' (PogoRequestResponse empty_request express_response) = Inr None"
    by (simp add: eval_simps)
  show ?thesis using pogo_set_unseen [OF m set, of "''X-Powered-By''"] m set before by simp
qed

theorem pogo_remove_keeps_list_witness:
  "removeResponseHeader pogo_rr ''X-Powered-By'' (PogoRequestResponse empty_request express_response) =
     Inr (PogoRequestResponse empty_request express_response) \<and>
   map_option header_list (headers (response (PogoRequestResponse empty_request express_response))) =
     Some (Some [(''X-Powered-By'', ''Express'')])"
proof -
  have rem: "removeResponseHeader pogo_rr ''X-Powered-By'' (PogoRequestResponse empty_request express_response) =
     Inr (PogoRequestResponse empty_request express_response)"
    by (simp add: eval_simps)
  show ?thesis using pogo_remove_keeps_list [OF rem] rem by (simp add: eval_simps)
qed

lemma pogo_run_hop_request:
  "run_hop pogo_rr h rr = Inr rr' \<Longrightarrow> request rr' = request rr"
  by (cases h) (auto simp: adapter_simps pogo_setResponseHeader_def pogo_removeResponseHeader_def rbind_eq_Inr)

lemma pogo_run_hop_assign:
  assumes "header_method (response rr) = HeaderAssignsProp" and "pogo_props (response rr) = Some ps"
  shows "\<exists>rr'. run_hop pogo_rr h rr = Inr rr' \<and> header_method (response rr') = HeaderAssignsProp \<and>
           pogo_props (response rr') = Some (pogo_hop_props h ps) \<and> request rr' = request rr"
  using assms
  by (cases h)
     (auto simp: adapter_simps pogo_setResponseHeader_def pogo_removeResponseHeader_def native_header_def
                 native_prop_update_def pogo_props_def)

lemma pogo_run_hops_assign:
  "header_method (response rr) = HeaderAssignsProp \<Longrightarrow> pogo_props (response rr) = Some ps \<Longrightarrow>
   \<exists>rr'. run_hops pogo_rr hs rr = Done rr' \<and> pogo_props (response rr') = Some (fold pogo_hop_props hs ps) \<and>
        request rr' = request rr"
proof (induction hs arbitrary: rr ps)
  case Nil
  then show ?case by simp
next
  case (Cons h hs)
  from pogo_run_hop_assign [OF Cons.prems] obtain rr1 where
    step: "run_hop pogo_rr h rr = Inr rr1" and m: "header_method (response rr1) = HeaderAssignsProp"
    and p: "pogo_props (response rr1) = Some (pogo_hop_props h ps)" and q: "request rr1 = request rr"
    by blast
  from Cons.IH [OF m p] step q show ?case by auto
qed

lemma map_of_pogo_hop_props:
  "map_of (pogo_hop_props h ps) k = (if hop_key h = k then pogo_hop_value h else map_of ps k)"
  by (cases h) auto

lemma map_of_fold_pogo_hop_props:
  "map_of (fold pogo_hop_props hs ps) k =
     (case last_key k hs of None \<Rightarrow> map_of ps k | Some h \<Rightarrow> pogo_hop_value h)"
  by (induction hs arbitrary: ps) (auto simp: map_of_pogo_hop_props split: option.splits)

lemma pogo_run_hop_list:
  assumes "header_method (response rr) = HeaderSetsList" and "header_entries (response rr) = Some hl"
    and "set_hop_ok h"
  shows "\<exists>rr'. run_hop pogo_rr h rr = Inr rr' \<and> header_method (response rr') = HeaderSetsList \<and>
           header_entries (response rr') = Some (pogo_hop_list h hl)"
  using assms
  by (cases h)
     (auto simp: adapter_simps pogo_setResponseHeader_def pogo_removeResponseHeader_def native_header_def
                 native_prop_update_def native_fetch_update_def fetch_set_ok header_entries_def
                 bind_eq_Some_conv)

lemma pogo_run_hops_list:
  "header_method (response rr) = HeaderSetsList \<Longrightarrow> header_entries (response rr) = Some hl \<Longrightarrow>
   list_all set_hop_ok hs \<Longrightarrow>
   \<exists>rr'. run_hops pogo_rr hs rr = Done rr' \<and> header_entries (response rr') = Some (fold pogo_hop_list hs hl)"
proof (induction hs arbitrary: rr hl)
  case Nil
  then show ?case by simp
next
  case (Cons h hs)
  from Cons.prems have "set_hop_ok h" by simp
  from pogo_run_hop_list [OF Cons.prems(1,2) this] obtain rr1 where
    step: "run_hop pogo_rr h rr = Inr rr1" and m: "header_method (response rr1) = HeaderSetsList"
    and e: "header_entries (response rr1) = Some (pogo_hop_list h hl)"
    by blast
  from Cons.IH [OF m e] Cons.prems(3) step show ?case by auto
qed

lemma hl_view_fold_no_set:
  "\<forall>h\<in>set hs. is_set_hop h \<longrightarrow> lower (hop_key h) \<noteq> lower k \<Longrightarrow>
   hl_view (fold pogo_hop_list hs hl) k = hl_view hl k"
proof (induction hs arbitrary: hl)
  case Nil
  then show ?case by simp
next
  case (Cons h hs)
  then have "hl_view (pogo_hop_list h hl) k = hl_view hl k"
    by (cases h) (auto simp: hl_view_set)
  with Cons show ?case by simp
qed

end
