(* ===== verification/JsValue.thy ===== *)
theory JsValue
  imports Prelude
begin

text \<open>
  The JavaScript values that flow through the configuration object of \<^verbatim>\<open>Snelm\<close>
  (\<^verbatim>\<open>options: any\<close> in src/mod.ts and the option objects of the directives), with
  the three pieces of JavaScript semantics the code relies on: truthiness (\<^verbatim>\<open>if (x)\<close>,
  \<^verbatim>\<open>a && b\<close>, \<^verbatim>\<open>a || b\<close>), property reads (\<^verbatim>\<open>o.p\<close>, which throws on
  \<^verbatim>\<open>null\<close> and \<^verbatim>\<open>undefined\<close>) and the string conversion \<^verbatim>\<open>String(v)\<close> that a
  Fetch \<open>Headers\<close> object applies to a value it stores. Objects are association lists
  of their own properties; arrays, functions, \<open>NaN\<close> and prototype properties are not
  modelled (no property the code reads is inherited from \<^verbatim>\<open>Object.prototype\<close>).
\<close>

datatype jsval =
    JUndef
  | JNull
  | JBool bool
  | JNum int
  | JStr string
  | JObj "(string \<times> jsval) list"

text \<open>\<^verbatim>\<open>ToBoolean\<close>: the falsy values are undefined, null, false, 0 and the empty string.\<close>

fun js_truthy :: "jsval \<Rightarrow> bool" where
  "js_truthy JUndef = False"
| "js_truthy JNull = False"
| "js_truthy (JBool b) = b"
| "js_truthy (JNum n) = (n \<noteq> 0)"
| "js_truthy (JStr s) = (s \<noteq> [])"
| "js_truthy (JObj ps) = True"

text \<open>
  A property read on a value that is not \<^verbatim>\<open>null\<close> or \<^verbatim>\<open>undefined\<close>: an own property
  of an object, \<^verbatim>\<open>undefined\<close> otherwise (primitives are boxed and have none of the
  properties the code reads).
\<close>

fun prop_of :: "jsval \<Rightarrow> string \<Rightarrow> jsval" where
  "prop_of (JObj ps) p = (case map_of ps p of Some v \<Rightarrow> v | None \<Rightarrow> JUndef)"
| "prop_of v p = JUndef"

text \<open>\<^verbatim>\<open>o.p\<close> in general: a TypeError when \<open>o\<close> is null or undefined.\<close>

definition js_get_prop :: "jsval \<Rightarrow> string \<Rightarrow> jsval result" where
  "js_get_prop v p = (if v = JUndef \<or> v = JNull then Inl InvalidOptions else Inr (prop_of v p))"

text \<open>Decimal digits of a natural number, as \<^verbatim>\<open>Number.prototype.toString\<close> prints it.\<close>

fun nat_digits :: "nat \<Rightarrow> string" where
  "nat_digits n =
     (if n < 10 then [''0123456789'' ! n]
      else nat_digits (n div 10) @ [''0123456789'' ! (n mod 10)])"

declare nat_digits.simps [simp del]

fun js_string :: "jsval \<Rightarrow> string" where
  "js_string JUndef = ''undefined''"
| "js_string JNull = ''null''"
| "js_string (JBool b) = (if b then ''true'' else ''false'')"
| "js_string (JNum n) = (if n < 0 then CHR ''-'' # nat_digits (nat (- n)) else nat_digits (nat n))"
| "js_string (JStr s) = s"
| "js_string (JObj ps) = ''[object Object]''"

lemma js_get_prop_ok [simp]:
  "v \<noteq> JUndef \<Longrightarrow> v \<noteq> JNull \<Longrightarrow> js_get_prop v p = Inr (prop_of v p)"
  by (simp add: js_get_prop_def)

lemma js_get_prop_obj [simp]: "js_get_prop (JObj ps) p = Inr (prop_of (JObj ps) p)"
  by (simp add: js_get_prop_def)

lemma js_get_prop_fail [simp]:
  "js_get_prop JNull p = Inl InvalidOptions"
  "js_get_prop JUndef p = Inl InvalidOptions"
  by (simp_all add: js_get_prop_def)

lemma js_get_prop_Inl: "js_get_prop v p = Inl e \<longleftrightarrow> (v = JUndef \<or> v = JNull) \<and> e = InvalidOptions"
  by (auto simp: js_get_prop_def)

lemma truthy_not_nullish: "js_truthy v \<Longrightarrow> v \<noteq> JUndef \<and> v \<noteq> JNull"
  by auto

lemma nat_digits_nonempty: "nat_digits n \<noteq> []"
  by (subst nat_digits.simps) simp

lemma js_string_truthy_nonempty: "js_truthy v \<Longrightarrow> js_string v \<noteq> []"
  by (cases v) (auto simp: nat_digits_nonempty)

end
