(* ===== verification/Directives.thy ===== *)
theory Directives
  imports Contract JsValue
begin

text \<open>
  The three directives whose code is in the repository (src/deps/*/index.ts), each
  written against the capability contract of any adapter \<open>rr\<close>, as the TypeScript is
  written against \<^verbatim>\<open>RequestResponseInterface\<close>. Their options are JavaScript values
  (\<open>JUndef\<close> when the caller passes none). Each directive makes exactly one call of
  the contract, and \<open>*_hops\<close> names that call, so the lemmas \<open>*_run_hops\<close> show that
  a directive is the interpretation of its list of header operations on every adapter
  (specification section 4.3: set and remove are its only effects, and it reads no
  header). The remaining nine directives that src/mod.ts imports are not in src/ and
  are modelled in theory Snelm only through their lists of header operations. The
  interfaces that type the options are predicates on JavaScript values.
\<close>

section \<open>dns-prefetch-control\<close>

definition getHeaderValueFromOptions :: "jsval \<Rightarrow> header_value" where
  "getHeaderValueFromOptions options =
     (if js_truthy options \<and> js_truthy (prop_of options ''allow'') then ''on'' else ''off'')"

definition dnsPrefetchControl :: "'s rr_iface \<Rightarrow> jsval \<Rightarrow> 's \<Rightarrow> 's result" where
  "dnsPrefetchControl requestResponse options s =
     (let headerValue = getHeaderValueFromOptions options
      in setResponseHeader requestResponse ''X-DNS-Prefetch-Control'' headerValue s)"

definition dnsPrefetchControl_hops :: "jsval \<Rightarrow> hop list" where
  "dnsPrefetchControl_hops options = [SetHeader ''X-DNS-Prefetch-Control'' (getHeaderValueFromOptions options)]"

section \<open>dont-sniff-mimetype\<close>

definition dontSniffMimetype :: "'s rr_iface \<Rightarrow> 's \<Rightarrow> 's result" where
  "dontSniffMimetype requestResponse s =
     setResponseHeader requestResponse ''X-Content-Type-Options'' ''nosniff'' s"

definition dontSniffMimetype_hops :: "hop list" where
  "dontSniffMimetype_hops = [SetHeader ''X-Content-Type-Options'' ''nosniff'']"

section \<open>hide-powered-by\<close>

text \<open>
  \<^verbatim>\<open>const { setTo = null } = options || {}\<close>: the default applies only when the
  property is undefined; \<^verbatim>\<open>if (setTo)\<close> then tests truthiness, so an empty string,
  \<open>0\<close> or \<open>false\<close> remove the header as null does. A value other than a string is
  stored as \<^verbatim>\<open>String(setTo)\<close>, the conversion the \<open>Headers\<close> object performs.
\<close>

definition hidePoweredBy_setTo :: "jsval \<Rightarrow> jsval" where
  "hidePoweredBy_setTo options =
     (let obj = (if js_truthy options then options else JObj [])
      in case prop_of obj ''setTo'' of JUndef \<Rightarrow> JNull | v \<Rightarrow> v)"

definition hidePoweredBy :: "'s rr_iface \<Rightarrow> jsval \<Rightarrow> 's \<Rightarrow> 's result" where
  "hidePoweredBy requestResponse options s =
     (let setTo = hidePoweredBy_setTo options
      in if js_truthy setTo
         then setResponseHeader requestResponse ''X-Powered-By'' (js_string setTo) s
         else removeResponseHeader requestResponse ''X-Powered-By'' s)"

definition hidePoweredBy_hops :: "jsval \<Rightarrow> hop list" where
  "hidePoweredBy_hops options =
     (let setTo = hidePoweredBy_setTo options
      in if js_truthy setTo then [SetHeader ''X-Powered-By'' (js_string setTo)]
         else [RemoveHeader ''X-Powered-By''])"

declare dnsPrefetchControl_def [eval_simps] dontSniffMimetype_def [eval_simps] hidePoweredBy_def [eval_simps]

declare getHeaderValueFromOptions_def [eval_simps] dnsPrefetchControl_hops_def [eval_simps]
  dontSniffMimetype_hops_def [eval_simps] hidePoweredBy_setTo_def [eval_simps]
  hidePoweredBy_hops_def [eval_simps]

section \<open>The declared option types\<close>

text \<open>
  The TypeScript interfaces \<^verbatim>\<open>DnsPrefetchControlOptions\<close> (\<^verbatim>\<open>allow?: boolean\<close>)
  and \<^verbatim>\<open>HidePoweredByOptions\<close> (\<^verbatim>\<open>setTo?: string\<close>), with the parameter
  \<^verbatim>\<open>options?\<close> optional: the values a type-checked caller can pass. The orchestrator
  passes \<^verbatim>\<open>this._options.*\<close>, typed \<^verbatim>\<open>any\<close>, so nothing enforces them at run time.
\<close>

definition dns_options_typed :: "jsval \<Rightarrow> bool" where
  "dns_options_typed options =
     (case options of
        JUndef \<Rightarrow> True
      | JObj ps \<Rightarrow> (case prop_of options ''allow'' of JUndef \<Rightarrow> True | JBool b \<Rightarrow> True | _ \<Rightarrow> False)
      | _ \<Rightarrow> False)"

definition hide_options_typed :: "jsval \<Rightarrow> bool" where
  "hide_options_typed options =
     (case options of
        JUndef \<Rightarrow> True
      | JObj ps \<Rightarrow> (case prop_of options ''setTo'' of JUndef \<Rightarrow> True | JStr s \<Rightarrow> True | _ \<Rightarrow> False)
      | _ \<Rightarrow> False)"

declare dns_options_typed_def [eval_simps] hide_options_typed_def [eval_simps]

section \<open>Directives are their header operations\<close>

lemma dnsPrefetchControl_run_hops:
  "atomic s (dnsPrefetchControl rr options s) = run_hops rr (dnsPrefetchControl_hops options) s"
  by (cases "dnsPrefetchControl rr options s")
     (simp_all add: dnsPrefetchControl_def dnsPrefetchControl_hops_def)

lemma dontSniffMimetype_run_hops:
  "atomic s (dontSniffMimetype rr s) = run_hops rr dontSniffMimetype_hops s"
  by (cases "dontSniffMimetype rr s") (simp_all add: dontSniffMimetype_def dontSniffMimetype_hops_def)

lemma hidePoweredBy_run_hops:
  "atomic s (hidePoweredBy rr options s) = run_hops rr (hidePoweredBy_hops options) s"
  by (cases "hidePoweredBy rr options s")
     (auto simp: hidePoweredBy_def hidePoweredBy_hops_def Let_def split: if_splits)

lemma prop_of_non_object: "(\<forall>ps. v \<noteq> JObj ps) \<Longrightarrow> prop_of v p = JUndef"
  by (cases v) simp_all

lemma hidePoweredBy_setTo_object:
  "hidePoweredBy_setTo (JObj ps) = (case map_of ps ''setTo'' of None \<Rightarrow> JNull | Some JUndef \<Rightarrow> JNull | Some t \<Rightarrow> t)"
  by (simp add: hidePoweredBy_setTo_def split: option.splits jsval.splits)

lemma hidePoweredBy_setTo_truthy:
  "js_truthy (hidePoweredBy_setTo options) \<longleftrightarrow>
   (\<exists>ps t. options = JObj ps \<and> map_of ps ''setTo'' = Some t \<and> js_truthy t \<and> hidePoweredBy_setTo options = t)"
  by (cases options) (auto simp: hidePoweredBy_setTo_def split: option.splits jsval.splits)

lemma hidePoweredBy_setTo_given:
  "map_of ps ''setTo'' = Some t \<Longrightarrow> js_truthy t \<Longrightarrow> hidePoweredBy_setTo (JObj ps) = t"
  by (cases t) (simp_all add: hidePoweredBy_setTo_def)

text \<open>C14. dns-prefetch-control emits \<^verbatim>\<open>on\<close> exactly when its options are an object
  with a truthy \<^verbatim>\<open>allow\<close>; every other value, including \<^verbatim>\<open>true\<close>, the string
  \<^verbatim>\<open>"off"\<close> and an absent entry, emits \<^verbatim>\<open>off\<close>.\<close>

theorem getHeaderValueFromOptions_on_iff:
  "getHeaderValueFromOptions options = ''on'' \<longleftrightarrow>
   (\<exists>ps. options = JObj ps \<and> js_truthy (prop_of options ''allow''))"
  by (cases options) (auto simp: getHeaderValueFromOptions_def)

text \<open>C15. hide-powered-by sets \<^verbatim>\<open>X-Powered-By\<close> exactly when its options are an object
  whose \<^verbatim>\<open>setTo\<close> is truthy, to that value as a string; in every other case (no
  options, \<^verbatim>\<open>setTo\<close> absent, null, empty, false or 0, or options that are not an
  object) it removes the header.\<close>

theorem hidePoweredBy_sets_iff:
  "hidePoweredBy_hops options = [SetHeader ''X-Powered-By'' v] \<longleftrightarrow>
   (\<exists>ps t. options = JObj ps \<and> map_of ps ''setTo'' = Some t \<and> js_truthy t \<and> v = js_string t)"
proof (cases "js_truthy (hidePoweredBy_setTo options)")
  case True
  then obtain ps t where o: "options = JObj ps" and m: "map_of ps ''setTo'' = Some t"
    and t: "js_truthy t" and st: "hidePoweredBy_setTo options = t"
    using hidePoweredBy_setTo_truthy by blast
  from True st have "hidePoweredBy_hops options = [SetHeader ''X-Powered-By'' (js_string t)]"
    by (simp add: hidePoweredBy_hops_def)
  with o m t show ?thesis by auto
next
  case False
  then have "hidePoweredBy_hops options = [RemoveHeader ''X-Powered-By'']"
    by (simp add: hidePoweredBy_hops_def)
  moreover have "\<not> (\<exists>ps t. options = JObj ps \<and> map_of ps ''setTo'' = Some t \<and> js_truthy t)"
    using False hidePoweredBy_setTo_given by auto
  ultimately show ?thesis by auto
qed

lemma hidePoweredBy_hops_remove:
  "\<not> js_truthy (hidePoweredBy_setTo options) \<Longrightarrow> hidePoweredBy_hops options = [RemoveHeader ''X-Powered-By'']"
  by (simp add: hidePoweredBy_hops_def)

lemma src_hops_keys:
  "h \<in> set (dnsPrefetchControl_hops v) \<Longrightarrow> hop_key h = ''X-DNS-Prefetch-Control''"
  "h \<in> set dontSniffMimetype_hops \<Longrightarrow> hop_key h = ''X-Content-Type-Options''"
  "h \<in> set (hidePoweredBy_hops v) \<Longrightarrow> hop_key h = ''X-Powered-By''"
  by (auto simp: dnsPrefetchControl_hops_def dontSniffMimetype_hops_def hidePoweredBy_hops_def Let_def
           split: if_splits)

text \<open>C32. For options of the declared type, the truthiness tests of
  \<^verbatim>\<open>getHeaderValueFromOptions\<close> mean what the type says: the header is \<^verbatim>\<open>on\<close>
  exactly when \<^verbatim>\<open>allow\<close> is \<^verbatim>\<open>true\<close>, and \<^verbatim>\<open>off\<close> when the options or
  \<^verbatim>\<open>allow\<close> are missing or \<^verbatim>\<open>allow\<close> is \<^verbatim>\<open>false\<close>.\<close>

theorem dns_typed_header_value:
  "dns_options_typed options \<Longrightarrow>
   getHeaderValueFromOptions options = (if prop_of options ''allow'' = JBool True then ''on'' else ''off'')"
  by (auto simp: dns_options_typed_def getHeaderValueFromOptions_def split: jsval.splits)

theorem dns_typed_header_value_witness:
  "dns_options_typed (JObj [(''allow'', JBool False)]) \<and>
   getHeaderValueFromOptions (JObj [(''allow'', JBool False)]) = ''off''"
proof -
  have t: "dns_options_typed (JObj [(''allow'', JBool False)])" by (simp add: eval_simps)
  show ?thesis using dns_typed_header_value [OF t] t by simp
qed

text \<open>C33. For options of the declared type, hide-powered-by sets \<^verbatim>\<open>X-Powered-By\<close>
  to exactly the string \<^verbatim>\<open>setTo\<close> when it is a non-empty string, with no conversion,
  and removes the header when \<^verbatim>\<open>setTo\<close> or the options are missing or \<^verbatim>\<open>setTo\<close> is
  the empty string.\<close>

theorem hide_typed_hops:
  "hide_options_typed options \<Longrightarrow>
   hidePoweredBy_hops options =
     (case prop_of options ''setTo'' of
        JStr s \<Rightarrow> if s = [] then [RemoveHeader ''X-Powered-By''] else [SetHeader ''X-Powered-By'' s]
      | _ \<Rightarrow> [RemoveHeader ''X-Powered-By''])"
  by (auto simp: hide_options_typed_def hidePoweredBy_hops_def hidePoweredBy_setTo_def Let_def split: jsval.splits)

theorem hide_typed_hops_witness:
  "hide_options_typed (JObj [(''setTo'', JStr ''PHP 4.2.0'')]) \<and>
   hidePoweredBy_hops (JObj [(''setTo'', JStr ''PHP 4.2.0'')]) = [SetHeader ''X-Powered-By'' ''PHP 4.2.0'']"
proof -
  have t: "hide_options_typed (JObj [(''setTo'', JStr ''PHP 4.2.0'')])" by (simp add: eval_simps)
  show ?thesis using hide_typed_hops [OF t] t by simp
qed

end
