(* ===== verification/Snelm.thy ===== *)
theory Snelm
  imports Oak Pogo Directives
begin

text \<open>
  The orchestrator, class \<^verbatim>\<open>Snelm\<close> of src/mod.ts. Its state is the record
  \<open>snelm\<close> (the private fields \<^verbatim>\<open>_frameworkName\<close>, \<^verbatim>\<open>_options\<close>,
  \<^verbatim>\<open>_fameworkLib\<close>); \<open>Snelm_new\<close> is the constructor, \<open>snelm_init\<close> the method
  \<^verbatim>\<open>init\<close>, and \<open>snelm_snelm\<close> the method \<^verbatim>\<open>snelm\<close>, whose twelve guarded
  directive calls are \<open>run_directives\<close> over \<open>directive_registry\<close>.

  \<^verbatim>\<open>init\<close> loads \<^verbatim>\<open>./frameworks/${name}.ts\<close> and keeps its default export. The
  modules of src/frameworks are \<open>oak\<close> and \<open>pogo\<close> (an adapter class each) and
  \<open>interface\<close> (no default export, so \<^verbatim>\<open>_fameworkLib\<close> becomes
  \<^verbatim>\<open>undefined\<close> again); any other name makes the import reject. Names containing a
  path separator, which would reach other modules of the repository, are not modelled.

  The nine directives whose code is not under src/ (crossdomain, csp, expect-ct,
  feature-policy, frameguard, hsts, ienoopen, referrer-policy, x-xss-protection) are a
  parameter \<open>ext\<close> of type \<open>ext_directives\<close>: for each, the list of header
  operations it performs for given options. Specification section 4.3 states that
  these calls are a directive's only effect, and it fixes no defaults for these nine.
  Every theorem holds for every \<open>ext\<close>, or for every \<open>ext\<close> that leaves a named header
  alone.
\<close>

section \<open>Frameworks\<close>

datatype framework = OakFramework | PogoFramework

text \<open>
  The dynamic import of line 26: the specifier \<^verbatim>\<open>./frameworks/${name}.ts\<close> is resolved
  against the URL of src/mod.ts. The path is split at \<^verbatim>\<open>/\<close> (and at \<^verbatim>\<open>\\\<close>, which the
  URL parser reads as \<^verbatim>\<open>/\<close> in a file URL); \<^verbatim>\<open>.\<close> segments and the empty segments
  (which the file system collapses) are dropped, and \<^verbatim>\<open>..\<close> goes up one directory.
  Paths are lists of names from the repository's root, as in a file-system model.
  \<open>None\<close> is a path that leaves the repository.
\<close>

fun split_path :: "string \<Rightarrow> string \<Rightarrow> string list" where
  "split_path seg [] = [rev seg]"
| "split_path seg (c # cs) =
     (if c = CHR ''/'' \<or> c = CHR 0x5C then rev seg # split_path [] cs else split_path (c # seg) cs)"

fun resolve_segs :: "string list \<Rightarrow> string list \<Rightarrow> string list option" where
  "resolve_segs dir [] = Some (rev dir)"
| "resolve_segs dir (s # ss) =
     (if s = [] \<or> s = ''.'' then resolve_segs dir ss
      else if s = ''..'' then (case dir of [] \<Rightarrow> None | d # dir' \<Rightarrow> resolve_segs dir' ss)
      else resolve_segs (s # dir) ss)"

definition module_path :: "string \<Rightarrow> string list option" where
  "module_path name = resolve_segs [''src''] (split_path [] (''./frameworks/'' @ name @ ''.ts''))"

text \<open>
  The modules the import can load and what their default export is: the two adapter
  classes, and two modules without a default export (src/frameworks/interface.ts
  exports only the interface, src/mod.ts only the class \<^verbatim>\<open>Snelm\<close>). A path to no file
  of the repository makes the import reject, which the specification calls
  \<open>UnknownFramework\<close>. The modules of src/deps (whose default export is a directive
  function) and of src/tests (which start a server when loaded) are not modelled;
  \<open>plain_name\<close> names the names that reach neither, and for which the model is exact.
\<close>

definition module_default :: "string \<Rightarrow> string list \<Rightarrow> framework option result" where
  "module_default name p =
     (if p = [''src'', ''frameworks'', ''oak.ts''] then Inr (Some OakFramework)
      else if p = [''src'', ''frameworks'', ''pogo.ts''] then Inr (Some PogoFramework)
      else if p = [''src'', ''frameworks'', ''interface.ts''] \<or> p = [''src'', ''mod.ts''] then Inr None
      else Inl (UnknownFramework name))"

definition resolve_framework :: "string \<Rightarrow> framework option result" where
  "resolve_framework name =
     (case module_path name of None \<Rightarrow> Inl (UnknownFramework name) | Some p \<Rightarrow> module_default name p)"

definition plain_name :: "string \<Rightarrow> bool" where
  "plain_name name = list_all (\<lambda>c. c \<notin> {CHR ''/'', CHR 0x5C, CHR ''?'', CHR ''#'', CHR ''%''}) name"

primrec framework_ctor :: "framework \<Rightarrow> native \<Rightarrow> native \<Rightarrow> req_resp" where
  "framework_ctor OakFramework = OakRequestResponse"
| "framework_ctor PogoFramework = PogoRequestResponse"

primrec framework_rr :: "framework \<Rightarrow> req_resp rr_iface" where
  "framework_rr OakFramework = oak_rr"
| "framework_rr PogoFramework = pogo_rr"

section \<open>Directives and their configuration keys\<close>

datatype directive =
    CrossDomain | Csp | DnsPrefetchControl | DontSniffMimetype | ExpectCt | FeaturePolicy
  | Frameguard | HidePoweredBy | Hsts | IeNoOpen | ReferrerPolicy | XssProtection

primrec directive_key :: "directive \<Rightarrow> string" where
  "directive_key CrossDomain = ''crossDomain''"
| "directive_key Csp = ''csp''"
| "directive_key DnsPrefetchControl = ''dnsPrefetchControl''"
| "directive_key DontSniffMimetype = ''dontSniffMimetype''"
| "directive_key ExpectCt = ''expectCt''"
| "directive_key FeaturePolicy = ''featurePolicy''"
| "directive_key Frameguard = ''frameguard''"
| "directive_key HidePoweredBy = ''hidePoweredBy''"
| "directive_key Hsts = ''hsts''"
| "directive_key IeNoOpen = ''ieNoOpen''"
| "directive_key ReferrerPolicy = ''referrerPolicy''"
| "directive_key XssProtection = ''xssProtection''"

text \<open>The order of the \<^verbatim>\<open>if\<close> statements of \<^verbatim>\<open>snelm()\<close>.\<close>

definition directive_registry :: "directive list" where
  "directive_registry =
     [CrossDomain, Csp, DnsPrefetchControl, DontSniffMimetype, ExpectCt, FeaturePolicy,
      Frameguard, HidePoweredBy, Hsts, IeNoOpen, ReferrerPolicy, XssProtection]"

type_synonym ext_directives = "directive \<Rightarrow> jsval \<Rightarrow> hop list"

text \<open>
  One directive call, as the body of its \<^verbatim>\<open>if\<close>: \<^verbatim>\<open>dontSniffMimetype\<close> and
  \<^verbatim>\<open>ieNoOpen\<close> are called without options, the others with
  \<^verbatim>\<open>this._options.x\<close>.
\<close>

fun apply_directive :: "ext_directives \<Rightarrow> 's rr_iface \<Rightarrow> directive \<Rightarrow> jsval \<Rightarrow> 's \<Rightarrow> 's outcome" where
  "apply_directive ext rr DnsPrefetchControl v s = atomic s (dnsPrefetchControl rr v s)"
| "apply_directive ext rr DontSniffMimetype v s = atomic s (dontSniffMimetype rr s)"
| "apply_directive ext rr HidePoweredBy v s = atomic s (hidePoweredBy rr v s)"
| "apply_directive ext rr IeNoOpen v s = run_hops rr (ext IeNoOpen JUndef) s"
| "apply_directive ext rr d v s = run_hops rr (ext d v) s"

text \<open>
  \<^verbatim>\<open>if (this._options.x !== null) x(requestResponse, this._options.x)\<close> for each
  directive in order: the read throws when \<^verbatim>\<open>_options\<close> is null, only \<^verbatim>\<open>null\<close>
  skips the directive (\<^verbatim>\<open>undefined\<close>, an absent key, runs it), and an exception of
  a directive ends the loop with the mutations made so far.
\<close>

fun run_directives :: "ext_directives \<Rightarrow> 's rr_iface \<Rightarrow> jsval \<Rightarrow> directive list \<Rightarrow> 's \<Rightarrow> 's outcome" where
  "run_directives ext rr opts [] s = Done s"
| "run_directives ext rr opts (d # ds) s =
     (case js_get_prop opts (directive_key d) of
        Inl e \<Rightarrow> Threw e s
      | Inr v \<Rightarrow>
          (if v = JNull then run_directives ext rr opts ds s
           else then_do (apply_directive ext rr d v s) (run_directives ext rr opts ds)))"

section \<open>The orchestrator\<close>

record snelm =
  frameworkName :: string
  snelm_options :: jsval
  fameworkLib :: "framework option"

definition Snelm_new :: "string \<Rightarrow> jsval \<Rightarrow> snelm" where
  "Snelm_new name opts =
     \<lparr>frameworkName = name, snelm_options = (if opts = JUndef then JObj [] else opts),
      fameworkLib = None\<rparr>"

definition snelm_init :: "snelm \<Rightarrow> snelm result" where
  "snelm_init sn = rbind (resolve_framework (frameworkName sn)) (\<lambda>lib. Inr (sn\<lparr>fameworkLib := lib\<rparr>))"

definition snelm_snelm :: "ext_directives \<Rightarrow> snelm \<Rightarrow> native \<Rightarrow> native \<Rightarrow> native outcome" where
  "snelm_snelm ext sn req resp =
     (case fameworkLib sn of
        None \<Rightarrow> Threw NotInitialized resp
      | Some fw \<Rightarrow>
          map_outcome response
            (run_directives ext (framework_rr fw) (snelm_options sn) directive_registry
               (framework_ctor fw req resp)))"

section \<open>The plan: the header operations the pipeline decides\<close>

fun directive_hops :: "ext_directives \<Rightarrow> directive \<Rightarrow> jsval \<Rightarrow> hop list" where
  "directive_hops ext DnsPrefetchControl v = dnsPrefetchControl_hops v"
| "directive_hops ext DontSniffMimetype v = dontSniffMimetype_hops"
| "directive_hops ext HidePoweredBy v = hidePoweredBy_hops v"
| "directive_hops ext IeNoOpen v = ext IeNoOpen JUndef"
| "directive_hops ext d v = ext d v"

definition plan_of :: "ext_directives \<Rightarrow> jsval \<Rightarrow> directive list \<Rightarrow> hop list" where
  "plan_of ext opts ds =
     concat (map (\<lambda>d. directive_hops ext d (prop_of opts (directive_key d)))
               (filter (\<lambda>d. prop_of opts (directive_key d) \<noteq> JNull) ds))"

definition snelm_plan :: "ext_directives \<Rightarrow> jsval \<Rightarrow> hop list result" where
  "snelm_plan ext opts =
     (if opts = JUndef \<or> opts = JNull then Inl InvalidOptions
      else Inr (plan_of ext opts directive_registry))"

declare resolve_framework_def [eval_simps] module_path_def [eval_simps] module_default_def [eval_simps]
  plain_name_def [eval_simps] directive_registry_def [eval_simps]
  Snelm_new_def [eval_simps] snelm_init_def [eval_simps] snelm_snelm_def [eval_simps]
  plan_of_def [eval_simps] snelm_plan_def [eval_simps]

text \<open>The nine directives outside src/ replaced by ones that do nothing, for the witnesses.\<close>

definition no_ext :: ext_directives where
  "no_ext d v = []"

declare no_ext_def [eval_simps]

section \<open>The pipeline runs its plan\<close>

text \<open>The nine directives outside src/ never name header \<open>k\<close> (in any letter case).\<close>

definition ext_avoids :: "ext_directives \<Rightarrow> header_name \<Rightarrow> bool" where
  "ext_avoids ext k = (\<forall>d v. last_on k (ext d v) = None)"


lemma apply_directive_hops:
  "apply_directive ext rr d v s = run_hops rr (directive_hops ext d v) s"
  by (cases d)
     (simp_all add: dnsPrefetchControl_run_hops dontSniffMimetype_run_hops hidePoweredBy_run_hops)

lemma plan_of_Nil [simp]: "plan_of ext opts [] = []"
  by (simp add: plan_of_def)

lemma plan_of_Cons:
  "plan_of ext opts (d # ds) =
     (if prop_of opts (directive_key d) = JNull then plan_of ext opts ds
      else directive_hops ext d (prop_of opts (directive_key d)) @ plan_of ext opts ds)"
  by (simp add: plan_of_def)

lemma run_directives_plan:
  assumes "opts \<noteq> JUndef" and "opts \<noteq> JNull"
  shows "run_directives ext rr opts ds s = run_hops rr (plan_of ext opts ds) s"
proof (induction ds arbitrary: s)
  case Nil
  then show ?case by (simp add: plan_of_def)
next
  case (Cons d ds)
  have IH: "run_directives ext rr opts ds = run_hops rr (plan_of ext opts ds)"
    by (rule HOL.ext) (rule Cons.IH)
  show ?case
    using assms by (simp add: IH plan_of_Cons run_hops_append apply_directive_hops)
qed

lemma run_directives_nullish:
  "opts = JUndef \<or> opts = JNull \<Longrightarrow> run_directives ext rr opts (d # ds) s = Threw InvalidOptions s"
  by auto

lemma framework_ctor_fields [simp]:
  "response (framework_ctor fw req resp) = resp"
  "request (framework_ctor fw req resp) = req"
  by (cases fw; simp add: OakRequestResponse_def PogoRequestResponse_def)+

lemma run_directives_registry:
  "run_directives ext rr opts directive_registry s =
     (case snelm_plan ext opts of Inl e \<Rightarrow> Threw e s | Inr hs \<Rightarrow> run_hops rr hs s)"
proof (cases "opts = JUndef \<or> opts = JNull")
  case True
  then show ?thesis
    unfolding directive_registry_def snelm_plan_def by (simp only: run_directives_nullish) simp
next
  case False
  then show ?thesis by (simp add: snelm_plan_def run_directives_plan)
qed

lemma snelm_snelm_initialized:
  "fameworkLib sn = Some fw \<Longrightarrow>
   snelm_snelm ext sn req resp =
     (case snelm_plan ext (snelm_options sn) of
        Inl e \<Rightarrow> Threw e resp
      | Inr hs \<Rightarrow> map_outcome response (run_hops (framework_rr fw) hs (framework_ctor fw req resp)))"
  by (simp add: snelm_snelm_def run_directives_registry split: sum.splits)

lemma plan_of_skip_null:
  "prop_of opts (directive_key d) = JNull \<Longrightarrow> plan_of ext opts ds = plan_of ext opts (removeAll d ds)"
  by (induction ds) (auto simp: plan_of_Cons)

lemma split_path_plain:
  "list_all (\<lambda>c. c \<noteq> CHR ''/'' \<and> c \<noteq> CHR 0x5C) cs \<Longrightarrow> split_path seg cs = [rev seg @ cs]"
  by (induction cs arbitrary: seg) auto

lemma module_path_plain:
  assumes "plain_name name"
  shows "module_path name = Some [''src'', ''frameworks'', name @ ''.ts'']"
proof -
  have "list_all (\<lambda>c. c \<noteq> CHR ''/'' \<and> c \<noteq> CHR 0x5C) (name @ ''.ts'')"
    using assms by (simp add: plain_name_def list_all_iff)
  then have "split_path [] (''./frameworks/'' @ name @ ''.ts'') = [''.'', ''frameworks'', name @ ''.ts'']"
    by (simp add: split_path_plain)
  moreover have "name @ ''.ts'' \<noteq> []" "name @ ''.ts'' \<noteq> ''.''" "name @ ''.ts'' \<noteq> ''..''"
    by (cases name rule: rev_cases; simp)+
  ultimately show ?thesis by (simp add: module_path_def)
qed

lemma ts_suffix_eq: "name @ ''.ts'' = s @ ''.ts'' \<longleftrightarrow> name = s"
  by simp

text \<open>On plain names the import loads src/frameworks/<name>.ts, which exists for
  \<^verbatim>\<open>oak\<close>, \<^verbatim>\<open>pogo\<close> and \<^verbatim>\<open>interface\<close> only.\<close>

lemma resolve_framework_plain:
  assumes "plain_name name"
  shows "resolve_framework name =
           (if name = ''oak'' then Inr (Some OakFramework)
            else if name = ''pogo'' then Inr (Some PogoFramework)
            else if name = ''interface'' then Inr None
            else Inl (UnknownFramework name))"
proof -
  have oak: "''oak.ts'' = ''oak'' @ ''.ts''" and pogo: "''pogo.ts'' = ''pogo'' @ ''.ts''"
    and intf: "''interface.ts'' = ''interface'' @ ''.ts''" by simp_all
  show ?thesis
    using module_path_plain [OF assms]
    by (simp add: resolve_framework_def module_default_def oak pogo intf del: append.simps append_Cons)
qed

lemma resolve_framework_names:
  "resolve_framework ''oak'' = Inr (Some OakFramework)"
  "resolve_framework ''pogo'' = Inr (Some PogoFramework)"
  "resolve_framework ''interface'' = Inr None"
  by (simp_all add: resolve_framework_plain plain_name_def)

text \<open>Names with path segments reach the same modules as the plain names do.\<close>

lemma resolve_framework_paths:
  "resolve_framework ''./oak'' = Inr (Some OakFramework)"
  "resolve_framework ''../frameworks/pogo'' = Inr (Some PogoFramework)"
  "resolve_framework ''../mod'' = Inr None"
  "resolve_framework ''../../oak'' = Inl (UnknownFramework ''../../oak'')"
  by (simp_all add: resolve_framework_def module_path_def module_default_def)

lemma resolve_framework_Inl:
  "resolve_framework name = Inl e \<Longrightarrow> e = UnknownFramework name"
  by (auto simp: resolve_framework_def module_default_def split: option.splits if_splits)

text \<open>C1. The pipeline refines its plan: once initialized, \<^verbatim>\<open>snelm(request, response)\<close>
  performs on the selected adapter exactly the list of header operations
  \<open>snelm_plan ext options\<close>, in order, and returns the wrapped response (mutated in
  place, also when an operation throws). The list depends only on the configuration
  and the directives, not on the framework or the native pair: two invocations with the
  same configuration issue the same header calls in the same order.\<close>

theorem snelm_runs_plan:
  assumes "fameworkLib sn = Some fw" and "snelm_plan ext (snelm_options sn) = Inr hs"
  shows "snelm_snelm ext sn req resp =
           map_outcome response (run_hops (framework_rr fw) hs (framework_ctor fw req resp))"
  using assms by (simp add: snelm_snelm_initialized)

theorem snelm_runs_plan_witness:
  "fameworkLib (Snelm_new ''oak'' JUndef\<lparr>fameworkLib := Some OakFramework\<rparr>) = Some OakFramework \<and>
   snelm_plan no_ext (snelm_options (Snelm_new ''oak'' JUndef\<lparr>fameworkLib := Some OakFramework\<rparr>)) =
     Inr [SetHeader ''X-DNS-Prefetch-Control'' ''off'', SetHeader ''X-Content-Type-Options'' ''nosniff'',
          RemoveHeader ''X-Powered-By''] \<and>
   snelm_snelm no_ext (Snelm_new ''oak'' JUndef\<lparr>fameworkLib := Some OakFramework\<rparr>) empty_request express_response =
     map_outcome response
       (run_hops oak_rr [SetHeader ''X-DNS-Prefetch-Control'' ''off'', SetHeader ''X-Content-Type-Options'' ''nosniff'',
          RemoveHeader ''X-Powered-By''] (OakRequestResponse empty_request express_response))"
proof -
  have lib: "fameworkLib (Snelm_new ''oak'' JUndef\<lparr>fameworkLib := Some OakFramework\<rparr>) = Some OakFramework"
    by simp
  have plan: "snelm_plan no_ext (snelm_options (Snelm_new ''oak'' JUndef\<lparr>fameworkLib := Some OakFramework\<rparr>)) =
     Inr [SetHeader ''X-DNS-Prefetch-Control'' ''off'', SetHeader ''X-Content-Type-Options'' ''nosniff'',
          RemoveHeader ''X-Powered-By'']"
    by (simp add: eval_simps)
  show ?thesis using snelm_runs_plan [OF lib plan] lib plan by simp
qed

text \<open>C4. The disabled sentinel: a directive whose configuration entry is \<^verbatim>\<open>null\<close>
  has no effect on the invocation. Running the directive calls of \<^verbatim>\<open>snelm()\<close> gives the
  same outcome as running them with that directive left out of the registry.\<close>

theorem disabled_directive_skipped:
  assumes "prop_of opts (directive_key d) = JNull"
  shows "run_directives ext rr opts directive_registry s =
           run_directives ext rr opts (removeAll d directive_registry) s"
proof (cases "opts = JUndef \<or> opts = JNull")
  case True
  have "removeAll d directive_registry \<noteq> []" by (cases d) (simp_all add: directive_registry_def)
  then obtain d' ds' where "removeAll d directive_registry = d' # ds'" by (cases "removeAll d directive_registry") auto
  with True show ?thesis unfolding directive_registry_def by (simp only: run_directives_nullish)
next
  case False
  then show ?thesis using plan_of_skip_null [OF assms] by (simp add: run_directives_plan)
qed

theorem disabled_directive_skipped_witness:
  "prop_of (JObj [(''hidePoweredBy'', JNull)]) (directive_key HidePoweredBy) = JNull \<and>
   run_directives no_ext oak_rr (JObj [(''hidePoweredBy'', JNull)]) directive_registry
     (OakRequestResponse empty_request express_response) =
   run_directives no_ext oak_rr (JObj [(''hidePoweredBy'', JNull)]) (removeAll HidePoweredBy directive_registry)
     (OakRequestResponse empty_request express_response)"
proof -
  have null: "prop_of (JObj [(''hidePoweredBy'', JNull)]) (directive_key HidePoweredBy) = JNull" by simp
  show ?thesis using disabled_directive_skipped [OF null] null by simp
qed

text \<open>C5. Invocation before initialization throws \<open>NotInitialized\<close> (the TypeError of
  \<^verbatim>\<open>new undefined(...)\<close>) and performs no mutation: the response comes back as it
  was given.\<close>

theorem snelm_before_init:
  "snelm_snelm ext (Snelm_new name opts) req resp = Threw NotInitialized resp"
  by (simp add: snelm_snelm_def Snelm_new_def)



text \<open>C7. \<^verbatim>\<open>init()\<close> is idempotent: calling it again on the initialized object yields
  the same object.\<close>

theorem init_idempotent:
  assumes "snelm_init sn = Inr sn'"
  shows "snelm_init sn' = Inr sn'"
  using assms by (auto simp: snelm_init_def rbind_eq_Inr)

theorem init_idempotent_witness:
  "snelm_init (Snelm_new ''oak'' JUndef) = Inr (Snelm_new ''oak'' JUndef\<lparr>fameworkLib := Some OakFramework\<rparr>) \<and>
   snelm_init (Snelm_new ''oak'' JUndef\<lparr>fameworkLib := Some OakFramework\<rparr>) =
     Inr (Snelm_new ''oak'' JUndef\<lparr>fameworkLib := Some OakFramework\<rparr>)"
proof -
  have first: "snelm_init (Snelm_new ''oak'' JUndef) = Inr (Snelm_new ''oak'' JUndef\<lparr>fameworkLib := Some OakFramework\<rparr>)"
    by (simp add: eval_simps)
  show ?thesis using init_idempotent [OF first] first by simp
qed

text \<open>C16. A configuration of \<^verbatim>\<open>null\<close> (the constructor's default \<^verbatim>\<open>{}\<close> replaces
  only \<^verbatim>\<open>undefined\<close>) makes every invocation throw at the first property read, before
  any header is touched.\<close>

theorem null_options_throw:
  assumes "fameworkLib sn = Some fw" and "snelm_options sn = JNull"
  shows "snelm_snelm ext sn req resp = Threw InvalidOptions resp"
  using assms by (simp add: snelm_snelm_initialized snelm_plan_def)

theorem null_options_throw_witness:
  "fameworkLib (Snelm_new ''pogo'' JNull\<lparr>fameworkLib := Some PogoFramework\<rparr>) = Some PogoFramework \<and>
   snelm_options (Snelm_new ''pogo'' JNull\<lparr>fameworkLib := Some PogoFramework\<rparr>) = JNull \<and>
   snelm_snelm no_ext (Snelm_new ''pogo'' JNull\<lparr>fameworkLib := Some PogoFramework\<rparr>) empty_request plain_response =
     Threw InvalidOptions plain_response"
proof -
  have lib: "fameworkLib (Snelm_new ''pogo'' JNull\<lparr>fameworkLib := Some PogoFramework\<rparr>) = Some PogoFramework"
    by simp
  have opts: "snelm_options (Snelm_new ''pogo'' JNull\<lparr>fameworkLib := Some PogoFramework\<rparr>) = JNull"
    by (simp add: Snelm_new_def)
  show ?thesis using null_options_throw [OF lib opts] lib opts by simp
qed

lemma last_where_plan_of:
  assumes "distinct ds" and "d \<in> set ds"
    and others: "\<forall>d'\<in>set ds. d' \<noteq> d \<longrightarrow> last_where P (directive_hops ext d' (prop_of opts (directive_key d'))) = None"
  shows "last_where P (plan_of ext opts ds) =
           (if prop_of opts (directive_key d) = JNull then None
            else last_where P (directive_hops ext d (prop_of opts (directive_key d))))"
  using assms
proof (induction ds)
  case Nil
  then show ?case by simp
next
  case (Cons d0 ds)
  show ?case
  proof (cases "d0 = d")
    case True
    with Cons.prems have "d \<notin> set ds" by simp
    with Cons.prems have "last_where P (plan_of ext opts ds) = None"
      by (auto simp: plan_of_def last_where_None)
    with True show ?thesis by (simp add: plan_of_Cons last_where_append)
  next
    case False
    with Cons.prems have IH: "last_where P (plan_of ext opts ds) =
           (if prop_of opts (directive_key d) = JNull then None
            else last_where P (directive_hops ext d (prop_of opts (directive_key d))))"
      by (intro Cons.IH) auto
    from False Cons.prems have "last_where P (directive_hops ext d0 (prop_of opts (directive_key d0))) = None"
      by simp
    with IH show ?thesis by (auto simp: plan_of_Cons last_where_append split: option.splits)
  qed
qed


lemma directive_registry_distinct: "distinct directive_registry"
  by (simp add: directive_registry_def)


lemma framework_run_hop_request:
  "run_hop (framework_rr fw) h rr = Inr rr' \<Longrightarrow> request rr' = request rr"
  by (cases fw) (auto dest: oak_run_hop_entries pogo_run_hop_request)

text \<open>C22. The directives never write the request: on either adapter, any run of
  header operations, also one that stops with an exception, leaves the wrapped native
  request as it was (specification section 4.3).\<close>

theorem header_ops_keep_request:
  "request (out_state (run_hops (framework_rr fw) hs rr)) = request rr"
  by (rule run_hops_keeps) (rule framework_run_hop_request)


lemma plan_of_mem:
  "h \<in> set (plan_of ext opts ds) \<Longrightarrow>
   \<exists>d\<in>set ds. h \<in> set (directive_hops ext d (prop_of opts (directive_key d)))"
  by (auto simp: plan_of_def)

lemma ext_avoids_hops:
  "ext_avoids ext k \<Longrightarrow> h \<in> set (ext d v) \<Longrightarrow> lower (hop_key h) \<noteq> lower k"
  by (auto simp: ext_avoids_def last_where_None)

end
