(* ===== verification/Lifecycle.thy ===== *)
theory Lifecycle
  imports Snelm
begin

text \<open>
  The life cycle of one \<^verbatim>\<open>Snelm\<close> object under the asynchronous host (specification
  sections 4.4 and 5). \<^verbatim>\<open>init()\<close> has one suspension point, the dynamic
  \<^verbatim>\<open>await import(...)\<close>: a call starts it (\<open>InitCall\<close>, one more pending import), and
  later the import settles (\<open>InitSettle\<close>), either resolving, when the two assignments
  of \<^verbatim>\<open>_fameworkLib\<close> run without interruption (\<open>snelm_init\<close>), or rejecting, when
  nothing is assigned. \<^verbatim>\<open>snelm()\<close> is synchronous and may run between any two of these
  steps (\<open>Invoke\<close>, labelled with its native pair and its outcome); it reads the object
  and writes none of its fields. The scheduler's choice of the next event is the
  nondeterminism of the inductive step relation \<open>lc_step\<close>; \<open>lc_run\<close> is a run of
  steps with its list of events.
\<close>

record lifecycle =
  obj :: snelm
  pending :: nat

datatype lc_event = InitCall | InitSettle | Invoke native native "native outcome"

definition lc_start :: "string \<Rightarrow> jsval \<Rightarrow> lifecycle" where
  "lc_start name opts = \<lparr>obj = Snelm_new name opts, pending = 0\<rparr>"

inductive lc_step :: "ext_directives \<Rightarrow> lifecycle \<Rightarrow> lc_event \<Rightarrow> lifecycle \<Rightarrow> bool" for ext where
  init_call: "lc_step ext s InitCall (s\<lparr>pending := Suc (pending s)\<rparr>)"
| init_resolve: "0 < pending s \<Longrightarrow> snelm_init (obj s) = Inr o' \<Longrightarrow>
     lc_step ext s InitSettle (s\<lparr>obj := o', pending := pending s - 1\<rparr>)"
| init_reject: "0 < pending s \<Longrightarrow> snelm_init (obj s) = Inl e \<Longrightarrow>
     lc_step ext s InitSettle (s\<lparr>pending := pending s - 1\<rparr>)"
| invoke: "lc_step ext s (Invoke req resp (snelm_snelm ext (obj s) req resp)) s"

inductive lc_run :: "ext_directives \<Rightarrow> lifecycle \<Rightarrow> lc_event list \<Rightarrow> lifecycle \<Rightarrow> bool" for ext where
  run_nil: "lc_run ext s [] s"
| run_cons: "lc_step ext s e t \<Longrightarrow> lc_run ext t es u \<Longrightarrow> lc_run ext s (e # es) u"

text \<open>Both relations are executable with the state before and the event(s) as input:
  the successor states of a state, and the states a list of events can reach.\<close>

code_pred (modes: i \<Rightarrow> i \<Rightarrow> i \<Rightarrow> o \<Rightarrow> bool) lc_step .
code_pred (modes: i \<Rightarrow> i \<Rightarrow> i \<Rightarrow> o \<Rightarrow> bool) lc_run .

text \<open>
  The invariant of every reachable state: the name and the configuration are those of
  the constructor, and the adapter, once there, is the one the name resolves to.
\<close>

definition lc_inv :: "string \<Rightarrow> jsval \<Rightarrow> lifecycle \<Rightarrow> bool" where
  "lc_inv name opts s =
     (frameworkName (obj s) = name \<and> snelm_options (obj s) = snelm_options (Snelm_new name opts) \<and>
      (fameworkLib (obj s) = None \<or> resolve_framework name = Inr (fameworkLib (obj s))))"

inductive_cases lc_step_InitCall: "lc_step ext s InitCall t"
inductive_cases lc_step_InitSettle: "lc_step ext s InitSettle t"
inductive_cases lc_step_Invoke: "lc_step ext s (Invoke req resp r) t"
inductive_cases lc_run_ConsE: "lc_run ext s (e # es) u"

lemma lc_inv_start: "lc_inv name opts (lc_start name opts)"
  by (simp add: lc_inv_def lc_start_def Snelm_new_def)

lemma snelm_init_fields:
  "snelm_init sn = Inr sn' \<Longrightarrow>
   frameworkName sn' = frameworkName sn \<and> snelm_options sn' = snelm_options sn \<and>
   resolve_framework (frameworkName sn) = Inr (fameworkLib sn')"
  by (auto simp: snelm_init_def rbind_eq_Inr)

lemma lc_step_inv: "lc_step ext s e t \<Longrightarrow> lc_inv name opts s \<Longrightarrow> lc_inv name opts t"
  by (induction rule: lc_step.induct) (auto simp: lc_inv_def dest!: snelm_init_fields)

lemma lc_run_inv: "lc_run ext s es t \<Longrightarrow> lc_inv name opts s \<Longrightarrow> lc_inv name opts t"
  by (induction rule: lc_run.induct) (auto intro: lc_step_inv)

lemma lc_run_no_settle: "lc_run ext s es t \<Longrightarrow> InitSettle \<notin> set es \<Longrightarrow> obj t = obj s"
  by (induction rule: lc_run.induct) (auto elim: lc_step.cases)

lemma lc_reachable_inv: "lc_run ext (lc_start name opts) es s \<Longrightarrow> lc_inv name opts s"
  using lc_run_inv lc_inv_start by blast

lemma lc_run_nil_eq: "s = t \<Longrightarrow> lc_run ext s [] t"
  by (simp add: run_nil)

lemma lc_run_append:
  "lc_run ext s (xs @ ys) u \<Longrightarrow> \<exists>t. lc_run ext s xs t \<and> lc_run ext t ys u"
proof (induction xs arbitrary: s)
  case Nil
  then show ?case by (auto intro: run_nil)
next
  case (Cons e xs)
  from Cons.prems obtain t where "lc_step ext s e t" and "lc_run ext t (xs @ ys) u"
    by (auto elim: lc_run_ConsE)
  with Cons.IH show ?case by (blast intro: run_cons)
qed

lemma lc_settle_reachable:
  assumes "lc_run ext (lc_start name opts) es s" and "resolve_framework name = Inr lib"
    and "lc_step ext s InitSettle t"
  shows "obj t = Snelm_new name opts\<lparr>fameworkLib := lib\<rparr>"
proof -
  from lc_reachable_inv [OF assms(1)]
  have "frameworkName (obj s) = name" and "snelm_options (obj s) = snelm_options (Snelm_new name opts)"
    by (simp_all add: lc_inv_def)
  then have init: "snelm_init (obj s) = Inr (Snelm_new name opts\<lparr>fameworkLib := lib\<rparr>)"
    using assms(2) by (simp add: snelm_init_def Snelm_new_def)
  from assms(3) show ?thesis
    by cases (use init in simp_all)
qed

text \<open>From a state whose object \<^verbatim>\<open>init()\<close> maps to itself, no event changes the object,
  and every invocation of the run is \<^verbatim>\<open>snelm()\<close> of that object.\<close>

lemma lc_run_fixed:
  "lc_run ext s es t \<Longrightarrow> snelm_init (obj s) = Inr (obj s) \<Longrightarrow>
   obj t = obj s \<and> (\<forall>req resp r. Invoke req resp r \<in> set es \<longrightarrow> r = snelm_snelm ext (obj s) req resp)"
proof (induction rule: lc_run.induct)
  case (run_nil s)
  then show ?case by simp
next
  case (run_cons s e t es u)
  from run_cons.hyps(1) run_cons.prems have "obj t = obj s"
    by cases auto
  with run_cons.IH run_cons.prems have "obj u = obj s \<and>
      (\<forall>req resp r. Invoke req resp r \<in> set es \<longrightarrow> r = snelm_snelm ext (obj s) req resp)"
    by simp
  moreover have "e = Invoke req resp r \<Longrightarrow> r = snelm_snelm ext (obj s) req resp" for req resp r
    using run_cons.hyps(1) by (auto elim: lc_step_Invoke)
  ultimately show ?case by auto
qed

text \<open>After the first import of a known framework has settled, whatever came before and
  after, every invocation is \<^verbatim>\<open>snelm()\<close> of the initialized object.\<close>

lemma lc_invoke_after_settle:
  assumes run: "lc_run ext (lc_start name opts) (es1 @ InitSettle # es2) s"
    and res: "resolve_framework name = Inr lib" and inv: "Invoke req resp r \<in> set es2"
  shows "r = snelm_snelm ext (Snelm_new name opts\<lparr>fameworkLib := lib\<rparr>) req resp"
proof -
  obtain t1 where r1: "lc_run ext (lc_start name opts) es1 t1" and r2: "lc_run ext t1 (InitSettle # es2) s"
    using lc_run_append [OF run] by blast
  from r2 obtain t2 where st: "lc_step ext t1 InitSettle t2" and r3: "lc_run ext t2 es2 s"
    by (auto elim: lc_run_ConsE)
  have o2: "obj t2 = Snelm_new name opts\<lparr>fameworkLib := lib\<rparr>"
    by (rule lc_settle_reachable [OF r1 res st])
  have "snelm_init (obj t2) = Inr (obj t2)"
    using o2 res by (simp add: snelm_init_def Snelm_new_def)
  then show ?thesis
    using lc_run_fixed [OF r3] inv o2 by auto
qed

text \<open>C17. In every reachable state, an initialized object uses the adapter that the name
  given to the constructor resolves to, with the configuration given to the constructor:
  neither is changed by any interleaving of init calls, import settlements and
  invocations.\<close>

theorem lc_adapter_is_named:
  assumes "lc_run ext (lc_start name opts) es s" and "fameworkLib (obj s) = Some fw"
  shows "resolve_framework name = Inr (Some fw) \<and> snelm_options (obj s) = snelm_options (Snelm_new name opts)"
  using lc_reachable_inv [OF assms(1)] assms(2) by (simp add: lc_inv_def)

theorem lc_adapter_is_named_witness:
  "lc_run no_ext (lc_start ''oak'' JUndef) [InitCall, InitSettle]
     \<lparr>obj = Snelm_new ''oak'' JUndef\<lparr>fameworkLib := Some OakFramework\<rparr>, pending = 0\<rparr> \<and>
   resolve_framework ''oak'' = Inr (Some OakFramework) \<and>
   snelm_options (Snelm_new ''oak'' JUndef\<lparr>fameworkLib := Some OakFramework\<rparr>) = JObj []"
proof -
  have run: "lc_run no_ext (lc_start ''oak'' JUndef) [InitCall, InitSettle]
     \<lparr>obj = Snelm_new ''oak'' JUndef\<lparr>fameworkLib := Some OakFramework\<rparr>, pending = 0\<rparr>"
    apply (rule run_cons [OF init_call])
    apply (rule run_cons [OF init_resolve])
      apply (simp add: lc_start_def)
     apply (simp add: lc_start_def eval_simps)
    apply (rule lc_run_nil_eq)
    apply (simp add: lc_start_def eval_simps)
    done
  have lib: "fameworkLib (obj \<lparr>obj = Snelm_new ''oak'' JUndef\<lparr>fameworkLib := Some OakFramework\<rparr>, pending = 0\<rparr>) =
     Some OakFramework" by simp
  show ?thesis using lc_adapter_is_named [OF run lib] run by (simp add: Snelm_new_def)
qed



text \<open>C19. Once initialized, an object stays initialized with the same adapter: no later
  step, a second \<^verbatim>\<open>init()\<close> settling included, resets or changes it.\<close>

theorem lc_initialized_stable:
  assumes "lc_run ext (lc_start name opts) es s" and "fameworkLib (obj s) = Some fw"
    and "lc_step ext s e t"
  shows "fameworkLib (obj t) = Some fw"
proof -
  from lc_reachable_inv [OF assms(1)] assms(2)
  have named: "frameworkName (obj s) = name" and res: "resolve_framework name = Inr (Some fw)"
    by (simp_all add: lc_inv_def)
  from assms(3) show ?thesis
  proof cases
    case (init_resolve o')
    then have "resolve_framework (frameworkName (obj s)) = Inr (fameworkLib o')"
      by (simp add: snelm_init_fields)
    with named res init_resolve show ?thesis by simp
  qed (use assms(2) in simp_all)
qed

theorem lc_initialized_stable_witness:
  "lc_run no_ext (lc_start ''pogo'' JUndef) [InitCall, InitCall, InitSettle]
     \<lparr>obj = Snelm_new ''pogo'' JUndef\<lparr>fameworkLib := Some PogoFramework\<rparr>, pending = 1\<rparr> \<and>
   lc_step no_ext \<lparr>obj = Snelm_new ''pogo'' JUndef\<lparr>fameworkLib := Some PogoFramework\<rparr>, pending = 1\<rparr> InitSettle
     \<lparr>obj = Snelm_new ''pogo'' JUndef\<lparr>fameworkLib := Some PogoFramework\<rparr>, pending = 0\<rparr> \<and>
   fameworkLib (obj \<lparr>obj = Snelm_new ''pogo'' JUndef\<lparr>fameworkLib := Some PogoFramework\<rparr>, pending = 0\<rparr>) = Some PogoFramework"
proof -
  have run: "lc_run no_ext (lc_start ''pogo'' JUndef) [InitCall, InitCall, InitSettle]
     \<lparr>obj = Snelm_new ''pogo'' JUndef\<lparr>fameworkLib := Some PogoFramework\<rparr>, pending = 1\<rparr>"
    apply (rule run_cons [OF init_call])
    apply (rule run_cons [OF init_call])
    apply (rule run_cons [OF init_resolve])
      apply (simp add: lc_start_def)
     apply (simp add: lc_start_def eval_simps)
    apply (rule lc_run_nil_eq)
    apply (simp add: lc_start_def eval_simps)
    done
  have step: "lc_step no_ext \<lparr>obj = Snelm_new ''pogo'' JUndef\<lparr>fameworkLib := Some PogoFramework\<rparr>, pending = 1\<rparr> InitSettle
     \<lparr>obj = Snelm_new ''pogo'' JUndef\<lparr>fameworkLib := Some PogoFramework\<rparr>, pending = 0\<rparr>"
    using init_resolve [of "\<lparr>obj = Snelm_new ''pogo'' JUndef\<lparr>fameworkLib := Some PogoFramework\<rparr>, pending = 1\<rparr>"
                           "Snelm_new ''pogo'' JUndef\<lparr>fameworkLib := Some PogoFramework\<rparr>" no_ext]
    by (simp add: eval_simps)
  have lib: "fameworkLib (obj \<lparr>obj = Snelm_new ''pogo'' JUndef\<lparr>fameworkLib := Some PogoFramework\<rparr>, pending = 1\<rparr>) =
     Some PogoFramework" by simp
  show ?thesis using lc_initialized_stable [OF run lib step] run step by simp
qed

text \<open>C20. Ordering of init and invoke: in a run in which no import has settled yet
  (any number of \<^verbatim>\<open>init()\<close> calls still awaiting \<^verbatim>\<open>import\<close>), every invocation
  throws \<open>NotInitialized\<close> and mutates nothing; there is no undefined behaviour.\<close>

theorem lc_invoke_before_settle:
  assumes "lc_run ext (lc_start name opts) es s" and "InitSettle \<notin> set es"
  shows "snelm_snelm ext (obj s) req resp = Threw NotInitialized resp"
proof -
  from lc_run_no_settle [OF assms] have "obj s = Snelm_new name opts" by (simp add: lc_start_def)
  then show ?thesis by (simp add: snelm_snelm_def Snelm_new_def)
qed

theorem lc_invoke_before_settle_witness:
  "lc_run no_ext (lc_start ''oak'' JUndef) [InitCall] ((lc_start ''oak'' JUndef)\<lparr>pending := 1\<rparr>) \<and>
   InitSettle \<notin> set [InitCall] \<and>
   snelm_snelm no_ext (obj ((lc_start ''oak'' JUndef)\<lparr>pending := 1\<rparr>)) empty_request express_response =
     Threw NotInitialized express_response"
proof -
  have run: "lc_run no_ext (lc_start ''oak'' JUndef) [InitCall] ((lc_start ''oak'' JUndef)\<lparr>pending := 1\<rparr>)"
    by (rule run_cons [OF init_call]) (simp add: lc_start_def lc_run_nil_eq)
  have no: "InitSettle \<notin> set [InitCall]" by simp
  show ?thesis using lc_invoke_before_settle [OF run no] run no by simp
qed




end
