(* ===== verification/OakPipeline.thy ===== *)
theory OakPipeline
  imports Snelm
begin

text \<open>
  The composition of the orchestrator, the three directives of src/deps and the Oak
  adapter: an invocation of \<^verbatim>\<open>snelm()\<close> on an Oak request/response pair, from the
  configuration to the headers of the response it leaves. The invocation completes when
  every header operation of the plan is one the Fetch \<open>Headers\<close> object accepts, and
  each header ends as the last operation on its name left it.
\<close>

definition ext_oak_ok :: "ext_directives \<Rightarrow> bool" where
  "ext_oak_ok ext = (\<forall>d v. list_all oak_hop_ok (ext d v))"


lemma oak_invoke_view:
  assumes lib: "fameworkLib sn = Some OakFramework"
    and plan: "snelm_plan ext (snelm_options sn) = Inr hs"
    and entries: "header_entries resp \<noteq> None" and ok: "list_all oak_hop_ok hs" and k: "valid_name k"
  shows "\<exists>resp'. snelm_snelm ext sn req resp = Done resp' \<and>
           getResponseHeader oak_rr k (OakRequestResponse req resp') =
             (case last_on k hs of
                None \<Rightarrow> getResponseHeader oak_rr k (OakRequestResponse req resp)
              | Some h \<Rightarrow> Inr (oak_hop_value h))"
proof -
  have "header_entries (response (OakRequestResponse req resp)) \<noteq> None"
    using entries by (simp add: OakRequestResponse_def)
  then obtain rr' where run: "run_hops oak_rr hs (OakRequestResponse req resp) = Done rr'"
    and rq: "request rr' = req"
    using oak_run_hops_Done [OF _ ok] by (fastforce simp: OakRequestResponse_def)
  have rr': "OakRequestResponse req (response rr') = rr'"
    using rq by (simp add: OakRequestResponse_def)
  have "snelm_snelm ext sn req resp = Done (response rr')"
    using lib plan run by (simp add: snelm_snelm_initialized)
  moreover have "getResponseHeader oak_rr k rr' =
      (case last_on k hs of
         None \<Rightarrow> getResponseHeader oak_rr k (OakRequestResponse req resp)
       | Some h \<Rightarrow> Inr (oak_hop_value h))"
    using oak_run_hops_view [OF run k] .
  ultimately show ?thesis using rr' by auto
qed


lemma plan_of_oak_ok:
  "(\<forall>d\<in>set ds. prop_of opts (directive_key d) \<noteq> JNull \<longrightarrow>
      list_all oak_hop_ok (directive_hops ext d (prop_of opts (directive_key d)))) \<Longrightarrow>
   list_all oak_hop_ok (plan_of ext opts ds)"
  by (induction ds) (auto simp: plan_of_Cons)


lemma src_directives_oak_ok:
  "list_all oak_hop_ok (dnsPrefetchControl_hops v)"
  "list_all oak_hop_ok dontSniffMimetype_hops"
  "\<not> js_truthy (hidePoweredBy_setTo v) \<Longrightarrow> list_all oak_hop_ok (hidePoweredBy_hops v)"
  "valid_value (normalize_value (js_string (hidePoweredBy_setTo v))) \<Longrightarrow> list_all oak_hop_ok (hidePoweredBy_hops v)"
  by (simp_all add: dnsPrefetchControl_hops_def getHeaderValueFromOptions_def dontSniffMimetype_hops_def
        hidePoweredBy_hops_def Let_def eval_simps)

lemma registry_oak_ok:
  assumes "ext_oak_ok ext" and "valid_value (normalize_value (js_string (hidePoweredBy_setTo (prop_of opts ''hidePoweredBy''))))"
  shows "list_all oak_hop_ok (plan_of ext opts directive_registry)"
proof (rule plan_of_oak_ok)
  have ext: "list_all oak_hop_ok (ext d v)" for d v using assms(1) by (simp add: ext_oak_ok_def)
  show "\<forall>d\<in>set directive_registry. prop_of opts (directive_key d) \<noteq> JNull \<longrightarrow>
          list_all oak_hop_ok (directive_hops ext d (prop_of opts (directive_key d)))"
    using assms(2) by (simp add: directive_registry_def ext src_directives_oak_ok)
qed

lemma registry_last_on_powered_by:
  assumes "ext_avoids ext ''X-Powered-By''"
  shows "last_on ''X-Powered-By'' (plan_of ext opts directive_registry) =
           (if prop_of opts ''hidePoweredBy'' = JNull then None
            else last_on ''X-Powered-By'' (hidePoweredBy_hops (prop_of opts ''hidePoweredBy'')))"
proof -
  have "\<forall>d'\<in>set directive_registry. d' \<noteq> HidePoweredBy \<longrightarrow>
          last_on ''X-Powered-By'' (directive_hops ext d' (prop_of opts (directive_key d'))) = None"
    using assms
    by (simp add: directive_registry_def ext_avoids_def dnsPrefetchControl_hops_def
                  dontSniffMimetype_hops_def getHeaderValueFromOptions_def eval_simps)
  then show ?thesis
    using last_where_plan_of [OF directive_registry_distinct, of HidePoweredBy, where P = "\<lambda>n. lower n = lower ''X-Powered-By''"]
    by (simp add: directive_registry_def)
qed

text \<open>C2. Invoking Snelm on Oak completes and leaves \<^verbatim>\<open>X-Powered-By\<close> as
  hide-powered-by decides: unchanged when the entry is \<^verbatim>\<open>null\<close> (the directive is
  skipped), set to the normalised string of a truthy \<^verbatim>\<open>setTo\<close>, and removed
  otherwise, in particular when the entry is absent. This holds for any configuration
  object and any behaviour of the nine directives outside src/ that leaves this header
  alone and issues only calls the \<open>Headers\<close> object accepts.\<close>

theorem oak_invoke_powered_by:
  assumes lib: "fameworkLib sn = Some OakFramework" and opts: "snelm_options sn = JObj ps"
    and entries: "header_entries resp \<noteq> None"
    and ext_ok: "ext_oak_ok ext" and avoid: "ext_avoids ext ''X-Powered-By''"
    and val: "valid_value (normalize_value (js_string (hidePoweredBy_setTo (prop_of (JObj ps) ''hidePoweredBy''))))"
  shows "\<exists>resp'. snelm_snelm ext sn req resp = Done resp' \<and>
           getResponseHeader oak_rr ''X-Powered-By'' (OakRequestResponse req resp') =
             (if prop_of (JObj ps) ''hidePoweredBy'' = JNull
              then getResponseHeader oak_rr ''X-Powered-By'' (OakRequestResponse req resp)
              else if js_truthy (hidePoweredBy_setTo (prop_of (JObj ps) ''hidePoweredBy''))
              then Inr (Some (normalize_value (js_string (hidePoweredBy_setTo (prop_of (JObj ps) ''hidePoweredBy'')))))
              else Inr None)"
proof -
  let ?hs = "plan_of ext (JObj ps) directive_registry"
  have plan: "snelm_plan ext (snelm_options sn) = Inr ?hs"
    using opts by (simp add: snelm_plan_def)
  have ok: "list_all oak_hop_ok ?hs" using registry_oak_ok [OF ext_ok val] .
  have k: "valid_name ''X-Powered-By''" by (simp add: eval_simps)
  have last: "last_on ''X-Powered-By'' ?hs =
           (if prop_of (JObj ps) ''hidePoweredBy'' = JNull then None
            else last_on ''X-Powered-By'' (hidePoweredBy_hops (prop_of (JObj ps) ''hidePoweredBy'')))"
    using registry_last_on_powered_by [OF avoid] .
  have hide: "last_on ''X-Powered-By'' (hidePoweredBy_hops v) =
      Some (if js_truthy (hidePoweredBy_setTo v) then SetHeader ''X-Powered-By'' (js_string (hidePoweredBy_setTo v))
            else RemoveHeader ''X-Powered-By'')" for v
    by (simp add: hidePoweredBy_hops_def Let_def)
  show ?thesis
    using oak_invoke_view [OF lib plan entries ok k] last hide by (simp split: if_splits)
qed

theorem oak_invoke_powered_by_witness:
  "fameworkLib (Snelm_new ''oak'' (JObj [(''hidePoweredBy'', JObj [(''setTo'', JStr ''PHP 4.2.0'')])])
       \<lparr>fameworkLib := Some OakFramework\<rparr>) = Some OakFramework \<and>
   snelm_options (Snelm_new ''oak'' (JObj [(''hidePoweredBy'', JObj [(''setTo'', JStr ''PHP 4.2.0'')])])
       \<lparr>fameworkLib := Some OakFramework\<rparr>) = JObj [(''hidePoweredBy'', JObj [(''setTo'', JStr ''PHP 4.2.0'')])] \<and>
   header_entries express_response \<noteq> None \<and> ext_oak_ok no_ext \<and> ext_avoids no_ext ''X-Powered-By'' \<and>
   (\<exists>resp'. snelm_snelm no_ext (Snelm_new ''oak'' (JObj [(''hidePoweredBy'', JObj [(''setTo'', JStr ''PHP 4.2.0'')])])
               \<lparr>fameworkLib := Some OakFramework\<rparr>) empty_request express_response = Done resp' \<and>
      getResponseHeader oak_rr ''X-Powered-By'' (OakRequestResponse empty_request resp') = Inr (Some ''PHP 4.2.0''))"
proof -
  let ?o = "JObj [(''hidePoweredBy'', JObj [(''setTo'', JStr ''PHP 4.2.0'')])]"
  have lib: "fameworkLib (Snelm_new ''oak'' ?o\<lparr>fameworkLib := Some OakFramework\<rparr>) = Some OakFramework"
    by simp
  have opts: "snelm_options (Snelm_new ''oak'' ?o\<lparr>fameworkLib := Some OakFramework\<rparr>) = ?o"
    by (simp add: Snelm_new_def)
  have entries: "header_entries express_response \<noteq> None"
    by (simp add: header_entries_def express_response_def)
  have ext: "ext_oak_ok no_ext" and avoid: "ext_avoids no_ext ''X-Powered-By''"
    by (simp_all add: ext_oak_ok_def ext_avoids_def no_ext_def)
  have val: "valid_value (normalize_value (js_string (hidePoweredBy_setTo (prop_of ?o ''hidePoweredBy''))))"
    by (simp add: eval_simps)
  have "normalize_value ''PHP 4.2.0'' = ''PHP 4.2.0''" by (simp add: eval_simps)
  then show ?thesis
    using oak_invoke_powered_by [OF lib opts entries ext avoid val, of empty_request]
          lib opts entries ext avoid
    by (simp add: hidePoweredBy_setTo_def)
qed

lemma registry_last_on_dns:
  assumes "ext_avoids ext ''X-DNS-Prefetch-Control''"
  shows "last_on ''X-DNS-Prefetch-Control'' (plan_of ext opts directive_registry) =
           (if prop_of opts ''dnsPrefetchControl'' = JNull then None
            else Some (SetHeader ''X-DNS-Prefetch-Control'' (getHeaderValueFromOptions (prop_of opts ''dnsPrefetchControl''))))"
proof -
  have nosniff: "last_on ''X-DNS-Prefetch-Control'' dontSniffMimetype_hops = None"
    by (simp add: dontSniffMimetype_hops_def eval_simps)
  have hide: "last_on ''X-DNS-Prefetch-Control'' (hidePoweredBy_hops v) = None" for v
    by (simp add: last_where_None src_hops_keys(3) eval_simps)
  have "\<forall>d'\<in>set directive_registry. d' \<noteq> DnsPrefetchControl \<longrightarrow>
          last_on ''X-DNS-Prefetch-Control'' (directive_hops ext d' (prop_of opts (directive_key d'))) = None"
    using assms nosniff hide by (simp add: directive_registry_def ext_avoids_def)
  then show ?thesis
    using last_where_plan_of [OF directive_registry_distinct, of DnsPrefetchControl, where P = "\<lambda>n. lower n = lower ''X-DNS-Prefetch-Control''"]
    by (simp add: directive_registry_def dnsPrefetchControl_hops_def)
qed

lemma normalize_on_off: "normalize_value (getHeaderValueFromOptions v) = getHeaderValueFromOptions v"
  by (simp add: getHeaderValueFromOptions_def eval_simps)

text \<open>C3. Invoking Snelm on Oak completes and leaves \<^verbatim>\<open>X-DNS-Prefetch-Control\<close> as
  dns-prefetch-control decides: unchanged when the entry is \<^verbatim>\<open>null\<close>, otherwise
  \<^verbatim>\<open>on\<close> or \<^verbatim>\<open>off\<close> as \<open>getHeaderValueFromOptions\<close> computes it (so \<^verbatim>\<open>off\<close>
  when the entry is absent, and \<^verbatim>\<open>on\<close> for \<^verbatim>\<open>{ allow: true }\<close>).\<close>

theorem oak_invoke_dns_prefetch:
  assumes lib: "fameworkLib sn = Some OakFramework" and opts: "snelm_options sn = JObj ps"
    and entries: "header_entries resp \<noteq> None"
    and ext_ok: "ext_oak_ok ext" and avoid: "ext_avoids ext ''X-DNS-Prefetch-Control''"
    and val: "valid_value (normalize_value (js_string (hidePoweredBy_setTo (prop_of (JObj ps) ''hidePoweredBy''))))"
  shows "\<exists>resp'. snelm_snelm ext sn req resp = Done resp' \<and>
           getResponseHeader oak_rr ''X-DNS-Prefetch-Control'' (OakRequestResponse req resp') =
             (if prop_of (JObj ps) ''dnsPrefetchControl'' = JNull
              then getResponseHeader oak_rr ''X-DNS-Prefetch-Control'' (OakRequestResponse req resp)
              else Inr (Some (getHeaderValueFromOptions (prop_of (JObj ps) ''dnsPrefetchControl''))))"
proof -
  let ?hs = "plan_of ext (JObj ps) directive_registry"
  have plan: "snelm_plan ext (snelm_options sn) = Inr ?hs"
    using opts by (simp add: snelm_plan_def)
  have ok: "list_all oak_hop_ok ?hs" using registry_oak_ok [OF ext_ok val] .
  have k: "valid_name ''X-DNS-Prefetch-Control''" by (simp add: eval_simps)
  show ?thesis
    using oak_invoke_view [OF lib plan entries ok k] registry_last_on_dns [OF avoid, of "JObj ps"]
    by (simp add: normalize_on_off split: if_splits)
qed

theorem oak_invoke_dns_prefetch_witness:
  "fameworkLib (Snelm_new ''oak'' (JObj [(''dnsPrefetchControl'', JObj [(''allow'', JBool True)])])
       \<lparr>fameworkLib := Some OakFramework\<rparr>) = Some OakFramework \<and>
   header_entries express_response \<noteq> None \<and> ext_oak_ok no_ext \<and> ext_avoids no_ext ''X-DNS-Prefetch-Control'' \<and>
   (\<exists>resp'. snelm_snelm no_ext (Snelm_new ''oak'' (JObj [(''dnsPrefetchControl'', JObj [(''allow'', JBool True)])])
               \<lparr>fameworkLib := Some OakFramework\<rparr>) empty_request express_response = Done resp' \<and>
      getResponseHeader oak_rr ''X-DNS-Prefetch-Control'' (OakRequestResponse empty_request resp') = Inr (Some ''on'')) \<and>
   (\<exists>resp'. snelm_snelm no_ext (Snelm_new ''oak'' (JObj [])\<lparr>fameworkLib := Some OakFramework\<rparr>)
               empty_request express_response = Done resp' \<and>
      getResponseHeader oak_rr ''X-DNS-Prefetch-Control'' (OakRequestResponse empty_request resp') = Inr (Some ''off''))"
proof -
  let ?o = "JObj [(''dnsPrefetchControl'', JObj [(''allow'', JBool True)])]"
  have lib: "fameworkLib (Snelm_new ''oak'' ?o\<lparr>fameworkLib := Some OakFramework\<rparr>) = Some OakFramework"
    and lib0: "fameworkLib (Snelm_new ''oak'' (JObj [])\<lparr>fameworkLib := Some OakFramework\<rparr>) = Some OakFramework"
    by simp_all
  have opts: "snelm_options (Snelm_new ''oak'' ?o\<lparr>fameworkLib := Some OakFramework\<rparr>) = ?o"
    and opts0: "snelm_options (Snelm_new ''oak'' (JObj [])\<lparr>fameworkLib := Some OakFramework\<rparr>) = JObj []"
    by (simp_all add: Snelm_new_def)
  have entries: "header_entries express_response \<noteq> None"
    by (simp add: header_entries_def express_response_def)
  have ext: "ext_oak_ok no_ext" and avoid: "ext_avoids no_ext ''X-DNS-Prefetch-Control''"
    by (simp_all add: ext_oak_ok_def ext_avoids_def no_ext_def)
  have val: "valid_value (normalize_value (js_string (hidePoweredBy_setTo (prop_of ?o ''hidePoweredBy''))))"
    and val0: "valid_value (normalize_value (js_string (hidePoweredBy_setTo (prop_of (JObj []) ''hidePoweredBy''))))"
    by (simp_all add: eval_simps)
  show ?thesis
    using oak_invoke_dns_prefetch [OF lib opts entries ext avoid val, of empty_request]
          oak_invoke_dns_prefetch [OF lib0 opts0 entries ext avoid val0, of empty_request]
          lib entries ext avoid
    by (simp add: getHeaderValueFromOptions_def)
qed





lemma oak_invoke_run:
  assumes "fameworkLib sn = Some OakFramework" and "snelm_options sn = JObj ps"
  shows "snelm_snelm ext sn req resp =
           map_outcome response (run_hops oak_rr (plan_of ext (JObj ps) directive_registry) (OakRequestResponse req resp))"
  using assms by (simp add: snelm_snelm_initialized snelm_plan_def)

text \<open>C26. On an Oak response with a \<open>Headers\<close> object and an object configuration, an
  invocation completes exactly when every header operation of the plan is one the
  \<open>Headers\<close> object accepts (a valid name, and for a set a value without NUL, CR or LF
  after normalisation); otherwise it throws the \<open>TypeError\<close> of \<open>Headers\<close>
  (\<open>InvalidHeader\<close>), and no other exception.\<close>

theorem oak_invoke_throws_iff:
  assumes lib: "fameworkLib sn = Some OakFramework" and opts: "snelm_options sn = JObj ps"
    and entries: "header_entries resp \<noteq> None"
  shows "(\<exists>resp'. snelm_snelm ext sn req resp = Done resp') = list_all oak_hop_ok (plan_of ext (JObj ps) directive_registry) \<and>
         (\<not> list_all oak_hop_ok (plan_of ext (JObj ps) directive_registry) \<longrightarrow>
            (\<exists>resp'. snelm_snelm ext sn req resp = Threw InvalidHeader resp'))"
proof -
  let ?hs = "plan_of ext (JObj ps) directive_registry"
  have e0: "header_entries (response (OakRequestResponse req resp)) \<noteq> None"
    using entries by (simp add: OakRequestResponse_def)
  have run: "snelm_snelm ext sn req resp = map_outcome response (run_hops oak_rr ?hs (OakRequestResponse req resp))"
    by (rule oak_invoke_run [OF lib opts])
  show ?thesis
  proof (cases "list_all oak_hop_ok ?hs")
    case True
    then show ?thesis using oak_run_hops_Done [OF e0 True] run by auto
  next
    case False
    then show ?thesis using oak_run_hops_Threw [OF e0 False] run by auto
  qed
qed

theorem oak_invoke_throws_iff_witness:
  "fameworkLib (Snelm_new ''oak'' (JObj [(''hidePoweredBy'', JObj [(''setTo'', JStr (''PHP'' @ [CHR 0x0A] @ ''x''))])])
          \<lparr>fameworkLib := Some OakFramework\<rparr>) = Some OakFramework \<and>
   header_entries express_response \<noteq> None \<and>
   \<not> list_all oak_hop_ok (plan_of no_ext (JObj [(''hidePoweredBy'', JObj [(''setTo'', JStr (''PHP'' @ [CHR 0x0A] @ ''x''))])])
          directive_registry) \<and>
   (\<exists>resp'. snelm_snelm no_ext (Snelm_new ''oak'' (JObj [(''hidePoweredBy'', JObj [(''setTo'', JStr (''PHP'' @ [CHR 0x0A] @ ''x''))])])
          \<lparr>fameworkLib := Some OakFramework\<rparr>) empty_request express_response = Threw InvalidHeader resp')"
proof -
  let ?o = "JObj [(''hidePoweredBy'', JObj [(''setTo'', JStr (''PHP'' @ [CHR 0x0A] @ ''x''))])]"
  let ?sn = "Snelm_new ''oak'' ?o\<lparr>fameworkLib := Some OakFramework\<rparr>"
  have lib: "fameworkLib ?sn = Some OakFramework" by simp
  have opts: "snelm_options ?sn = ?o" by (simp add: Snelm_new_def)
  have e: "header_entries express_response \<noteq> None" by (simp add: eval_simps header_entries_def)
  have bad: "\<not> list_all oak_hop_ok (plan_of no_ext ?o directive_registry)"
    by (simp add: eval_simps no_ext_def dnsPrefetchControl_hops_def dontSniffMimetype_hops_def
                  hidePoweredBy_hops_def getHeaderValueFromOptions_def hidePoweredBy_setTo_def)
  show ?thesis using oak_invoke_throws_iff [OF lib opts e, of no_ext empty_request] lib e bad by blast
qed

text \<open>C23. An exception is propagated, not swallowed, and what ran before it stays:
  on Oak, when the first header call of the plan that the \<open>Headers\<close> object rejects
  is \<open>h\<close>, the invocation throws \<open>InvalidHeader\<close> and leaves the response exactly
  as the calls before \<open>h\<close> made it, with neither a rollback nor any later directive.\<close>

theorem oak_invoke_error_keeps_earlier:
  assumes lib: "fameworkLib sn = Some OakFramework" and opts: "snelm_options sn = JObj ps"
    and e: "header_entries resp \<noteq> None"
    and plan: "plan_of ext (JObj ps) directive_registry = xs @ h # ys"
    and ok: "list_all oak_hop_ok xs" and bad: "\<not> oak_hop_ok h"
  shows "\<exists>rr'. run_hops oak_rr xs (OakRequestResponse req resp) = Done rr' \<and>
           snelm_snelm ext sn req resp = Threw InvalidHeader (response rr')"
proof -
  have e0: "header_entries (response (OakRequestResponse req resp)) \<noteq> None"
    using e by (simp add: OakRequestResponse_def)
  obtain rr' where run: "run_hops oak_rr xs (OakRequestResponse req resp) = Done rr'"
    using oak_run_hops_Done [OF e0 ok] by blast
  have "header_entries (response rr') \<noteq> None"
    using oak_run_hops_entries [OF e0, of xs] run by simp
  then have step: "run_hop oak_rr h rr' = Inl InvalidHeader"
    by (rule oak_run_hop_bad [OF _ bad])
  have "snelm_snelm ext sn req resp = Threw InvalidHeader (response rr')"
    using oak_invoke_run [OF lib opts, of ext req resp] plan run step by (simp add: run_hops_append)
  with run show ?thesis by blast
qed

theorem oak_invoke_error_keeps_earlier_witness:
  "fameworkLib (Snelm_new ''oak'' (JObj [(''hidePoweredBy'', JObj [(''setTo'', JStr (''PHP'' @ [CHR 0x0A] @ ''x''))])])
       \<lparr>fameworkLib := Some OakFramework\<rparr>) = Some OakFramework \<and>
   header_entries express_response \<noteq> None \<and>
   plan_of no_ext (JObj [(''hidePoweredBy'', JObj [(''setTo'', JStr (''PHP'' @ [CHR 0x0A] @ ''x''))])]) directive_registry =
     [SetHeader ''X-DNS-Prefetch-Control'' ''off'', SetHeader ''X-Content-Type-Options'' ''nosniff'']
     @ SetHeader ''X-Powered-By'' (''PHP'' @ [CHR 0x0A] @ ''x'') # [] \<and>
   list_all oak_hop_ok [SetHeader ''X-DNS-Prefetch-Control'' ''off'', SetHeader ''X-Content-Type-Options'' ''nosniff''] \<and>
   \<not> oak_hop_ok (SetHeader ''X-Powered-By'' (''PHP'' @ [CHR 0x0A] @ ''x'')) \<and>
   (\<exists>rr'. run_hops oak_rr [SetHeader ''X-DNS-Prefetch-Control'' ''off'', SetHeader ''X-Content-Type-Options'' ''nosniff'']
             (OakRequestResponse empty_request express_response) = Done rr' \<and>
      snelm_snelm no_ext (Snelm_new ''oak'' (JObj [(''hidePoweredBy'', JObj [(''setTo'', JStr (''PHP'' @ [CHR 0x0A] @ ''x''))])])
         \<lparr>fameworkLib := Some OakFramework\<rparr>) empty_request express_response = Threw InvalidHeader (response rr'))"
proof -
  let ?o = "JObj [(''hidePoweredBy'', JObj [(''setTo'', JStr (''PHP'' @ [CHR 0x0A] @ ''x''))])]"
  let ?sn = "Snelm_new ''oak'' ?o\<lparr>fameworkLib := Some OakFramework\<rparr>"
  let ?xs = "[SetHeader ''X-DNS-Prefetch-Control'' ''off'', SetHeader ''X-Content-Type-Options'' ''nosniff'']"
  let ?h = "SetHeader ''X-Powered-By'' (''PHP'' @ [CHR 0x0A] @ ''x'')"
  have lib: "fameworkLib ?sn = Some OakFramework" by simp
  have opts: "snelm_options ?sn = ?o" by (simp add: Snelm_new_def)
  have e: "header_entries express_response \<noteq> None" by (simp add: header_entries_def eval_simps)
  have plan: "plan_of no_ext ?o directive_registry = ?xs @ ?h # []"
    by (simp add: eval_simps no_ext_def dnsPrefetchControl_hops_def dontSniffMimetype_hops_def
                  hidePoweredBy_hops_def getHeaderValueFromOptions_def hidePoweredBy_setTo_def)
  have ok: "list_all oak_hop_ok ?xs" by (simp add: eval_simps)
  have bad: "\<not> oak_hop_ok ?h" by (simp add: eval_simps)
  show ?thesis
    using oak_invoke_error_keeps_earlier [OF lib opts e plan ok bad, of empty_request] lib e plan ok bad by blast
qed

end
