(* ===== verification/PogoPipeline.thy ===== *)
theory PogoPipeline
  imports Snelm
begin

text \<open>
  The composition of the orchestrator, the three directives of src/deps and the Pogo
  adapter. On a response whose \<^verbatim>\<open>headers\<close> is a plain object written by an assigning
  \<^verbatim>\<open>header\<close> method, an invocation always completes: bracket access validates
  nothing, and header names are case-sensitive. On a response whose \<^verbatim>\<open>headers\<close> is a
  Fetch \<open>Headers\<close> object written by \<^verbatim>\<open>headers.set\<close>, as Pogo's \<open>Response\<close>
  is, removes never reach the entry list: hide-powered-by cannot remove
  \<^verbatim>\<open>X-Powered-By\<close> there.
\<close>

definition ext_sets_ok :: "ext_directives \<Rightarrow> bool" where
  "ext_sets_ok ext = (\<forall>d v. list_all set_hop_ok (ext d v))"

lemma registry_last_key_powered_by:
  assumes "ext_avoids ext ''X-Powered-By''"
  shows "last_key ''X-Powered-By'' (plan_of ext opts directive_registry) =
           (if prop_of opts ''hidePoweredBy'' = JNull then None
            else last_key ''X-Powered-By'' (hidePoweredBy_hops (prop_of opts ''hidePoweredBy'')))"
proof -
  have ext: "last_key ''X-Powered-By'' (ext d v) = None" for d v
    using assms by (simp add: ext_avoids_def last_key_from_last_on)
  have "\<forall>d'\<in>set directive_registry. d' \<noteq> HidePoweredBy \<longrightarrow>
          last_key ''X-Powered-By'' (directive_hops ext d' (prop_of opts (directive_key d'))) = None"
    using ext by (simp add: directive_registry_def dnsPrefetchControl_hops_def dontSniffMimetype_hops_def)
  then show ?thesis
    using last_where_plan_of [OF directive_registry_distinct, of HidePoweredBy, where P = "\<lambda>n. n = ''X-Powered-By''"]
    by (simp add: directive_registry_def)
qed

lemma hl_view_fold_pogo:
  "hl_view (fold pogo_hop_list hs hl) k =
     (case last_on k (filter is_set_hop hs) of None \<Rightarrow> hl_view hl k | Some h \<Rightarrow> oak_hop_value h)"
proof (induction hs arbitrary: hl)
  case Nil
  then show ?case by simp
next
  case (Cons h hs)
  then show ?case
    by (cases h) (auto simp: hl_view_set split: option.splits)
qed

lemma pogo_props_ctor [simp]: "pogo_props (response (PogoRequestResponse req resp)) = pogo_props resp"
  by (simp add: PogoRequestResponse_def)

lemma pogo_invoke_run:
  assumes "fameworkLib sn = Some PogoFramework" and "snelm_plan ext (snelm_options sn) = Inr hs"
    and "run_hops pogo_rr hs (PogoRequestResponse req resp) = Done rr'" and "request rr' = req"
  shows "snelm_snelm ext sn req resp = Done (response rr') \<and> PogoRequestResponse req (response rr') = rr'"
  using assms by (simp add: snelm_snelm_initialized PogoRequestResponse_def)

text \<open>C24. Invoking Snelm on Pogo with a plain \<^verbatim>\<open>headers\<close> object always completes and
  leaves \<^verbatim>\<open>X-Powered-By\<close> as hide-powered-by decides: unchanged when the entry is
  \<^verbatim>\<open>null\<close>, the string of a truthy \<^verbatim>\<open>setTo\<close>, absent otherwise. Unlike on Oak, no
  value is rejected or normalised, and the nine directives outside src/ need only leave
  this header alone.\<close>

theorem pogo_invoke_powered_by:
  assumes lib: "fameworkLib sn = Some PogoFramework" and opts: "snelm_options sn = JObj ps"
    and m: "header_method resp = HeaderAssignsProp" and props: "pogo_props resp = Some hp"
    and avoid: "ext_avoids ext ''X-Powered-By''"
  shows "\<exists>resp'. snelm_snelm ext sn req resp = Done resp' \<and>
           getResponseHeader pogo_rr ''X-Powered-By'' (PogoRequestResponse req resp') =
             (if prop_of (JObj ps) ''hidePoweredBy'' = JNull
              then getResponseHeader pogo_rr ''X-Powered-By'' (PogoRequestResponse req resp)
              else if js_truthy (hidePoweredBy_setTo (prop_of (JObj ps) ''hidePoweredBy''))
              then Inr (Some (js_string (hidePoweredBy_setTo (prop_of (JObj ps) ''hidePoweredBy''))))
              else Inr None)"
proof -
  let ?hs = "plan_of ext (JObj ps) directive_registry"
  have plan: "snelm_plan ext (snelm_options sn) = Inr ?hs"
    using opts by (simp add: snelm_plan_def)
  have m0: "header_method (response (PogoRequestResponse req resp)) = HeaderAssignsProp"
    and p0: "pogo_props (response (PogoRequestResponse req resp)) = Some hp"
    using m props by (simp_all add: PogoRequestResponse_def)
  obtain rr' where run: "run_hops pogo_rr ?hs (PogoRequestResponse req resp) = Done rr'"
    and p': "pogo_props (response rr') = Some (fold pogo_hop_props ?hs hp)"
    and q: "request rr' = req"
    using pogo_run_hops_assign [OF m0 p0] by (fastforce simp: PogoRequestResponse_def)
  have inv: "snelm_snelm ext sn req resp = Done (response rr')" and rr': "PogoRequestResponse req (response rr') = rr'"
    using pogo_invoke_run [OF lib plan run q] by simp_all
  have hide: "last_key ''X-Powered-By'' (hidePoweredBy_hops v) =
      Some (if js_truthy (hidePoweredBy_setTo v) then SetHeader ''X-Powered-By'' (js_string (hidePoweredBy_setTo v))
            else RemoveHeader ''X-Powered-By'')" for v
    by (simp add: hidePoweredBy_hops_def Let_def)
  have "getResponseHeader pogo_rr ''X-Powered-By'' (PogoRequestResponse req (response rr')) =
          Inr (map_of (fold pogo_hop_props ?hs hp) ''X-Powered-By'')"
    using p' by (simp add: adapter_simps)
  moreover have "getResponseHeader pogo_rr ''X-Powered-By'' (PogoRequestResponse req resp) =
          Inr (map_of hp ''X-Powered-By'')"
    using props by (simp add: adapter_simps)
  ultimately show ?thesis
    using inv registry_last_key_powered_by [OF avoid, of "JObj ps"] hide
    by (simp add: map_of_fold_pogo_hop_props split: if_splits)
qed

theorem pogo_invoke_powered_by_witness:
  "fameworkLib (Snelm_new ''pogo'' JUndef\<lparr>fameworkLib := Some PogoFramework\<rparr>) = Some PogoFramework \<and>
   snelm_options (Snelm_new ''pogo'' JUndef\<lparr>fameworkLib := Some PogoFramework\<rparr>) = JObj [] \<and>
   header_method plain_response = HeaderAssignsProp \<and>
   pogo_props plain_response = Some [(''X-Powered-By'', ''Express'')] \<and> ext_avoids no_ext ''X-Powered-By'' \<and>
   (\<exists>resp'. snelm_snelm no_ext (Snelm_new ''pogo'' JUndef\<lparr>fameworkLib := Some PogoFramework\<rparr>)
               empty_request plain_response = Done resp' \<and>
      getResponseHeader pogo_rr ''X-Powered-By'' (PogoRequestResponse empty_request resp') = Inr None)"
proof -
  have lib: "fameworkLib (Snelm_new ''pogo'' JUndef\<lparr>fameworkLib := Some PogoFramework\<rparr>) = Some PogoFramework"
    by simp
  have opts: "snelm_options (Snelm_new ''pogo'' JUndef\<lparr>fameworkLib := Some PogoFramework\<rparr>) = JObj []"
    by (simp add: Snelm_new_def)
  have m: "header_method plain_response = HeaderAssignsProp"
    and props: "pogo_props plain_response = Some [(''X-Powered-By'', ''Express'')]"
    by (simp_all add: plain_response_def pogo_props_def)
  have avoid: "ext_avoids no_ext ''X-Powered-By''" by (simp add: ext_avoids_def no_ext_def)
  show ?thesis
    using pogo_invoke_powered_by [OF lib opts m props avoid, of empty_request] lib opts m props avoid
    by (simp add: hidePoweredBy_setTo_def)
qed

lemma registry_sets_avoid_powered_by:
  assumes "ext_avoids ext ''X-Powered-By''"
    and "\<not> js_truthy (hidePoweredBy_setTo (prop_of opts ''hidePoweredBy''))"
  shows "\<forall>h\<in>set (plan_of ext opts directive_registry). is_set_hop h \<longrightarrow> lower (hop_key h) \<noteq> lower ''X-Powered-By''"
proof (intro ballI impI)
  fix h assume mem: "h \<in> set (plan_of ext opts directive_registry)" and set: "is_set_hop h"
  from plan_of_mem [OF mem] obtain d where d: "d \<in> set directive_registry"
    and h: "h \<in> set (directive_hops ext d (prop_of opts (directive_key d)))" by blast
  show "lower (hop_key h) \<noteq> lower ''X-Powered-By''"
  proof (cases "d \<in> {DnsPrefetchControl, DontSniffMimetype, HidePoweredBy}")
    case True
    with h set assms(2) show ?thesis
      by (auto simp: dnsPrefetchControl_hops_def dontSniffMimetype_hops_def hidePoweredBy_hops_def eval_simps)
  next
    case False
    with h have "h \<in> set (ext d (prop_of opts (directive_key d))) \<or> h \<in> set (ext IeNoOpen JUndef)"
      by (cases d) auto
    with assms(1) show ?thesis by (auto dest: ext_avoids_hops)
  qed
qed

lemma registry_sets_ok:
  assumes "ext_sets_ok ext" and "\<not> js_truthy (hidePoweredBy_setTo (prop_of opts ''hidePoweredBy''))"
  shows "list_all set_hop_ok (plan_of ext opts directive_registry)"
proof -
  have "h \<in> set (plan_of ext opts directive_registry) \<Longrightarrow> set_hop_ok h" for h
  proof -
    assume mem: "h \<in> set (plan_of ext opts directive_registry)"
    from plan_of_mem [OF mem] obtain d where
      h: "h \<in> set (directive_hops ext d (prop_of opts (directive_key d)))" by blast
    have ext: "list_all set_hop_ok (ext d' v)" for d' v using assms(1) by (simp add: ext_sets_ok_def)
    show "set_hop_ok h"
      using h assms(2) ext
      by (cases d)
         (auto simp: dnsPrefetchControl_hops_def dontSniffMimetype_hops_def hidePoweredBy_hops_def
                     getHeaderValueFromOptions_def list_all_iff eval_simps)
  qed
  then show ?thesis by (simp add: list_all_iff)
qed

lemma pogo_invoke_list:
  assumes lib: "fameworkLib sn = Some PogoFramework" and opts: "snelm_options sn = JObj ps"
    and m: "header_method resp = HeaderSetsList" and e: "header_entries resp = Some hl"
    and ext_ok: "ext_sets_ok ext"
    and keep: "\<not> js_truthy (hidePoweredBy_setTo (prop_of (JObj ps) ''hidePoweredBy''))"
  shows "\<exists>resp'. snelm_snelm ext sn req resp = Done resp' \<and>
           header_entries resp' = Some (fold pogo_hop_list (plan_of ext (JObj ps) directive_registry) hl)"
proof -
  let ?hs = "plan_of ext (JObj ps) directive_registry"
  have plan: "snelm_plan ext (snelm_options sn) = Inr ?hs"
    using opts by (simp add: snelm_plan_def)
  have m0: "header_method (response (PogoRequestResponse req resp)) = HeaderSetsList"
    and e0: "header_entries (response (PogoRequestResponse req resp)) = Some hl"
    using m e by (simp_all add: PogoRequestResponse_def)
  obtain rr' where run: "run_hops pogo_rr ?hs (PogoRequestResponse req resp) = Done rr'"
    and e': "header_entries (response rr') = Some (fold pogo_hop_list ?hs hl)"
    using pogo_run_hops_list [OF m0 e0 registry_sets_ok [OF ext_ok keep]] by blast
  have q: "request rr' = req"
  proof -
    have "request (out_state (run_hops pogo_rr ?hs (PogoRequestResponse req resp))) =
            request (PogoRequestResponse req resp)"
      by (rule run_hops_keeps) (rule pogo_run_hop_request)
    then show ?thesis using run by (simp add: PogoRequestResponse_def)
  qed
  have "snelm_snelm ext sn req resp = Done (response rr')"
    using pogo_invoke_run [OF lib plan run q] by simp
  with e' show ?thesis by blast
qed

text \<open>C25. On a Pogo response whose \<^verbatim>\<open>headers\<close> is a Fetch \<open>Headers\<close> object (Pogo's
  own \<open>Response\<close>), an invocation without a truthy \<^verbatim>\<open>setTo\<close>, the default
  configuration included, completes and leaves \<^verbatim>\<open>X-Powered-By\<close> in the entry list as
  it was: the removal hide-powered-by asks for never happens.\<close>

theorem pogo_invoke_keeps_powered_by:
  assumes lib: "fameworkLib sn = Some PogoFramework" and opts: "snelm_options sn = JObj ps"
    and m: "header_method resp = HeaderSetsList" and e: "header_entries resp = Some hl"
    and ext_ok: "ext_sets_ok ext" and avoid: "ext_avoids ext ''X-Powered-By''"
    and keep: "\<not> js_truthy (hidePoweredBy_setTo (prop_of (JObj ps) ''hidePoweredBy''))"
  shows "\<exists>resp' hl'. snelm_snelm ext sn req resp = Done resp' \<and> header_entries resp' = Some hl' \<and>
           hl_view hl' ''X-Powered-By'' = hl_view hl ''X-Powered-By''"
proof -
  have "hl_view (fold pogo_hop_list (plan_of ext (JObj ps) directive_registry) hl) ''X-Powered-By'' =
          hl_view hl ''X-Powered-By''"
    by (rule hl_view_fold_no_set [OF registry_sets_avoid_powered_by [OF avoid keep]])
  with pogo_invoke_list [OF lib opts m e ext_ok keep, of req] show ?thesis by blast
qed

theorem pogo_invoke_keeps_powered_by_witness:
  "fameworkLib (Snelm_new ''pogo'' JUndef\<lparr>fameworkLib := Some PogoFramework\<rparr>) = Some PogoFramework \<and>
   header_method express_response = HeaderSetsList \<and>
   header_entries express_response = Some [(''X-Powered-By'', ''Express'')] \<and>
   ext_sets_ok no_ext \<and> ext_avoids no_ext ''X-Powered-By'' \<and>
   \<not> js_truthy (hidePoweredBy_setTo (prop_of (JObj []) ''hidePoweredBy'')) \<and>
   (\<exists>resp' hl'. snelm_snelm no_ext (Snelm_new ''pogo'' JUndef\<lparr>fameworkLib := Some PogoFramework\<rparr>)
                  empty_request express_response = Done resp' \<and> header_entries resp' = Some hl' \<and>
      hl_view hl' ''X-Powered-By'' = Some ''Express'')"
proof -
  have lib: "fameworkLib (Snelm_new ''pogo'' JUndef\<lparr>fameworkLib := Some PogoFramework\<rparr>) = Some PogoFramework"
    by simp
  have opts: "snelm_options (Snelm_new ''pogo'' JUndef\<lparr>fameworkLib := Some PogoFramework\<rparr>) = JObj []"
    by (simp add: Snelm_new_def)
  have m: "header_method express_response = HeaderSetsList"
    and e: "header_entries express_response = Some [(''X-Powered-By'', ''Express'')]"
    by (simp_all add: express_response_def header_entries_def)
  have ok: "ext_sets_ok no_ext" and avoid: "ext_avoids no_ext ''X-Powered-By''"
    by (simp_all add: ext_sets_ok_def ext_avoids_def no_ext_def)
  have keep: "\<not> js_truthy (hidePoweredBy_setTo (prop_of (JObj []) ''hidePoweredBy''))"
    by (simp add: hidePoweredBy_setTo_def)
  have "hl_view [(''X-Powered-By'', ''Express'')] ''X-Powered-By'' = Some ''Express''"
    by (simp add: eval_simps)
  then show ?thesis
    using pogo_invoke_keeps_powered_by [OF lib opts m e ok avoid keep, of empty_request] lib m e ok avoid keep
    by auto
qed

end
