(* ===== verification/Examples.thy ===== *)
theory Examples
  imports OakPipeline PogoPipeline Lifecycle
begin

text \<open>
  The example servers of src/tests, as far as they use the library. Each example file
  builds one \<^verbatim>\<open>Snelm\<close> with the default configuration and awaits \<^verbatim>\<open>init()\<close> at
  the top level of the module (\<open>example_setup\<close>): a rejection there ends the module
  before its server starts. The Oak example installs a middleware that replaces
  \<^verbatim>\<open>ctx.response\<close> by the result of \<^verbatim>\<open>snelm()\<close> (\<open>oak_example_middleware\<close>),
  and the Pogo example calls \<^verbatim>\<open>snelm()\<close> in its route and returns
  \<^verbatim>\<open>request.response\<close> (\<open>pogo_example_route\<close>). What the servers do after that
  (\<^verbatim>\<open>next()\<close>, the body, listening) does not touch headers and is not modelled.
\<close>

definition example_setup :: "string \<Rightarrow> snelm result" where
  "example_setup name = snelm_init (Snelm_new name JUndef)"

record oak_context =
  ctx_request :: native
  ctx_response :: native

definition oak_example_middleware :: "ext_directives \<Rightarrow> snelm \<Rightarrow> oak_context \<Rightarrow> oak_context outcome" where
  "oak_example_middleware ext sn ctx =
     map_outcome (\<lambda>r. ctx\<lparr>ctx_response := r\<rparr>) (snelm_snelm ext sn (ctx_request ctx) (ctx_response ctx))"

record pogo_request =
  preq_native :: native
  preq_response :: native

definition pogo_example_route :: "ext_directives \<Rightarrow> snelm \<Rightarrow> pogo_request \<Rightarrow> native outcome" where
  "pogo_example_route ext sn req = snelm_snelm ext sn (preq_native req) (preq_response req)"

declare example_setup_def [eval_simps] oak_example_middleware_def [eval_simps] pogo_example_route_def [eval_simps]

lemma example_setup_known:
  "example_setup ''oak'' = Inr \<lparr>frameworkName = ''oak'', snelm_options = JObj [], fameworkLib = Some OakFramework\<rparr>"
  "example_setup ''pogo'' = Inr \<lparr>frameworkName = ''pogo'', snelm_options = JObj [], fameworkLib = Some PogoFramework\<rparr>"
  by (simp_all add: example_setup_def snelm_init_def Snelm_new_def resolve_framework_names)

lemma registry_last_on_nosniff:
  assumes "ext_avoids ext ''X-Content-Type-Options''"
  shows "last_on ''X-Content-Type-Options'' (plan_of ext opts directive_registry) =
           (if prop_of opts ''dontSniffMimetype'' = JNull then None
            else Some (SetHeader ''X-Content-Type-Options'' ''nosniff''))"
proof -
  have dns: "last_on ''X-Content-Type-Options'' (dnsPrefetchControl_hops v) = None" for v
    by (simp add: last_where_None src_hops_keys(1) eval_simps)
  have hide: "last_on ''X-Content-Type-Options'' (hidePoweredBy_hops v) = None" for v
    by (simp add: last_where_None src_hops_keys(3) eval_simps)
  have "\<forall>d'\<in>set directive_registry. d' \<noteq> DontSniffMimetype \<longrightarrow>
          last_on ''X-Content-Type-Options'' (directive_hops ext d' (prop_of opts (directive_key d'))) = None"
    using assms dns hide by (simp add: directive_registry_def ext_avoids_def)
  then show ?thesis
    using last_where_plan_of [OF directive_registry_distinct, of DontSniffMimetype, where P = "\<lambda>n. lower n = lower ''X-Content-Type-Options''"]
    by (simp add: directive_registry_def dontSniffMimetype_hops_def)
qed

lemma default_options:
  "prop_of (JObj []) k = JUndef"
  "getHeaderValueFromOptions JUndef = ''off''"
  "\<not> js_truthy (hidePoweredBy_setTo JUndef)"
  "valid_value (normalize_value (js_string (hidePoweredBy_setTo JUndef)))"
  by (simp_all add: getHeaderValueFromOptions_def hidePoweredBy_setTo_def eval_simps)

lemma oak_default_invoke_headers:
  assumes lib: "fameworkLib sn = Some OakFramework" and opts: "snelm_options sn = JObj []"
    and ok: "ext_oak_ok ext" and a1: "ext_avoids ext ''X-Powered-By''"
    and a2: "ext_avoids ext ''X-Content-Type-Options''" and a3: "ext_avoids ext ''X-DNS-Prefetch-Control''"
    and e: "header_entries resp \<noteq> None"
  shows "\<exists>resp'. snelm_snelm ext sn req resp = Done resp' \<and>
           getResponseHeader oak_rr ''X-Powered-By'' (OakRequestResponse req resp') = Inr None \<and>
           getResponseHeader oak_rr ''X-Content-Type-Options'' (OakRequestResponse req resp') = Inr (Some ''nosniff'') \<and>
           getResponseHeader oak_rr ''X-DNS-Prefetch-Control'' (OakRequestResponse req resp') = Inr (Some ''off'')"
proof -
  let ?hs = "plan_of ext (JObj []) directive_registry"
  have plan: "snelm_plan ext (snelm_options sn) = Inr ?hs"
    using opts by (simp add: snelm_plan_def)
  have hs_ok: "list_all oak_hop_ok ?hs"
    by (rule registry_oak_ok [OF ok]) (simp add: default_options)
  have view: "\<exists>resp'. snelm_snelm ext sn req resp = Done resp' \<and>
      getResponseHeader oak_rr k (OakRequestResponse req resp') = Inr (oak_hop_value (the (last_on k ?hs)))"
    if "valid_name k" and "last_on k ?hs \<noteq> None" for k
    using oak_invoke_view [OF lib plan e hs_ok that(1), of req] that(2) by auto
  have k1: "last_on ''X-Powered-By'' ?hs = Some (RemoveHeader ''X-Powered-By'')"
    using registry_last_on_powered_by [OF a1, of "JObj []"]
    by (simp add: default_options hidePoweredBy_hops_def)
  have k2: "last_on ''X-Content-Type-Options'' ?hs = Some (SetHeader ''X-Content-Type-Options'' ''nosniff'')"
    using registry_last_on_nosniff [OF a2, of "JObj []"] by (simp add: default_options)
  have k3: "last_on ''X-DNS-Prefetch-Control'' ?hs = Some (SetHeader ''X-DNS-Prefetch-Control'' ''off'')"
    using registry_last_on_dns [OF a3, of "JObj []"] by (simp add: default_options)
  have names: "valid_name ''X-Powered-By''" "valid_name ''X-Content-Type-Options''" "valid_name ''X-DNS-Prefetch-Control''"
    by (simp_all add: eval_simps)
  obtain r1 where d1: "snelm_snelm ext sn req resp = Done r1"
    and v1: "getResponseHeader oak_rr ''X-Powered-By'' (OakRequestResponse req r1) = Inr None"
    using view [OF names(1)] k1 by auto
  have v2: "getResponseHeader oak_rr ''X-Content-Type-Options'' (OakRequestResponse req r1) = Inr (Some ''nosniff'')"
    using view [OF names(2)] k2 d1 by (auto simp: normalize_value_def eval_simps)
  have v3: "getResponseHeader oak_rr ''X-DNS-Prefetch-Control'' (OakRequestResponse req r1) = Inr (Some ''off'')"
    using view [OF names(3)] k3 d1 by (auto simp: normalize_value_def eval_simps)
  show ?thesis using d1 v1 v2 v3 by blast
qed

lemma pogo_default_invoke_headers:
  assumes lib: "fameworkLib sn = Some PogoFramework" and opts: "snelm_options sn = JObj []"
    and ok: "ext_sets_ok ext" and a1: "ext_avoids ext ''X-Powered-By''"
    and a2: "ext_avoids ext ''X-Content-Type-Options''"
    and m: "header_method resp = HeaderSetsList" and e: "header_entries resp = Some hl"
  shows "\<exists>resp' hl'. snelm_snelm ext sn req resp = Done resp' \<and> header_entries resp' = Some hl' \<and>
           hl_view hl' ''X-Content-Type-Options'' = Some ''nosniff'' \<and>
           hl_view hl' ''X-Powered-By'' = hl_view hl ''X-Powered-By''"
proof -
  let ?hs = "plan_of ext (JObj []) directive_registry"
  have keep: "\<not> js_truthy (hidePoweredBy_setTo (prop_of (JObj []) ''hidePoweredBy''))"
    by (simp add: default_options)
  obtain resp' where d: "snelm_snelm ext sn req resp = Done resp'"
    and e': "header_entries resp' = Some (fold pogo_hop_list ?hs hl)"
    using pogo_invoke_list [OF lib opts m e ok keep, of req] by blast
  have "last_on ''X-Content-Type-Options'' ?hs = Some (SetHeader ''X-Content-Type-Options'' ''nosniff'')"
    using registry_last_on_nosniff [OF a2, of "JObj []"] by (simp add: default_options)
  then have "last_on ''X-Content-Type-Options'' (filter is_set_hop ?hs) = Some (SetHeader ''X-Content-Type-Options'' ''nosniff'')"
    by (rule last_where_filter) simp
  then have v1: "hl_view (fold pogo_hop_list ?hs hl) ''X-Content-Type-Options'' = Some ''nosniff''"
    by (simp add: hl_view_fold_pogo normalize_value_def http_ws_def)
  have v2: "hl_view (fold pogo_hop_list ?hs hl) ''X-Powered-By'' = hl_view hl ''X-Powered-By''"
    by (rule hl_view_fold_no_set [OF registry_sets_avoid_powered_by [OF a1 keep]])
  show ?thesis using d e' v1 v2 by blast
qed

text \<open>C30. The Oak example server works: its setup succeeds, and on every request whose
  response carries a \<open>Headers\<close> object the Snelm middleware completes and leaves
  \<^verbatim>\<open>X-DNS-Prefetch-Control: off\<close>, \<^verbatim>\<open>X-Content-Type-Options: nosniff\<close> and no
  \<^verbatim>\<open>X-Powered-By\<close> on the context's response, given directives outside src/ that issue
  valid calls and leave these three headers alone.\<close>

theorem oak_example_headers:
  assumes ok: "ext_oak_ok ext" and a1: "ext_avoids ext ''X-Powered-By''"
    and a2: "ext_avoids ext ''X-Content-Type-Options''" and a3: "ext_avoids ext ''X-DNS-Prefetch-Control''"
    and e: "header_entries (ctx_response ctx) \<noteq> None"
  shows "\<exists>sn ctx'. example_setup ''oak'' = Inr sn \<and> oak_example_middleware ext sn ctx = Done ctx' \<and>
           getResponseHeader oak_rr ''X-Powered-By'' (OakRequestResponse (ctx_request ctx') (ctx_response ctx')) = Inr None \<and>
           getResponseHeader oak_rr ''X-Content-Type-Options'' (OakRequestResponse (ctx_request ctx') (ctx_response ctx')) =
             Inr (Some ''nosniff'') \<and>
           getResponseHeader oak_rr ''X-DNS-Prefetch-Control'' (OakRequestResponse (ctx_request ctx') (ctx_response ctx')) =
             Inr (Some ''off'')"
proof -
  let ?sn = "\<lparr>frameworkName = ''oak'', snelm_options = JObj [], fameworkLib = Some OakFramework\<rparr>"
  have lib: "fameworkLib ?sn = Some OakFramework" and opts: "snelm_options ?sn = JObj []" by simp_all
  obtain r1 where d1: "snelm_snelm ext ?sn (ctx_request ctx) (ctx_response ctx) = Done r1"
    and v: "getResponseHeader oak_rr ''X-Powered-By'' (OakRequestResponse (ctx_request ctx) r1) = Inr None"
      "getResponseHeader oak_rr ''X-Content-Type-Options'' (OakRequestResponse (ctx_request ctx) r1) = Inr (Some ''nosniff'')"
      "getResponseHeader oak_rr ''X-DNS-Prefetch-Control'' (OakRequestResponse (ctx_request ctx) r1) = Inr (Some ''off'')"
    using oak_default_invoke_headers [OF lib opts ok a1 a2 a3 e] by blast
  have "oak_example_middleware ext ?sn ctx = Done (ctx\<lparr>ctx_response := r1\<rparr>)"
    using d1 by (simp add: oak_example_middleware_def)
  then show ?thesis using example_setup_known(1) v by fastforce
qed

theorem oak_example_headers_witness:
  "ext_oak_ok no_ext \<and> ext_avoids no_ext ''X-Powered-By'' \<and> ext_avoids no_ext ''X-Content-Type-Options'' \<and>
   ext_avoids no_ext ''X-DNS-Prefetch-Control'' \<and>
   header_entries (ctx_response \<lparr>ctx_request = empty_request, ctx_response = express_response\<rparr>) \<noteq> None \<and>
   (\<exists>sn ctx'. example_setup ''oak'' = Inr sn \<and>
      oak_example_middleware no_ext sn \<lparr>ctx_request = empty_request, ctx_response = express_response\<rparr> = Done ctx' \<and>
      getResponseHeader oak_rr ''X-Powered-By'' (OakRequestResponse (ctx_request ctx') (ctx_response ctx')) = Inr None \<and>
      getResponseHeader oak_rr ''X-Content-Type-Options'' (OakRequestResponse (ctx_request ctx') (ctx_response ctx')) =
        Inr (Some ''nosniff'') \<and>
      getResponseHeader oak_rr ''X-DNS-Prefetch-Control'' (OakRequestResponse (ctx_request ctx') (ctx_response ctx')) =
        Inr (Some ''off''))"
proof -
  have ok: "ext_oak_ok no_ext" by (simp add: ext_oak_ok_def no_ext_def)
  have a: "ext_avoids no_ext k" for k by (simp add: ext_avoids_def no_ext_def)
  have e: "header_entries (ctx_response \<lparr>ctx_request = empty_request, ctx_response = express_response\<rparr>) \<noteq> None"
    by (simp add: header_entries_def eval_simps)
  show ?thesis using oak_example_headers [OF ok a a a e] ok a e by blast
qed

text \<open>C31. The Pogo example server runs but only partly protects: its setup succeeds,
  and on a request whose response is Pogo's own \<open>Response\<close> (its \<^verbatim>\<open>headers\<close> a
  Fetch \<open>Headers\<close> object written by \<^verbatim>\<open>response.header\<close>) the route's call of
  \<^verbatim>\<open>snelm()\<close> completes with \<^verbatim>\<open>X-Content-Type-Options: nosniff\<close> in the entry list,
  while \<^verbatim>\<open>X-Powered-By\<close> reads as it did before.\<close>

theorem pogo_example_headers:
  assumes ok: "ext_sets_ok ext" and a1: "ext_avoids ext ''X-Powered-By''"
    and a2: "ext_avoids ext ''X-Content-Type-Options''"
    and m: "header_method (preq_response r) = HeaderSetsList" and e: "header_entries (preq_response r) = Some hl"
  shows "\<exists>sn resp' hl'. example_setup ''pogo'' = Inr sn \<and> pogo_example_route ext sn r = Done resp' \<and>
           header_entries resp' = Some hl' \<and> hl_view hl' ''X-Content-Type-Options'' = Some ''nosniff'' \<and>
           hl_view hl' ''X-Powered-By'' = hl_view hl ''X-Powered-By''"
proof -
  let ?sn = "\<lparr>frameworkName = ''pogo'', snelm_options = JObj [], fameworkLib = Some PogoFramework\<rparr>"
  have lib: "fameworkLib ?sn = Some PogoFramework" and opts: "snelm_options ?sn = JObj []"
    by simp_all
  show ?thesis
    using pogo_default_invoke_headers [OF lib opts ok a1 a2 m e, of "preq_native r"] example_setup_known(2)
    by (auto simp: pogo_example_route_def)
qed

theorem pogo_example_headers_witness:
  "ext_sets_ok no_ext \<and> ext_avoids no_ext ''X-Powered-By'' \<and> ext_avoids no_ext ''X-Content-Type-Options'' \<and>
   header_method (preq_response \<lparr>preq_native = empty_request, preq_response = express_response\<rparr>) = HeaderSetsList \<and>
   header_entries (preq_response \<lparr>preq_native = empty_request, preq_response = express_response\<rparr>) =
     Some [(''X-Powered-By'', ''Express'')] \<and>
   (\<exists>sn resp' hl'. example_setup ''pogo'' = Inr sn \<and>
      pogo_example_route no_ext sn \<lparr>preq_native = empty_request, preq_response = express_response\<rparr> = Done resp' \<and>
      header_entries resp' = Some hl' \<and> hl_view hl' ''X-Content-Type-Options'' = Some ''nosniff'' \<and>
      hl_view hl' ''X-Powered-By'' = Some ''Express'')"
proof -
  have ok: "ext_sets_ok no_ext" by (simp add: ext_sets_ok_def no_ext_def)
  have a: "ext_avoids no_ext k" for k by (simp add: ext_avoids_def no_ext_def)
  have m: "header_method (preq_response \<lparr>preq_native = empty_request, preq_response = express_response\<rparr>) = HeaderSetsList"
    and e: "header_entries (preq_response \<lparr>preq_native = empty_request, preq_response = express_response\<rparr>) =
              Some [(''X-Powered-By'', ''Express'')]"
    by (simp_all add: header_entries_def eval_simps)
  have v: "hl_view [(''X-Powered-By'', ''Express'')] ''X-Powered-By'' = Some ''Express''"
    by (simp add: eval_simps)
  show ?thesis using pogo_example_headers [OF ok a a m e] ok a m e v by auto
qed

text \<open>C34. The Oak example under the asynchronous host: in any run of the life cycle
  of its \<^verbatim>\<open>Snelm\<close> object, with any interleaving of further \<^verbatim>\<open>init()\<close> calls and
  settlements, every invocation after the first import has settled completes on a
  response with a \<open>Headers\<close> object and leaves \<^verbatim>\<open>X-DNS-Prefetch-Control: off\<close>,
  \<^verbatim>\<open>X-Content-Type-Options: nosniff\<close> and no \<^verbatim>\<open>X-Powered-By\<close>.\<close>

theorem oak_example_lifecycle:
  assumes run: "lc_run ext (lc_start ''oak'' JUndef) (es1 @ InitSettle # es2) s"
    and ok: "ext_oak_ok ext" and a1: "ext_avoids ext ''X-Powered-By''"
    and a2: "ext_avoids ext ''X-Content-Type-Options''" and a3: "ext_avoids ext ''X-DNS-Prefetch-Control''"
    and inv: "Invoke req resp r \<in> set es2" and e: "header_entries resp \<noteq> None"
  shows "\<exists>resp'. r = Done resp' \<and>
           getResponseHeader oak_rr ''X-Powered-By'' (OakRequestResponse req resp') = Inr None \<and>
           getResponseHeader oak_rr ''X-Content-Type-Options'' (OakRequestResponse req resp') = Inr (Some ''nosniff'') \<and>
           getResponseHeader oak_rr ''X-DNS-Prefetch-Control'' (OakRequestResponse req resp') = Inr (Some ''off'')"
proof -
  let ?sn = "Snelm_new ''oak'' JUndef\<lparr>fameworkLib := Some OakFramework\<rparr>"
  have "r = snelm_snelm ext ?sn req resp"
    using lc_invoke_after_settle [OF run _ inv] by (simp add: resolve_framework_names)
  moreover have "fameworkLib ?sn = Some OakFramework" and "snelm_options ?sn = JObj []"
    by (simp_all add: Snelm_new_def)
  ultimately show ?thesis
    using oak_default_invoke_headers [OF _ _ ok a1 a2 a3 e, of ?sn req] by simp
qed

theorem oak_example_lifecycle_witness:
  "lc_run no_ext (lc_start ''oak'' JUndef)
     ([InitCall] @ InitSettle # [Invoke empty_request express_response
        (snelm_snelm no_ext (Snelm_new ''oak'' JUndef\<lparr>fameworkLib := Some OakFramework\<rparr>) empty_request express_response)])
     \<lparr>obj = Snelm_new ''oak'' JUndef\<lparr>fameworkLib := Some OakFramework\<rparr>, pending = 0\<rparr> \<and>
   ext_oak_ok no_ext \<and> ext_avoids no_ext ''X-Powered-By'' \<and> ext_avoids no_ext ''X-Content-Type-Options'' \<and>
   ext_avoids no_ext ''X-DNS-Prefetch-Control'' \<and> header_entries express_response \<noteq> None \<and>
   (\<exists>resp'. snelm_snelm no_ext (Snelm_new ''oak'' JUndef\<lparr>fameworkLib := Some OakFramework\<rparr>) empty_request express_response = Done resp' \<and>
      getResponseHeader oak_rr ''X-Powered-By'' (OakRequestResponse empty_request resp') = Inr None \<and>
      getResponseHeader oak_rr ''X-Content-Type-Options'' (OakRequestResponse empty_request resp') = Inr (Some ''nosniff'') \<and>
      getResponseHeader oak_rr ''X-DNS-Prefetch-Control'' (OakRequestResponse empty_request resp') = Inr (Some ''off''))"
proof -
  let ?sn = "Snelm_new ''oak'' JUndef\<lparr>fameworkLib := Some OakFramework\<rparr>"
  have run: "lc_run no_ext (lc_start ''oak'' JUndef)
     ([InitCall] @ InitSettle # [Invoke empty_request express_response (snelm_snelm no_ext ?sn empty_request express_response)])
     \<lparr>obj = ?sn, pending = 0\<rparr>"
  proof -
    have s1: "lc_step no_ext (lc_start ''oak'' JUndef) InitCall \<lparr>obj = Snelm_new ''oak'' JUndef, pending = 1\<rparr>"
      using init_call [of no_ext "lc_start ''oak'' JUndef"] by (simp add: lc_start_def)
    have s2: "lc_step no_ext \<lparr>obj = Snelm_new ''oak'' JUndef, pending = 1\<rparr> InitSettle \<lparr>obj = ?sn, pending = 0\<rparr>"
      using init_resolve [of "\<lparr>obj = Snelm_new ''oak'' JUndef, pending = 1\<rparr>" ?sn no_ext] by (simp add: eval_simps)
    have s3: "lc_step no_ext \<lparr>obj = ?sn, pending = 0\<rparr>
        (Invoke empty_request express_response (snelm_snelm no_ext ?sn empty_request express_response)) \<lparr>obj = ?sn, pending = 0\<rparr>"
      using lc_step.invoke [of no_ext "\<lparr>obj = ?sn, pending = 0\<rparr>"] by simp
    show ?thesis using s1 s2 s3 by (auto intro!: run_cons run_nil)
  qed
  have ok: "ext_oak_ok no_ext" by (simp add: ext_oak_ok_def no_ext_def)
  have a: "ext_avoids no_ext k" for k by (simp add: ext_avoids_def no_ext_def)
  have e: "header_entries express_response \<noteq> None" by (simp add: header_entries_def eval_simps)
  have inv: "Invoke empty_request express_response (snelm_snelm no_ext ?sn empty_request express_response) \<in>
      set [Invoke empty_request express_response (snelm_snelm no_ext ?sn empty_request express_response)]" by simp
  show ?thesis using oak_example_lifecycle [OF run ok a a a inv e] run ok a e by blast
qed

text \<open>C29. The Pogo example under the asynchronous host: in any run of the life cycle
  of its \<^verbatim>\<open>Snelm\<close> object, with any interleaving of further \<^verbatim>\<open>init()\<close> calls and
  settlements, every invocation after the first import has settled on Pogo's own
  \<open>Response\<close> completes with \<^verbatim>\<open>X-Content-Type-Options: nosniff\<close> in its entry list
  and \<^verbatim>\<open>X-Powered-By\<close> as it was: the remove bug is not a matter of timing.\<close>

theorem pogo_example_lifecycle:
  assumes run: "lc_run ext (lc_start ''pogo'' JUndef) (es1 @ InitSettle # es2) s"
    and ok: "ext_sets_ok ext" and a1: "ext_avoids ext ''X-Powered-By''"
    and a2: "ext_avoids ext ''X-Content-Type-Options''"
    and inv: "Invoke req resp r \<in> set es2"
    and m: "header_method resp = HeaderSetsList" and e: "header_entries resp = Some hl"
  shows "\<exists>resp' hl'. r = Done resp' \<and> header_entries resp' = Some hl' \<and>
           hl_view hl' ''X-Content-Type-Options'' = Some ''nosniff'' \<and>
           hl_view hl' ''X-Powered-By'' = hl_view hl ''X-Powered-By''"
proof -
  let ?sn = "Snelm_new ''pogo'' JUndef\<lparr>fameworkLib := Some PogoFramework\<rparr>"
  have "r = snelm_snelm ext ?sn req resp"
    using lc_invoke_after_settle [OF run _ inv] by (simp add: resolve_framework_names)
  moreover have "fameworkLib ?sn = Some PogoFramework" and "snelm_options ?sn = JObj []"
    by (simp_all add: Snelm_new_def)
  ultimately show ?thesis
    using pogo_default_invoke_headers [OF _ _ ok a1 a2 m e, of ?sn req] by simp
qed

theorem pogo_example_lifecycle_witness:
  "lc_run no_ext (lc_start ''pogo'' JUndef)
     ([InitCall] @ InitSettle # [Invoke empty_request express_response
        (snelm_snelm no_ext (Snelm_new ''pogo'' JUndef\<lparr>fameworkLib := Some PogoFramework\<rparr>) empty_request express_response)])
     \<lparr>obj = Snelm_new ''pogo'' JUndef\<lparr>fameworkLib := Some PogoFramework\<rparr>, pending = 0\<rparr> \<and>
   ext_sets_ok no_ext \<and> ext_avoids no_ext ''X-Powered-By'' \<and> ext_avoids no_ext ''X-Content-Type-Options'' \<and>
   header_method express_response = HeaderSetsList \<and>
   header_entries express_response = Some [(''X-Powered-By'', ''Express'')] \<and>
   (\<exists>resp' hl'. snelm_snelm no_ext (Snelm_new ''pogo'' JUndef\<lparr>fameworkLib := Some PogoFramework\<rparr>)
        empty_request express_response = Done resp' \<and> header_entries resp' = Some hl' \<and>
      hl_view hl' ''X-Content-Type-Options'' = Some ''nosniff'' \<and> hl_view hl' ''X-Powered-By'' = Some ''Express'')"
proof -
  let ?sn = "Snelm_new ''pogo'' JUndef\<lparr>fameworkLib := Some PogoFramework\<rparr>"
  have run: "lc_run no_ext (lc_start ''pogo'' JUndef)
     ([InitCall] @ InitSettle # [Invoke empty_request express_response (snelm_snelm no_ext ?sn empty_request express_response)])
     \<lparr>obj = ?sn, pending = 0\<rparr>"
  proof -
    have s1: "lc_step no_ext (lc_start ''pogo'' JUndef) InitCall \<lparr>obj = Snelm_new ''pogo'' JUndef, pending = 1\<rparr>"
      using init_call [of no_ext "lc_start ''pogo'' JUndef"] by (simp add: lc_start_def)
    have s2: "lc_step no_ext \<lparr>obj = Snelm_new ''pogo'' JUndef, pending = 1\<rparr> InitSettle \<lparr>obj = ?sn, pending = 0\<rparr>"
      using init_resolve [of "\<lparr>obj = Snelm_new ''pogo'' JUndef, pending = 1\<rparr>" ?sn no_ext] by (simp add: eval_simps)
    have s3: "lc_step no_ext \<lparr>obj = ?sn, pending = 0\<rparr>
        (Invoke empty_request express_response (snelm_snelm no_ext ?sn empty_request express_response)) \<lparr>obj = ?sn, pending = 0\<rparr>"
      using lc_step.invoke [of no_ext "\<lparr>obj = ?sn, pending = 0\<rparr>"] by simp
    show ?thesis using s1 s2 s3 by (auto intro!: run_cons run_nil)
  qed
  have ok: "ext_sets_ok no_ext" by (simp add: ext_sets_ok_def no_ext_def)
  have a: "ext_avoids no_ext k" for k by (simp add: ext_avoids_def no_ext_def)
  have m: "header_method express_response = HeaderSetsList"
    and e: "header_entries express_response = Some [(''X-Powered-By'', ''Express'')]"
    by (simp_all add: header_entries_def eval_simps)
  have inv: "Invoke empty_request express_response (snelm_snelm no_ext ?sn empty_request express_response) \<in>
      set [Invoke empty_request express_response (snelm_snelm no_ext ?sn empty_request express_response)]" by simp
  have v: "hl_view [(''X-Powered-By'', ''Express'')] ''X-Powered-By'' = Some ''Express''"
    by (simp add: eval_simps)
  show ?thesis using pogo_example_lifecycle [OF run ok a a inv m e] run ok a m e v by auto
qed

end
