(* ===== verification/DenoHeaders.thy ===== *)
theory DenoHeaders
  imports NativeObjects "HOL-Library.While_Combinator"
begin

text \<open>
  The loops of Deno's \<open>Headers\<close> methods (ext/fetch/20_headers.js) as they are written,
  against the reference updates \<open>hl_set\<close> and \<open>hl_drop\<close> of theory
  \<open>NativeObjects\<close> that the adapters' lemmas use. Both methods walk the entry list
  with an index and splice matching entries out of the list they walk:
  \<^verbatim>\<open>for (let i = 0; i < list.length; i++) { if (match) { ... splice(list, i, 1); i--; } }\<close>
  The index does not grow at a splice, and the list shrinks, so termination needs
  an argument: \<open>length list - i\<close> falls at every iteration. The loops are kept as loops
  with \<open>while_option\<close> (\<open>None\<close> would be a loop that runs forever), and after the
  loop \<^verbatim>\<open>set\<close> pushes the pair when no entry matched.
\<close>

type_synonym entries = "(header_name \<times> header_value) list"

text \<open>
  The loop of \<^verbatim>\<open>Headers.prototype.set\<close> read as a recursion over the rest of the
  list: the first entry with a matching name gets the value and sets the flag
  \<^verbatim>\<open>added\<close>, later matching entries are dropped; without a match the pair is
  pushed.
\<close>

fun headers_set_loop ::
  "bool \<Rightarrow> header_name \<Rightarrow> header_value \<Rightarrow> (header_name \<times> header_value) list \<Rightarrow>
   bool \<times> (header_name \<times> header_value) list" where
  "headers_set_loop added k v [] = (added, [])"
| "headers_set_loop added k v (e # hl) =
     (if lower (fst e) = lower k then
        (if \<not> added then (case headers_set_loop True k v hl of (a, r) \<Rightarrow> (a, (fst e, v) # r))
         else headers_set_loop added k v hl)
      else (case headers_set_loop added k v hl of (a, r) \<Rightarrow> (a, e # r)))"

definition deno_headers_set :: "header_name \<Rightarrow> header_value \<Rightarrow> (header_name \<times> header_value) list \<Rightarrow> (header_name \<times> header_value) list" where
  "deno_headers_set k v hl = (case headers_set_loop False k v hl of (added, hl') \<Rightarrow> if added then hl' else hl' @ [(k, v)])"

definition set_loop_body :: "header_name \<Rightarrow> header_value \<Rightarrow> nat \<times> bool \<times> entries \<Rightarrow> nat \<times> bool \<times> entries" where
  "set_loop_body k v = (\<lambda>(i, added, list).
     if lower (fst (list ! i)) = lower k then
       (if \<not> added then (Suc i, True, list[i := (fst (list ! i), v)])
        else (i, added, take i list @ drop (Suc i) list))
     else (Suc i, added, list))"

definition deno_set_index :: "header_name \<Rightarrow> header_value \<Rightarrow> entries \<Rightarrow> entries option" where
  "deno_set_index k v hl =
     map_option (\<lambda>(i, added, list). if added then list else list @ [(k, v)])
       (while_option (\<lambda>(i, added, list). i < length list) (set_loop_body k v) (0, False, hl))"

definition delete_loop_body :: "header_name \<Rightarrow> nat \<times> entries \<Rightarrow> nat \<times> entries" where
  "delete_loop_body k = (\<lambda>(i, list).
     if lower (fst (list ! i)) = lower k then (i, take i list @ drop (Suc i) list) else (Suc i, list))"

definition deno_delete_index :: "header_name \<Rightarrow> entries \<Rightarrow> entries option" where
  "deno_delete_index k hl =
     map_option snd (while_option (\<lambda>(i, list). i < length list) (delete_loop_body k) (0, hl))"

text \<open>What stays true across the iterations: the part before the index is final, and
  the part from the index on is still to be processed by the recursive reading.\<close>

definition set_inv :: "header_name \<Rightarrow> header_value \<Rightarrow> entries \<Rightarrow> nat \<times> bool \<times> entries \<Rightarrow> bool" where
  "set_inv k v hl0 = (\<lambda>(i, added, list). i \<le> length list \<and>
     (case headers_set_loop added k v (drop i list) of (a, r) \<Rightarrow> (a, take i list @ r)) = headers_set_loop False k v hl0)"

definition delete_inv :: "header_name \<Rightarrow> entries \<Rightarrow> nat \<times> entries \<Rightarrow> bool" where
  "delete_inv k hl0 = (\<lambda>(i, list). i \<le> length list \<and> take i list @ hl_drop k (drop i list) = hl_drop k hl0)"

declare deno_headers_set_def [eval_simps] deno_set_index_def [eval_simps] deno_delete_index_def [eval_simps]
  set_loop_body_def [eval_simps] delete_loop_body_def [eval_simps]

lemma headers_set_loop_added: "headers_set_loop True k v hl = (True, hl_drop k hl)"
  by (induction hl) (auto simp: hl_drop_def)

lemma headers_set_loop_first:
  "headers_set_loop False k v hl =
     (if list_ex (same_name k) hl then (True, hl_replace k v hl) else (False, hl))"
  by (induction hl) (auto simp: headers_set_loop_added same_name_def)

text \<open>The recursive reading of the \<^verbatim>\<open>set\<close> loop computes the reference update
  \<open>hl_set\<close>: replace the first entry of the name, drop the later ones, append when
  there is none.\<close>

lemma deno_headers_set_eq: "deno_headers_set k v hl = hl_set k v hl"
  by (simp add: deno_headers_set_def headers_set_loop_first hl_set_def)

lemma drop_splice: "i < length list \<Longrightarrow> drop i (take i list @ drop (Suc i) list) = drop (Suc i) list"
  by simp

lemma set_loop_body_dec:
  "i < length list \<Longrightarrow>
   (case set_loop_body k v (i, added, list) of (i', a', list') \<Rightarrow> length list' - i') < length list - i"
  by (auto simp: set_loop_body_def)

lemma delete_loop_body_dec:
  "i < length list \<Longrightarrow> (case delete_loop_body k (i, list) of (i', list') \<Rightarrow> length list' - i') < length list - i"
  by (auto simp: delete_loop_body_def)

lemma set_loop_body_inv:
  assumes inv: "set_inv k v hl0 (i, added, list)" and lt: "i < length list"
  shows "set_inv k v hl0 (set_loop_body k v (i, added, list))"
proof -
  let ?e = "list ! i"
  have d: "drop i list = ?e # drop (Suc i) list" using lt by (simp add: Cons_nth_drop_Suc)
  have t: "take (Suc i) list = take i list @ [?e]" using lt by (simp add: take_Suc_conv_app_nth)
  have tu: "take (Suc i) (list[i := x]) = take i list @ [x]" for x
    using lt by (simp add: take_update_swap t list_update_append)
  from inv have eq: "(case headers_set_loop added k v (?e # drop (Suc i) list) of (a, r) \<Rightarrow> (a, take i list @ r)) =
      headers_set_loop False k v hl0"
    by (simp add: set_inv_def d)
  show ?thesis
    using eq lt by (auto simp: set_inv_def set_loop_body_def tu t split: prod.splits)
qed

lemma delete_loop_body_inv:
  assumes inv: "delete_inv k hl0 (i, list)" and lt: "i < length list"
  shows "delete_inv k hl0 (delete_loop_body k (i, list))"
proof -
  let ?e = "list ! i"
  have d: "drop i list = ?e # drop (Suc i) list" using lt by (simp add: Cons_nth_drop_Suc)
  have t: "take (Suc i) list = take i list @ [?e]" using lt by (simp add: take_Suc_conv_app_nth)
  from inv have eq: "take i list @ hl_drop k (?e # drop (Suc i) list) = hl_drop k hl0"
    by (simp add: delete_inv_def d)
  show ?thesis
    using eq lt by (auto simp: delete_inv_def delete_loop_body_def t hl_drop_def same_name_def)
qed

lemma set_loop_Some:
  assumes "set_inv k v hl0 s"
  shows "\<exists>t. while_option (\<lambda>(i, added, list). i < length list) (set_loop_body k v) s = Some t \<and>
             set_inv k v hl0 t \<and> \<not> (case t of (i, added, list) \<Rightarrow> i < length list)"
proof -
  have step: "set_inv k v hl0 (set_loop_body k v s') \<and>
      (case set_loop_body k v s' of (i, added, list) \<Rightarrow> length list - i) < (case s' of (i, added, list) \<Rightarrow> length list - i)"
    if "set_inv k v hl0 s'" and "case s' of (i, added, list) \<Rightarrow> i < length list" for s'
    using that set_loop_body_inv set_loop_body_dec by (cases s') auto
  obtain t where t: "while_option (\<lambda>(i, added, list). i < length list) (set_loop_body k v) s = Some t"
    using measure_while_option_Some [of "set_inv k v hl0", OF step assms] by blast
  moreover have "set_inv k v hl0 t"
    by (rule while_option_rule [OF _ t]) (use step assms in auto)
  moreover have "\<not> (case t of (i, added, list) \<Rightarrow> i < length list)"
    by (rule while_option_stop [OF t])
  ultimately show ?thesis by blast
qed

lemma delete_loop_Some:
  assumes "delete_inv k hl0 s"
  shows "\<exists>t. while_option (\<lambda>(i, list). i < length list) (delete_loop_body k) s = Some t \<and>
             delete_inv k hl0 t \<and> \<not> (case t of (i, list) \<Rightarrow> i < length list)"
proof -
  have step: "delete_inv k hl0 (delete_loop_body k s') \<and>
      (case delete_loop_body k s' of (i, list) \<Rightarrow> length list - i) < (case s' of (i, list) \<Rightarrow> length list - i)"
    if "delete_inv k hl0 s'" and "case s' of (i, list) \<Rightarrow> i < length list" for s'
    using that delete_loop_body_inv delete_loop_body_dec by (cases s') auto
  obtain t where t: "while_option (\<lambda>(i, list). i < length list) (delete_loop_body k) s = Some t"
    using measure_while_option_Some [of "delete_inv k hl0", OF step assms] by blast
  moreover have "delete_inv k hl0 t"
    by (rule while_option_rule [OF _ t]) (use step assms in auto)
  moreover have "\<not> (case t of (i, list) \<Rightarrow> i < length list)"
    by (rule while_option_stop [OF t])
  ultimately show ?thesis by blast
qed

text \<open>Both splicing loops terminate from every state: the distance \<open>length list - i\<close>
  falls at every iteration, although \<^verbatim>\<open>i--\<close> undoes the step of the index after a
  splice.\<close>

lemma deno_loops_terminate:
  "(\<exists>t. while_option (\<lambda>(i, added, list). i < length list) (set_loop_body k v) s = Some t) \<and>
   (\<exists>t. while_option (\<lambda>(i, list). i < length list) (delete_loop_body k) s' = Some t)"
proof
  show "\<exists>t. while_option (\<lambda>(i, added, list). i < length list) (set_loop_body k v) s = Some t"
  proof (rule measure_while_option_Some [where P = "\<lambda>_. True" and f = "\<lambda>(i, added, list). length list - i"])
    fix s :: "nat \<times> bool \<times> entries" assume "case s of (i, added, list) \<Rightarrow> i < length list"
    then show "True \<and> (case set_loop_body k v s of (i, added, list) \<Rightarrow> length list - i) < (case s of (i, added, list) \<Rightarrow> length list - i)"
      using set_loop_body_dec by (cases s) auto
  qed auto
  show "\<exists>t. while_option (\<lambda>(i, list). i < length list) (delete_loop_body k) s' = Some t"
  proof (rule measure_while_option_Some [where P = "\<lambda>_. True" and f = "\<lambda>(i, list). length list - i"])
    fix s :: "nat \<times> entries" assume "case s of (i, list) \<Rightarrow> i < length list"
    then show "True \<and> (case delete_loop_body k s of (i, list) \<Rightarrow> length list - i) < (case s of (i, list) \<Rightarrow> length list - i)"
      using delete_loop_body_dec by (cases s) auto
  qed auto
qed

text \<open>The index loops compute the reference updates \<open>hl_set\<close> and \<open>hl_drop\<close>.\<close>

lemma deno_index_loops_eq:
  "deno_set_index k v hl = Some (hl_set k v hl) \<and> deno_delete_index k hl = Some (hl_drop k hl)"
proof
  have "set_inv k v hl (0, False, hl)" by (simp add: set_inv_def split: prod.splits)
  then obtain i added list where
    run: "while_option (\<lambda>(i, added, list). i < length list) (set_loop_body k v) (0, False, hl) = Some (i, added, list)"
    and inv: "set_inv k v hl (i, added, list)" and stop: "\<not> i < length list"
    using set_loop_Some by fastforce
  from inv stop have "(added, list) = headers_set_loop False k v hl" by (simp add: set_inv_def)
  then show "deno_set_index k v hl = Some (hl_set k v hl)"
    using run by (auto simp: deno_set_index_def headers_set_loop_first hl_set_def split: if_splits)
next
  have "delete_inv k hl (0, hl)" by (simp add: delete_inv_def)
  then obtain i list where
    run: "while_option (\<lambda>(i, list). i < length list) (delete_loop_body k) (0, hl) = Some (i, list)"
    and inv: "delete_inv k hl (i, list)" and stop: "\<not> i < length list"
    using delete_loop_Some by fastforce
  from inv stop have "list = hl_drop k hl" by (simp add: delete_inv_def hl_drop_def)
  then show "deno_delete_index k hl = Some (hl_drop k hl)"
    using run by (simp add: deno_delete_index_def)
qed

end
