(* ===== verification/Spec2Isabelle.thy ===== *)
theory Spec2Isabelle
  imports Lifecycle Examples DenoHeaders
begin

text \<open>
  \<^bold>\<open>A verification development of snelm.\<close> snelm (src/) applies HTTP security-header
  directives to a response, whatever web framework produced it. It has four parts:
  \<^item> the capability contract, src/frameworks/interface.ts: get a request header, get,
    set and remove a response header;
  \<^item> one adapter per framework implementing it over the framework's native request and
    response objects: src/frameworks/oak.ts (Fetch \<open>Headers\<close> methods) and
    src/frameworks/pogo.ts (bracket access, and the response's \<^verbatim>\<open>header\<close> method);
  \<^item> directives, functions of an adapted pair and options whose only effect is set and
    remove calls. src/deps has dns-prefetch-control, dont-sniff-mimetype and
    hide-powered-by; the nine others that src/mod.ts imports are not in the snapshot;
  \<^item> the orchestrator, class \<^verbatim>\<open>Snelm\<close> of src/mod.ts. \<^verbatim>\<open>init()\<close> loads the
    adapter module named at construction. \<^verbatim>\<open>snelm(req, res)\<close> wraps the pair, runs
    the twelve directives in a fixed order, skipping those whose configuration entry is
    \<^verbatim>\<open>null\<close>, and returns the mutated response;
  \<^item> the example servers of src/tests, which construct a \<^verbatim>\<open>Snelm\<close> with the default
    configuration, await \<^verbatim>\<open>init()\<close> and call \<^verbatim>\<open>snelm()\<close> from a middleware or route.

  \<^bold>\<open>Theories.\<close>
  \<^item> \<open>Prelude\<close>: errors (the spec's \<open>UnknownFramework\<close>, \<open>NotInitialized\<close>,
    \<open>MalformedNativeObject\<close>, plus the TypeErrors \<open>InvalidOptions\<close> and
    \<open>InvalidHeader\<close>), results \<open>error + 'a\<close>, and \<open>'s outcome\<close>. The latter is
    \<open>Done s\<close> or \<open>Threw e s\<close>, keeping the in-place mutations made before an
    exception. It also holds the ASCII lower-casing of header names and the lemma
    collections \<open>header_simps\<close>, \<open>adapter_simps\<close> and \<open>eval_simps\<close>.
  \<^item> \<open>JsValue\<close>: the JavaScript values of the configuration, truthiness, property reads
    and \<^verbatim>\<open>String()\<close>.
  \<^item> \<open>NativeObjects\<close>: the environment the adapters run in. A Fetch \<open>Headers\<close>
    entry list follows Deno: case-insensitive names, values joined by \<^verbatim>\<open>", "\<close>,
    whitespace normalisation, and validation that throws. A plain object's own
    properties are case-sensitive. A native object is its \<^verbatim>\<open>headers\<close> field and its
    \<^verbatim>\<open>header\<close> method. It also holds the well-formedness \<open>hl_wf\<close> of an entry list.
  \<^item> \<open>DenoHeaders\<close>: the loops of Deno's \<^verbatim>\<open>Headers.set\<close> and \<^verbatim>\<open>delete\<close> as
    written. These are index loops that splice matching entries and step the index
    back (\<open>set_loop_body\<close>, \<open>delete_loop_body\<close>, run by \<open>while_option\<close>), and the
    recursive reading of the set loop (\<open>headers_set_loop\<close>). Its lemmas show that
    the loops terminate and compute \<open>hl_set\<close> and \<open>hl_drop\<close>. They validate the
    library model that the adapters' theorems rest on; they are not claims about
    src/.
  \<^item> \<open>Contract\<close>: the interface as the record \<open>'s rr_iface\<close> over an adapter state.
    The adapted pair \<open>req_resp\<close> is the two wrapped objects. A header operation
    \<open>hop\<close> is one set or remove call, and \<open>run_hops\<close> performs a list of them in order.
  \<^item> \<open>Oak\<close> and \<open>Pogo\<close>: the two adapter classes, method by method
    (\<open>oak_setResponseHeader\<close> is \<^verbatim>\<open>OakRequestResponse.setResponseHeader\<close>, and so
    on), with their contract lemmas.
  \<^item> \<open>Directives\<close>: \<open>dnsPrefetchControl\<close> (with \<open>getHeaderValueFromOptions\<close>),
    \<open>dontSniffMimetype\<close> and \<open>hidePoweredBy\<close>, each over any \<open>rr_iface\<close>. Each
    comes with its list of header operations and a lemma that it is exactly that list.
    The option interfaces \<^verbatim>\<open>DnsPrefetchControlOptions\<close> and
    \<^verbatim>\<open>HidePoweredByOptions\<close> are the predicates \<open>dns_options_typed\<close> and
    \<open>hide_options_typed\<close>.
  \<^item> \<open>Snelm\<close>: the state record \<open>snelm\<close> (\<^verbatim>\<open>_frameworkName\<close>, \<^verbatim>\<open>_options\<close>,
    \<^verbatim>\<open>_fameworkLib\<close>), the constructor \<open>Snelm_new\<close>, \<open>snelm_init\<close> with module
    resolution \<open>resolve_framework\<close>, and \<open>snelm_snelm\<close>. Module resolution follows
    the import of line 26: the specifier \<^verbatim>\<open>./frameworks/${name}.ts\<close> is split into
    path segments (\<open>split_path\<close>), resolved against src/mod.ts
    (\<open>resolve_segs\<close>, \<open>module_path\<close>), and looked up among the repository's modules
    (\<open>module_default\<close>). Its directive loop
    \<open>run_directives\<close> goes over \<open>directive_registry\<close> in source order. The abstract
    specification \<open>snelm_plan\<close> is the list of header operations that a configuration
    determines.
  \<^item> \<open>Lifecycle\<close>: the asynchronous life cycle as the inductive step relation
    \<open>lc_step\<close>. Its steps are an init call, its import settling, and an invocation
    between any two steps. Runs are \<open>lc_run\<close>, and the invariant \<open>lc_inv\<close> is proved
    by rule induction. Both relations are executable by \<^theory_text>\<open>code_pred\<close>, and
    \<open>lc_invoke_after_settle\<close> says what every invocation after a settlement computes.
  \<^item> \<open>OakPipeline\<close> and \<open>PogoPipeline\<close>: the composition of orchestrator,
    directives and one adapter, from configuration to the response's headers.
  \<^item> \<open>Examples\<close>: the example servers of src/tests/oak.ts and src/tests/pogo.ts.
    \<open>example_setup\<close> is the constructor and the awaited \<^verbatim>\<open>init()\<close>;
    \<open>oak_example_middleware\<close> and \<open>pogo_example_route\<close> are the calls of
    \<^verbatim>\<open>snelm()\<close> in the Oak middleware and the Pogo route. Runs of the life cycle of
    the example's object connect them to \<open>Lifecycle\<close>.
  \<^item> this theory: the header that you are reading.

  \<^bold>\<open>What is proved.\<close>
  \<^item> Refinement (C1): an initialized \<^verbatim>\<open>snelm()\<close> is \<open>run_hops\<close> of
    \<open>snelm_plan\<close> on the selected adapter. The plan depends on the configuration only,
    so invocations are deterministic and framework-independent.
  \<^item> End to end on Oak (C2, C3): an invocation completes, and \<^verbatim>\<open>X-Powered-By\<close> and
    \<^verbatim>\<open>X-DNS-Prefetch-Control\<close> end as the directives decide, for every object
    configuration. With \<^verbatim>\<open>hidePoweredBy: null\<close> the header stays, against the example
    of spec section 8.
  \<^item> The \<^verbatim>\<open>null\<close> sentinel (C4).
  \<^item> Error paths: C5, C6, C10 and C16. C6 covers plain names, the domain on which module
    resolution is exact.
  \<^item> \<^verbatim>\<open>init()\<close> is idempotent (C7).
  \<^item> The adapter contracts:
    \<^item> round trips (C8, C11);
    \<^item> remove of an absent header (C9), and remove then get (C21);
    \<^item> the Pogo divergences (C12, C13);
    \<^item> no header operation writes the request (C22).
  \<^item> Directive behaviour on every option value (C14, C15), and on options of the
    declared TypeScript types (C32, C33).
  \<^item> Invariants and ordering of the life cycle over every interleaving (C17 to C20), and
    its progress (C28).
  \<^item> Errors on Oak:
    \<^item> an exception propagates and keeps exactly the mutations made before the
      rejected call (C23);
    \<^item> an invocation throws exactly when some call of the plan fails the
      \<open>Headers\<close> validation (C26).
  \<^item> End to end on Pogo (C24, C25): with a plain \<^verbatim>\<open>headers\<close> object an invocation
    always completes. On Pogo's own \<open>Response\<close> it completes, but \<^verbatim>\<open>X-Powered-By\<close>
    stays: the code bug of C13, seen from \<^verbatim>\<open>snelm()\<close>.
  \<^item> The entry list of the response grows by at most one entry per set call on Oak
    (C27).
  \<^item> The example servers (C30, C31), and the same under every interleaving of the life
    cycle (C34, C29). The Oak example sets both headers and removes
    \<^verbatim>\<open>X-Powered-By\<close>. The Pogo example sets \<^verbatim>\<open>X-Content-Type-Options\<close> but serves
    \<^verbatim>\<open>X-Powered-By\<close> unchanged.

  \<^bold>\<open>Plan for further work.\<close> The code of the repository is modelled and mapped
  as far as it goes. The unmapped lines are the import statements and the lines that
  open and close the class of src/mod.ts. What remains is outside src/:
  \<^enum> the nine directives that src/mod.ts imports but the snapshot lacks, once their code
    is available (today they are the parameter \<open>ext\<close>);
  \<^enum> the guard of immutable \<open>Headers\<close> objects, relevant only to responses a
    framework freezes, which neither example produces.

  \<^bold>\<open>Choices and limits.\<close>
  \<^item> No loop of the repository's code is unbounded. The directive loop is
    structural recursion over the fixed registry, so no fuel is needed. Deno's
    \<open>Headers\<close> loops are kept as \<open>while_option\<close> loops. Their termination is
    proved with the measure \<open>length list - i\<close>. The adapters' lemmas use the
    equivalent reference updates.
  \<^item> Module resolution is exact for every name whose path stays inside the
    repository and reaches src/frameworks, src/mod.ts or no module at all. Not
    modelled:
    \<^item> names that reach a module of src/deps, whose default export is a directive
      function and not an adapter class;
    \<^item> names that reach a module of src/tests, whose loading starts an example
      server;
    \<^item> paths that leave the repository;
    \<^item> \<^verbatim>\<open>?\<close>, \<^verbatim>\<open>#\<close> and \<^verbatim>\<open>%\<close> in names (URL query, fragment and escapes).
    The model rejects these with \<open>UnknownFramework\<close>. The claims about rejection
    assume \<open>plain_name\<close>, which excludes them.
  \<^item> Header values are strings, as the interface declares
    (\<^verbatim>\<open>headerValue: string\<close>). hide-powered-by passes \<^verbatim>\<open>setTo\<close>, a string by
    its declared type. The model applies \<^verbatim>\<open>String()\<close> to it, which is the identity
    on strings and the conversion \<open>Headers\<close> performs on anything else. A non-string
    \<^verbatim>\<open>setTo\<close> that reaches a plain \<^verbatim>\<open>headers\<close> object, which stores it
    unconverted, lies outside the declared types and is not modelled.
  \<^item> The nine directives missing from src/ are the parameter \<open>ext :: ext_directives\<close>,
    which gives each one's header operations. Theorems hold for every such parameter,
    or for every one that leaves a named header alone and issues valid calls; the
    witnesses use \<open>no_ext\<close>.
  \<^item> Native objects are modelled only as far as the adapters touch them. Not modelled:
    immutable \<open>Headers\<close> guards, \<open>set-cookie\<close>, prototype properties, arrays
    and \<open>NaN\<close> in options.
  \<^item> In the examples only the calls of the library are modelled. Listening,
    \<^verbatim>\<open>next()\<close> and response bodies do not touch headers. The middlewares of abc,
    alosaur, attain, aqua and fresh are not modelled: their \<^verbatim>\<open>init()\<close> rejects (C7),
    because src/frameworks has no adapter for them, so that code never runs.
\<close>


end
